(* ===== verification/Prelude.thy ===== *)
theory Prelude
  imports Main "HOL-Library.Word" "HOL-Library.Multiset" "HOL-Library.List_Lexorder"
    "HOL-Library.Char_ord"
begin

text \<open>
  What every component shares: the names of the machine integers, saturating arithmetic on
  them, Rust strings, time, loops that thread a context through a list, keyed stores, and
  machines that keep an invariant.

  A Rust \<open>String\<close> is the list of the bytes of its UTF-8 encoding (\<open>string\<close>, whose
  characters are bytes), as in Rust: \<open>len()\<close> is \<^const>\<open>length\<close>, \<open>==\<close> and \<open><\<close> compare bytes.
  Where the code walks over \<open>chars()\<close>, the function \<open>chars\<close> below splits the bytes into
  the encodings of the single code points.
\<close>

named_theorems model_simps \<open>equations that unfold the model of a component\<close>

section \<open>Machine integers\<close>

type_synonym u8 = "8 word"
type_synonym u16 = "16 word"
type_synonym u32 = "32 word"
type_synonym u64 = "64 word"
type_synonym i64 = "64 word" \<comment> \<open>read with \<open>sint\<close>\<close>

definition saturating_add :: "'w::len word \<Rightarrow> 'w word \<Rightarrow> 'w word" where
  "saturating_add a b = (if unat a + unat b < 2 ^ LENGTH('w) then a + b else - 1)"

definition saturating_sub :: "'w::len word \<Rightarrow> 'w word \<Rightarrow> 'w word" where
  "saturating_sub a b = (if b \<le> a then a - b else 0)"

lemma unat_saturating_add:
  "unat (saturating_add a (b :: 'w::len word)) = min (unat a + unat b) (2 ^ LENGTH('w) - 1)"
proof -
  have "unat (- 1 :: 'w word) = 2 ^ LENGTH('w) - 1"
    by (simp add: unsigned_minus_1_eq_mask mask_eq_exp_minus_1)
  then show ?thesis by (auto simp: saturating_add_def unat_word_ariths)
qed

lemma unat_saturating_sub: "unat (saturating_sub a b) = unat a - unat b"
  by (auto simp: saturating_sub_def unat_sub word_le_nat_alt)

lemma saturating_sub_0 [simp]: "saturating_sub a 0 = a"
  by (simp add: saturating_sub_def)

lemma saturating_add_0 [simp]: "saturating_add a 0 = a"
  by (simp add: saturating_add_def)

text \<open>Taking a part out and putting it back loses nothing, when it was a part.\<close>

lemma saturating_sub_add:
  "b \<le> a \<Longrightarrow> saturating_add (saturating_sub a b) b = (a :: 'a::len word)"
proof -
  have "unat a < 2 ^ LENGTH('a)" by (rule unsigned_less)
  then have "min (unat a) (2 ^ LENGTH('a) - Suc 0) = unat a" by linarith
  then show "b \<le> a \<Longrightarrow> saturating_add (saturating_sub a b) b = a"
    by (auto simp: word_unat_eq_iff unat_saturating_add unat_saturating_sub word_le_nat_alt)
qed

lemma saturating_add_sub:
  "unat a + unat b < 2 ^ LENGTH('w) \<Longrightarrow> saturating_sub (saturating_add a b) b = (a :: 'w::len word)"
  by (simp add: word_unat_eq_iff unat_saturating_add unat_saturating_sub)

lemma unat_of_nat_small: "n < 2 ^ LENGTH('w) \<Longrightarrow> unat (of_nat n :: 'w::len word) = n"
  by (simp only: unsigned_of_nat take_bit_nat_eq_self) simp

lemma unat_Suc_u32: "Suc n < 2 ^ 32 \<Longrightarrow> unat (of_nat n + 1 :: u32) = Suc n"
proof -
  assume "Suc n < 2 ^ 32"
  then have "unat (of_nat (Suc n) :: u32) = Suc n" by (intro unat_of_nat_small) simp
  then show ?thesis by (simp only: of_nat_Suc add.commute)
qed

text \<open>\<open>u32::try_from\<close> of a \<open>u64\<close>.\<close>

definition u32_try_from :: "u64 \<Rightarrow> u32 option" where
  "u32_try_from n = (if unat n < 2 ^ 32 then Some (ucast n) else None)"

lemma unat_ucast_32_64 [simp]: "unat (ucast (n :: u32) :: u64) = unat n"
proof -
  have "unat n < 2 ^ 64" using unsigned_less [of n, where ?'a = nat] by simp
  then show ?thesis by (simp add: unsigned_ucast_eq take_bit_nat_eq_self)
qed

lemma u32_try_from_ucast [simp]: "u32_try_from (ucast n) = Some n"
proof -
  have "unat n < 2 ^ 32" using unsigned_less [of n, where ?'a = nat] by simp
  then show ?thesis by (simp add: u32_try_from_def word_unat_eq_iff unsigned_ucast_eq take_bit_word_eq_self)
qed

section \<open>Strings\<close>

definition utf8_width :: "char \<Rightarrow> nat" where
  "utf8_width c =
     (let n = (of_char c :: nat)
      in if n < 192 then 1 else if n < 224 then 2 else if n < 240 then 3 else 4)"

function chars :: "string \<Rightarrow> string list" where
  "chars [] = []"
| "chars (b # bs) =
     (b # take (utf8_width b - 1) bs) # chars (drop (utf8_width b - 1) bs)"
  by pat_completeness auto
termination
  by (relation "measure length") auto

lemma concat_chars: "concat (chars s) = s"
  by (induction s rule: chars.induct) simp_all

lemma utf8_width_ascii: "of_char c < (128::nat) \<Longrightarrow> utf8_width c = 1"
  by (simp add: utf8_width_def)

lemma chars_ascii: "list_all (\<lambda>c. of_char c < (128::nat)) s \<Longrightarrow> chars s = map (\<lambda>c. [c]) s"
  by (induction s) (simp_all add: utf8_width_ascii)

fun strip_prefix :: "'a list \<Rightarrow> 'a list \<Rightarrow> 'a list option" where
  "strip_prefix [] s = Some s"
| "strip_prefix (p # ps) [] = None"
| "strip_prefix (p # ps) (c # cs) = (if p = c then strip_prefix ps cs else None)"

lemma strip_prefix_append [simp]: "strip_prefix p (p @ s) = Some s"
  by (induction p) auto

lemma strip_prefix_Some: "strip_prefix p s = Some r \<longleftrightarrow> s = p @ r"
  by (induction p s rule: strip_prefix.induct) auto

text \<open>\<open>str::find(c)\<close> of one ASCII character, giving what stands before and after it.\<close>

fun split_at_char :: "char \<Rightarrow> string \<Rightarrow> (string \<times> string) option" where
  "split_at_char c [] = None"
| "split_at_char c (x # xs) =
     (if x = c then Some ([], xs)
      else (case split_at_char c xs of None \<Rightarrow> None | Some (a, b) \<Rightarrow> Some (x # a, b)))"

lemma split_at_char_append: "c \<notin> set a \<Longrightarrow> split_at_char c (a @ c # b) = Some (a, b)"
  by (induction a) auto

lemma split_at_char_None: "split_at_char c s = None \<longleftrightarrow> c \<notin> set s"
  by (induction s) (auto split: option.splits)

lemma split_at_char_Some:
  "split_at_char c s = Some (a, b) \<longleftrightarrow> s = a @ c # b \<and> c \<notin> set a"
proof
  assume "split_at_char c s = Some (a, b)"
  then show "s = a @ c # b \<and> c \<notin> set a"
    by (induction s arbitrary: a) (auto split: option.splits if_splits)
qed (simp add: split_at_char_append)

text \<open>\<open>str::trim_end_matches\<close> of a set of ASCII characters.\<close>

definition trim_end :: "(char \<Rightarrow> bool) \<Rightarrow> string \<Rightarrow> string" where
  "trim_end p s = rev (dropWhile p (rev s))"

text \<open>
  \<open>str::trim\<close>: the code points of the property White_Space, by their encodings.
\<close>

definition white_space :: "string list" where
  "white_space = map (map char_of)
     [[9 :: nat], [10], [11], [12], [13], [32], [194, 133], [194, 160], [225, 154, 128],
      [226, 128, 128], [226, 128, 129], [226, 128, 130], [226, 128, 131], [226, 128, 132],
      [226, 128, 133], [226, 128, 134], [226, 128, 135], [226, 128, 136], [226, 128, 137],
      [226, 128, 138], [226, 128, 168], [226, 128, 169], [226, 128, 175], [226, 129, 159],
      [227, 128, 128]]"

definition trim :: "string \<Rightarrow> string" where
  "trim s =
     (let ws = (\<lambda>c. c \<in> set white_space)
      in concat (rev (dropWhile ws (rev (dropWhile ws (chars s))))))"

text \<open>Digits and the colon are no white space.\<close>

lemma no_ws: "48 \<le> (of_char c :: nat) \<Longrightarrow> (of_char c :: nat) \<le> 58 \<Longrightarrow> [c] \<notin> set white_space"
  by (auto simp: white_space_def)
lemma trim_digits:
  assumes "list_all (\<lambda>c. 48 \<le> (of_char c :: nat) \<and> (of_char c :: nat) \<le> 58) s"
  shows "trim s = s"
proof -
  have "\<forall>c \<in> set s. (of_char c :: nat) < 128" using assms by (auto simp: list_all_iff)
  then have c: "chars s = map (\<lambda>c. [c]) s" by (intro chars_ascii) (simp add: list_all_iff)
  have "\<forall>c \<in> set (chars s). c \<notin> set white_space" using assms no_ws by (auto simp: c list_all_iff)
  then have "dropWhile (\<lambda>c. c \<in> set white_space) (chars s) = chars s"
    "dropWhile (\<lambda>c. c \<in> set white_space) (rev (chars s)) = rev (chars s)"
    by (metis dropWhile_eq_self_iff hd_in_set set_rev)+
  then show ?thesis by (simp add: trim_def concat_chars)
qed

text \<open>\<open>str::to_ascii_lowercase\<close>\<close>

definition ascii_lower :: "char \<Rightarrow> char" where
  "ascii_lower c =
     (let n = (of_char c :: nat) in if 65 \<le> n \<and> n \<le> 90 then char_of (n + 32) else c)"

definition to_ascii_lowercase :: "string \<Rightarrow> string" where
  "to_ascii_lowercase s = map ascii_lower s"

fun join_with :: "string \<Rightarrow> string list \<Rightarrow> string" where
  "join_with sep [] = []"
| "join_with sep [s] = s"
| "join_with sep (s # t # ss) = s @ sep @ join_with sep (t # ss)"

section \<open>Time\<close>

text \<open>
  A \<open>DateTime<Utc>\<close> or \<open>Instant\<close> is a number of nanoseconds, a \<open>Duration\<close> a difference of two.
  \<open>Instant::duration_since\<close> of a later instant is zero.
\<close>

type_synonym instant = int
type_synonym duration = int

definition seconds :: "int \<Rightarrow> duration" where
  "seconds n = n * 1000000000"

definition duration_since :: "instant \<Rightarrow> instant \<Rightarrow> duration" where
  "duration_since now t = max 0 (now - t)"

text \<open>\<open>TimeDelta::num_seconds\<close> and \<open>num_minutes\<close> truncate towards zero.\<close>

definition num_seconds :: "duration \<Rightarrow> int" where
  "num_seconds d = sgn d * (\<bar>d\<bar> div 1000000000)"

definition num_minutes :: "duration \<Rightarrow> int" where
  "num_minutes d = sgn d * (\<bar>d\<bar> div 60000000000)"

section \<open>Loops that thread a context\<close>

text \<open>
  \<open>for x in xs { if let Some(y) = f(x, ctx) { out.push(y) } }\<close>
\<close>

fun filter_map_ctx :: "('a \<Rightarrow> 'c \<Rightarrow> 'b option \<times> 'c) \<Rightarrow> 'a list \<Rightarrow> 'c \<Rightarrow> 'b list \<times> 'c" where
  "filter_map_ctx f [] c = ([], c)"
| "filter_map_ctx f (x # xs) c =
     (let (y, c') = f x c; (ys, c'') = filter_map_ctx f xs c'
      in (case y of None \<Rightarrow> ys | Some z \<Rightarrow> z # ys, c''))"

text \<open>\<open>for x in xs { out.push(f(x, ctx)) }\<close>\<close>

fun map_ctx :: "('a \<Rightarrow> 'c \<Rightarrow> 'b \<times> 'c) \<Rightarrow> 'a list \<Rightarrow> 'c \<Rightarrow> 'b list \<times> 'c" where
  "map_ctx f [] c = ([], c)"
| "map_ctx f (x # xs) c = (let (y, c') = f x c; (ys, c'') = map_ctx f xs c' in (y # ys, c''))"

text \<open>\<open>for x in xs { out.push(f(x, ctx)?) }\<close>\<close>

fun try_map_ctx :: "('a \<Rightarrow> 'c \<Rightarrow> ('e + 'b) \<times> 'c) \<Rightarrow> 'a list \<Rightarrow> 'c \<Rightarrow> ('e + 'b list) \<times> 'c" where
  "try_map_ctx f [] c = (Inr [], c)"
| "try_map_ctx f (x # xs) c =
     (case f x c of
        (Inl e, c') \<Rightarrow> (Inl e, c')
      | (Inr y, c') \<Rightarrow>
          (case try_map_ctx f xs c' of
             (Inl e, c'') \<Rightarrow> (Inl e, c'')
           | (Inr ys, c'') \<Rightarrow> (Inr (y # ys), c'')))"

text \<open>
  What a loop over a printed list reads back, when each element comes back and adds \<open>h x\<close> to
  the context.
\<close>

lemma filter_map_ctx_inverse:
  "(\<And>x c. x \<in> set xs \<Longrightarrow> f (g x) c = (Some x, h x c)) \<Longrightarrow>
   filter_map_ctx f (map g xs) c = (xs, fold h xs c)"
  by (induction xs arbitrary: c) auto

lemma try_map_ctx_inverse:
  "(\<And>x c. x \<in> set xs \<Longrightarrow> f (g x) c = (Inr x, h x c)) \<Longrightarrow>
   try_map_ctx f (map g xs) c = (Inr xs, fold h xs c)"
  by (induction xs arbitrary: c) auto

lemma fold_const: "(\<And>x c. x \<in> set xs \<Longrightarrow> h x c = c) \<Longrightarrow> fold h xs c = c"
  by (induction xs arbitrary: c) auto

text \<open>\<open>Option::or_else\<close> and \<open>unwrap_or\<close>\<close>

definition or_else :: "'a option \<Rightarrow> 'a option \<Rightarrow> 'a option" where
  "or_else a b = (case a of None \<Rightarrow> b | Some x \<Rightarrow> Some x)"

definition unwrap_or :: "'a \<Rightarrow> 'a option \<Rightarrow> 'a" where
  "unwrap_or d a = (case a of None \<Rightarrow> d | Some x \<Rightarrow> x)"

lemma or_else_simps [simp]: "or_else None b = b" "or_else (Some x) b = Some x"
  by (simp_all add: or_else_def)

lemma unwrap_or_simps [simp]: "unwrap_or d None = d" "unwrap_or d (Some x) = x"
  by (simp_all add: unwrap_or_def)

section \<open>Machines that keep an invariant\<close>

text \<open>
  Several components are a state that one handler updates per call. What one call keeps,
  every sequence of calls keeps.
\<close>

locale invariant_machine =
  fixes step :: "'e \<Rightarrow> 's \<Rightarrow> 's"
    and inv :: "'s \<Rightarrow> bool"
  assumes inv_step: "inv s \<Longrightarrow> inv (step e s)"
begin

lemma inv_fold: "inv s \<Longrightarrow> inv (fold step es s)"
  by (induction es arbitrary: s) (simp_all add: inv_step)

end

section \<open>Keyed stores\<close>

text \<open>
  The interface of the maps the components keep (\<open>HashMap\<close>, \<open>serde_json::Map\<close>): what a lookup
  returns after an insert and after a removal.
\<close>

locale keyed_store =
  fixes get :: "'k \<Rightarrow> 'm \<Rightarrow> 'v option"
    and put :: "'k \<Rightarrow> 'v \<Rightarrow> 'm \<Rightarrow> 'm"
    and del :: "'k \<Rightarrow> 'm \<Rightarrow> 'm"
    and ok :: "'m \<Rightarrow> bool"
  assumes get_put: "get j (put k v m) = (if j = k then Some v else get j m)"
    and get_del: "ok m \<Longrightarrow> get j (del k m) = (if j = k then None else get j m)"
    and ok_put: "ok m \<Longrightarrow> ok (put k v m)"
    and ok_del: "ok m \<Longrightarrow> ok (del k m)"
begin

text \<open>A batch of inserts, and an optional insert, as the converters do them.\<close>

definition put_all :: "('k \<times> 'v) list \<Rightarrow> 'm \<Rightarrow> 'm" where
  "put_all kvs m = fold (\<lambda>(k, v). put k v) kvs m"

lemma get_put_all:
  "get j (put_all kvs m) = (case map_of (rev kvs) j of None \<Rightarrow> get j m | Some v \<Rightarrow> Some v)"
  by (induction kvs arbitrary: m)
    (auto simp: put_all_def get_put map_add_def split: option.splits)

lemma ok_put_all: "ok m \<Longrightarrow> ok (put_all kvs m)"
  by (induction kvs arbitrary: m) (auto simp: put_all_def ok_put)

lemma get_put_other: "j \<noteq> k \<Longrightarrow> get j (put k v m) = get j m"
  by (simp add: get_put)

end

interpretation fun_store: keyed_store "\<lambda>k m. m k" "\<lambda>k v m. m(k \<mapsto> v)" "\<lambda>k m. m(k := None)" "\<lambda>_. True"
  by unfold_locales auto

section \<open>Sources of events and their client\<close>

text \<open>
  A converter of streams is a state that answers every input with some events. Its client is an
  automaton that takes one event at a time and refuses what it does not expect. The contract of
  the two: after every input the client has accepted all events and stands where the abstraction
  of the converter's state says.
\<close>

fun accepts :: "('e \<Rightarrow> 'c \<Rightarrow> 'c option) \<Rightarrow> 'e list \<Rightarrow> 'c \<Rightarrow> 'c option" where
  "accepts f [] c = Some c"
| "accepts f (e # es) c = Option.bind (f e c) (accepts f es)"

lemma accepts_append:
  "accepts f (es @ es') c = Option.bind (accepts f es c) (accepts f es')"
  by (induction es arbitrary: c) (auto split: bind_splits)

fun emit_all :: "('i \<Rightarrow> 's \<Rightarrow> 'e list \<times> 's) \<Rightarrow> 'i list \<Rightarrow> 's \<Rightarrow> 'e list \<times> 's" where
  "emit_all f [] s = ([], s)"
| "emit_all f (i # is) s =
     (let (es, s1) = f i s; (es', s2) = emit_all f is s1 in (es @ es', s2))"

lemma emit_all_append:
  "emit_all f (is @ js) s =
     (let (es, s1) = emit_all f is s; (es', s2) = emit_all f js s1 in (es @ es', s2))"
  by (induction "is" arbitrary: s) (auto simp: Let_def split: prod.splits)

locale event_source =
  fixes emit :: "'i \<Rightarrow> 's \<Rightarrow> 'e list \<times> 's"
    and accept :: "'e \<Rightarrow> 'c \<Rightarrow> 'c option"
    and abs :: "'s \<Rightarrow> 'c"
    and inv :: "'s \<Rightarrow> bool"
  assumes emit_accepted:
    "inv s \<Longrightarrow> emit i s = (es, s') \<Longrightarrow> accepts accept es (abs s) = Some (abs s') \<and> inv s'"
begin

lemma emit_all_accepted:
  "inv s \<Longrightarrow> emit_all emit is s = (es, s') \<Longrightarrow>
   accepts accept es (abs s) = Some (abs s') \<and> inv s'"
proof (induction "is" arbitrary: s es)
  case (Cons i "is")
  obtain es1 s1 es2 where step: "emit i s = (es1, s1)" "emit_all emit is s1 = (es2, s')"
    and es: "es = es1 @ es2"
    using Cons.prems by (auto split: prod.splits)
  have "accepts accept es1 (abs s) = Some (abs s1)" "inv s1"
    using emit_accepted [OF Cons.prems(1) step(1)] by auto
  with Cons.IH [OF _ step(2)] show ?case by (simp add: es accepts_append)
qed simp

end

end
