(* ===== verification/Json.thy ===== *)
theory Json
  imports Prelude
begin

text \<open>
  The \<open>serde_json::Value\<close> data that the gateway reads and writes, with the accessors the code
  uses. \<open>serde_json::Map\<close> is a \<open>BTreeMap\<close> here (\<open>Cargo.toml\<close> does not turn on
  \<open>preserve_order\<close>), so an object is a list of entries in strictly ascending key order and an
  insert puts the key in its place. A number is a \<open>u64\<close>, a negative \<open>i64\<close> or an \<open>f64\<close>, as in
  \<open>serde_json::Number\<close>. An \<open>f64\<close> is its IEEE-754 bit pattern.

  Parsing and printing JSON text is the library's; it is a parameter (\<open>json_text\<close>) of the
  definitions that use it.
\<close>

section \<open>Numbers\<close>

type_synonym f64 = "64 word"

datatype jnum = PosInt u64 | NegInt i64 | Float f64

text \<open>
  \<open>n as f64\<close>: round to nearest, ties to even. \<open>e\<close> is the exponent of the leading bit; the
  biased exponent is added to the significand with its leading bit, so that a carry out of the
  rounding moves into the exponent.
\<close>

fun floor_log2 :: "nat \<Rightarrow> nat" where
  "floor_log2 n = (if n < 2 then 0 else Suc (floor_log2 (n div 2)))"

declare floor_log2.simps [simp del]

definition f64_bits_of_nat :: "nat \<Rightarrow> nat" where
  "f64_bits_of_nat n =
     (if n = 0 then 0
      else let e = floor_log2 n
        in if e \<le> 52 then (e + 1022) * 2 ^ 52 + n * 2 ^ (52 - e)
           else let d = 2 ^ (e - 52); q = n div d; r = n mod d
             in (e + 1022) * 2 ^ 52 +
                (if 2 * r < d \<or> (2 * r = d \<and> even q) then q else q + 1))"

definition f64_of_u64 :: "u64 \<Rightarrow> f64" where
  "f64_of_u64 n = of_nat (f64_bits_of_nat (unat n))"

definition f64_of_i64 :: "i64 \<Rightarrow> f64" where
  "f64_of_i64 n =
     (if 0 \<le> sint n then f64_of_u64 n
      else of_nat (2 ^ 63 + f64_bits_of_nat (nat (- sint n))))"

definition f64_is_finite :: "f64 \<Rightarrow> bool" where
  "f64_is_finite x \<longleftrightarrow> (unat x div 2 ^ 52) mod 2048 \<noteq> 2047"

section \<open>Values and their accessors\<close>

datatype json =
  JNull | JBool bool | JNum jnum | JStr string | JArr "json list" | JObj "(string \<times> json) list"

type_synonym jmap = "(string \<times> json) list"

fun obj_get :: "string \<Rightarrow> jmap \<Rightarrow> json option" where
  "obj_get k [] = None"
| "obj_get k ((k', v) # m) = (if k = k' then Some v else obj_get k m)"

fun obj_insert :: "string \<Rightarrow> json \<Rightarrow> jmap \<Rightarrow> jmap" where
  "obj_insert k v [] = [(k, v)]"
| "obj_insert k v ((k', v') # m) =
     (if k = k' then (k, v) # m
      else if k < k' then (k, v) # (k', v') # m
      else (k', v') # obj_insert k v m)"

fun obj_remove :: "string \<Rightarrow> jmap \<Rightarrow> jmap" where
  "obj_remove k [] = []"
| "obj_remove k ((k', v) # m) = (if k = k' then m else (k', v) # obj_remove k m)"

text \<open>\<open>m.entry(k).or_insert(v)\<close>, and an insert under an \<open>if let Some\<close>.\<close>

definition obj_or_insert :: "string \<Rightarrow> json \<Rightarrow> jmap \<Rightarrow> jmap" where
  "obj_or_insert k v m = (case obj_get k m of None \<Rightarrow> obj_insert k v m | Some _ \<Rightarrow> m)"

definition obj_insert_opt :: "string \<Rightarrow> json option \<Rightarrow> jmap \<Rightarrow> jmap" where
  "obj_insert_opt k v m = (case v of None \<Rightarrow> m | Some x \<Rightarrow> obj_insert k x m)"

definition obj_keys :: "jmap \<Rightarrow> string list" where
  "obj_keys m = map fst m"

lemma obj_keys_simps [simp]: "obj_keys [] = []" "obj_keys ((k, v) # m) = k # obj_keys m"
  by (simp_all add: obj_keys_def)

text \<open>What every \<open>BTreeMap\<close> keeps: the keys ascend strictly.\<close>

definition obj_ok :: "jmap \<Rightarrow> bool" where
  "obj_ok m \<longleftrightarrow> sorted_wrt (<) (obj_keys m)"

text \<open>\<open>json!({...})\<close> with these entries.\<close>

definition json_obj :: "(string \<times> json) list \<Rightarrow> json" where
  "json_obj kvs = JObj (fold (\<lambda>(k, v). obj_insert k v) kvs [])"

fun as_str :: "json \<Rightarrow> string option" where
  "as_str (JStr s) = Some s" | "as_str _ = None"

fun as_bool :: "json \<Rightarrow> bool option" where
  "as_bool (JBool b) = Some b" | "as_bool _ = None"

fun as_array :: "json \<Rightarrow> json list option" where
  "as_array (JArr vs) = Some vs" | "as_array _ = None"

fun as_object :: "json \<Rightarrow> jmap option" where
  "as_object (JObj m) = Some m" | "as_object _ = None"

fun as_u64 :: "json \<Rightarrow> u64 option" where
  "as_u64 (JNum (PosInt n)) = Some n" | "as_u64 _ = None"

fun as_i64 :: "json \<Rightarrow> i64 option" where
  "as_i64 (JNum (PosInt n)) = (if unat n < 2 ^ 63 then Some n else None)"
| "as_i64 (JNum (NegInt n)) = Some n"
| "as_i64 _ = None"

fun as_f64 :: "json \<Rightarrow> f64 option" where
  "as_f64 (JNum (PosInt n)) = Some (f64_of_u64 n)"
| "as_f64 (JNum (NegInt n)) = Some (f64_of_i64 n)"
| "as_f64 (JNum (Float x)) = Some x"
| "as_f64 _ = None"

fun is_null :: "json \<Rightarrow> bool" where
  "is_null JNull = True" | "is_null _ = False"

fun is_object :: "json \<Rightarrow> bool" where
  "is_object (JObj m) = True" | "is_object _ = False"

text \<open>\<open>v.get(k)\<close>, and \<open>v[k]\<close>, which is \<open>Null\<close> where there is no such key.\<close>

fun jget :: "string \<Rightarrow> json \<Rightarrow> json option" where
  "jget k (JObj m) = obj_get k m" | "jget k _ = None"

definition jidx :: "json \<Rightarrow> string \<Rightarrow> json" where
  "jidx v k = (case jget k v of None \<Rightarrow> JNull | Some x \<Rightarrow> x)"

text \<open>\<open>as_str().unwrap_or_default()\<close>\<close>

definition str_or_empty :: "json \<Rightarrow> string" where
  "str_or_empty v = (case as_str v of None \<Rightarrow> [] | Some s \<Rightarrow> s)"

text \<open>\<open>Value::from\<close> of the integer types, and \<open>Number::from_f64(x).map(Value::Number).unwrap_or(Null)\<close>.\<close>

definition json_u64 :: "u64 \<Rightarrow> json" where
  "json_u64 n = JNum (PosInt n)"

definition json_u32 :: "u32 \<Rightarrow> json" where
  "json_u32 n = JNum (PosInt (ucast n))"

definition json_i64 :: "i64 \<Rightarrow> json" where
  "json_i64 n = (if 0 \<le> sint n then JNum (PosInt n) else JNum (NegInt n))"

definition json_f64 :: "f64 \<Rightarrow> json" where
  "json_f64 x = (if f64_is_finite x then JNum (Float x) else JNull)"

text \<open>The library's \<open>to_string\<close> and \<open>from_str\<close> (the error is its message).\<close>

record json_text =
  to_text :: "json \<Rightarrow> string"
  from_text :: "string \<Rightarrow> string + json"

section \<open>Laws\<close>

lemma obj_get_insert: "obj_get j (obj_insert k v m) = (if j = k then Some v else obj_get j m)"
  by (induction k v m rule: obj_insert.induct) auto

lemma set_keys_insert: "set (obj_keys (obj_insert k v m)) = insert k (set (obj_keys m))"
  by (induction k v m rule: obj_insert.induct) (auto simp: obj_keys_def)

lemma set_keys_remove: "set (obj_keys (obj_remove k m)) \<subseteq> set (obj_keys m)"
  by (induction k m rule: obj_remove.induct) (auto simp: obj_keys_def)

lemma obj_ok_Nil [simp]: "obj_ok []"
  by (simp add: obj_ok_def obj_keys_def)

lemma obj_ok_Cons: "obj_ok ((k, v) # m) \<longleftrightarrow> (\<forall>j \<in> set (obj_keys m). k < j) \<and> obj_ok m"
  by (simp add: obj_ok_def obj_keys_def)

lemma obj_ok_insert: "obj_ok m \<Longrightarrow> obj_ok (obj_insert k v m)"
proof (induction k v m rule: obj_insert.induct)
  case (2 k v k' v' m)
  then show ?case
    by (cases "k = k'"; cases "k < k'") (auto simp: obj_ok_Cons set_keys_insert)
qed (simp add: obj_ok_Cons obj_keys_def)

lemma obj_ok_remove: "obj_ok m \<Longrightarrow> obj_ok (obj_remove k m)"
  by (induction k m rule: obj_remove.induct)
    (use set_keys_remove in \<open>fastforce simp: obj_ok_Cons\<close>)+

lemma obj_get_None: "obj_get k m = None \<longleftrightarrow> k \<notin> set (obj_keys m)"
  by (induction k m rule: obj_get.induct) (auto simp: obj_keys_def)

lemma obj_get_remove:
  "obj_ok m \<Longrightarrow> obj_get j (obj_remove k m) = (if j = k then None else obj_get j m)"
proof (induction k m rule: obj_remove.induct)
  case (2 k k' v m)
  then show ?case
    by (cases "k = k'") (auto simp: obj_ok_Cons obj_get_None)
qed simp

interpretation obj: keyed_store obj_get obj_insert obj_remove obj_ok
  by unfold_locales (auto simp: obj_get_insert obj_get_remove obj_ok_insert obj_ok_remove)

text \<open>
  The loop that copies the entries with other keys than the known ones back into an empty map
  gives the map without the known keys; on a map that got the known keys by inserts, the map
  before them.
\<close>

definition obj_collect :: "(string \<Rightarrow> bool) \<Rightarrow> jmap \<Rightarrow> jmap \<Rightarrow> jmap" where
  "obj_collect p m acc = fold (\<lambda>(k, v) a. if p k then obj_insert k v a else a) m acc"

lemma obj_insert_last:
  "\<forall>j \<in> set (obj_keys m). j < k \<Longrightarrow> obj_insert k v m = m @ [(k, v)]"
  by (induction k v m rule: obj_insert.induct) (auto simp: obj_keys_def)

lemma obj_collect_append:
  "obj_ok (acc @ m) \<Longrightarrow> obj_collect p m acc = acc @ filter (\<lambda>(k, v). p k) m"
proof (induction m arbitrary: acc)
  case Nil
  then show ?case by (simp add: obj_collect_def)
next
  case (Cons kv m)
  obtain k v where kv: "kv = (k, v)" by force
  have ok: "obj_ok (acc @ m)" and last: "\<forall>j \<in> set (obj_keys acc). j < k"
    using Cons.prems by (auto simp: obj_ok_def obj_keys_def kv sorted_wrt_append)
  have "obj_collect p (kv # m) acc = obj_collect p m (if p k then acc @ [(k, v)] else acc)"
    by (simp add: obj_collect_def kv obj_insert_last [OF last])
  also have "\<dots> = acc @ filter (\<lambda>(k, v). p k) (kv # m)"
    using Cons.IH [of acc] Cons.IH [of "acc @ [(k, v)]"] ok Cons.prems by (simp add: kv)
  finally show ?case .
qed

lemma obj_collect_filter: "obj_ok m \<Longrightarrow> obj_collect p m [] = filter (\<lambda>(k, v). p k) m"
  using obj_collect_append [of "[]"] by simp

lemma filter_obj_insert:
  "\<not> p k \<Longrightarrow> filter (\<lambda>(k, v). p k) (obj_insert k v m) = filter (\<lambda>(k, v). p k) m"
  by (induction k v m rule: obj_insert.induct) auto

lemma filter_all_keys:
  "\<forall>k \<in> set (obj_keys m). p k \<Longrightarrow> filter (\<lambda>(k, v). p k) m = m"
  by (auto simp: obj_keys_def intro!: filter_True)

lemma jget_obj [simp]: "jget k (json_obj kvs) = map_of (rev kvs) k"
proof -
  have "obj_get k (obj.put_all kvs []) = map_of (rev kvs) k"
    by (simp add: obj.get_put_all split: option.splits)
  then show ?thesis by (simp add: json_obj_def obj.put_all_def)
qed

lemma is_object_json_obj [simp]: "is_object (json_obj kvs)"
  by (simp add: json_obj_def)

lemma is_null_json_obj [simp]: "\<not> is_null (json_obj kvs)"
  by (simp add: json_obj_def)

lemma as_u64_json [simp]: "as_u64 (json_u64 n) = Some n" "as_u64 (json_u32 k) = Some (ucast k)"
  by (simp_all add: json_u64_def json_u32_def)

lemma unat_less_of_sint: "0 \<le> sint (n :: i64) \<Longrightarrow> unat n < 2 ^ 63"
proof -
  assume nonneg: "0 \<le> sint n"
  have "uint n < 2 ^ 64" using unsigned_less [of n, where ?'a = int] by simp
  then have "sint n = uint n - 2 ^ 64 * of_bool (bit (uint n) 63)"
    by (simp add: sint_uint signed_take_bit_eq_take_bit_minus take_bit_int_eq_self)
  with nonneg \<open>uint n < 2 ^ 64\<close> have "sint n = uint n" by (cases "bit (uint n) 63") simp_all
  moreover have "sint n < 2 ^ 63"
    using signed_take_bit_int_less_exp [of 63 "uint n"] by (simp add: sint_uint)
  ultimately have "uint n < 2 ^ 63" by linarith
  then show ?thesis by (simp add: nat_less_iff flip: nat_uint_eq)
qed

lemma as_i64_json [simp]: "as_i64 (json_i64 n) = Some n"
proof (cases "0 \<le> sint n")
  case True
  from unat_less_of_sint [OF True] have "as_i64 (JNum (PosInt n)) = Some n" by (simp only: as_i64.simps if_True)
  with True show ?thesis by (simp only: json_i64_def if_True)
next
  case False
  then show ?thesis by (simp only: json_i64_def if_False as_i64.simps)
qed

lemma as_f64_json [simp]: "f64_is_finite x \<Longrightarrow> as_f64 (json_f64 x) = Some x"
  by (simp add: json_f64_def)

lemma str_or_empty_JStr [simp]: "str_or_empty (JStr s) = s"
  by (simp add: str_or_empty_def)

lemma str_or_empty_JNull [simp]: "str_or_empty JNull = []"
  by (simp add: str_or_empty_def)

lemma obj_get_insert_opt:
  "obj_get j (obj_insert_opt k v m) = (if j = k \<and> v \<noteq> None then v else obj_get j m)"
  by (cases v) (auto simp: obj_insert_opt_def obj_get_insert)

lemma obj_ok_insert_opt: "obj_ok m \<Longrightarrow> obj_ok (obj_insert_opt k v m)"
  by (cases v) (auto simp: obj_insert_opt_def obj_ok_insert)

lemma filter_obj_insert_opt:
  "\<not> p k \<Longrightarrow> filter (\<lambda>(k, v). p k) (obj_insert_opt k v m) = filter (\<lambda>(k, v). p k) m"
  by (cases v) (auto simp: obj_insert_opt_def filter_obj_insert)

lemma jidx_JObj [simp]: "jidx (JObj m) k = (case obj_get k m of None \<Rightarrow> JNull | Some v \<Rightarrow> v)"
  by (simp add: jidx_def)

lemma as_str_opt [simp]:
  "as_str (case map_option JStr s of None \<Rightarrow> JNull | Some v \<Rightarrow> v) = s"
  by (cases s) auto

text \<open>A list of optional fields, as the converters insert it.\<close>

definition obj_insert_fields :: "(string \<times> json option) list \<Rightarrow> jmap \<Rightarrow> jmap" where
  "obj_insert_fields fs m = fold (\<lambda>(k, v). obj_insert_opt k v) fs m"

lemma obj_insert_fields_simps [simp]:
  "obj_insert_fields [] m = m"
  "obj_insert_fields ((k, v) # fs) m = obj_insert_fields fs (obj_insert_opt k v m)"
  by (simp_all add: obj_insert_fields_def)

lemma obj_get_fields:
  "distinct (map fst fs) \<Longrightarrow>
   obj_get j (obj_insert_fields fs m) =
     (case map_of fs j of Some (Some v) \<Rightarrow> Some v | _ \<Rightarrow> obj_get j m)"
proof (induction fs arbitrary: m)
  case (Cons f fs)
  obtain k v where f: "f = (k, v)" by force
  have "map_of fs k = None" using Cons.prems f by (auto simp: map_of_eq_None_iff)
  then show ?case
    using Cons f by (cases "j = k"; cases v) (auto simp: obj_get_insert_opt split: option.splits)
qed simp

lemma obj_get_fields_only:
  "distinct (map fst fs) \<Longrightarrow> obj_get j m = None \<Longrightarrow>
   obj_get j (obj_insert_fields fs m) = Option.bind (map_of fs j) id"
  by (auto simp: obj_get_fields split: option.splits)

lemma obj_ok_fields: "obj_ok m \<Longrightarrow> obj_ok (obj_insert_fields fs m)"
  by (induction fs arbitrary: m) (auto simp: obj_ok_insert_opt)

lemma obj_collect_fields:
  assumes "obj_ok m" and "\<forall>k \<in> set (obj_keys m). p k" and "\<forall>k \<in> fst ` set fs. \<not> p k"
  shows "obj_collect p (obj_insert_fields fs m) [] = m"
proof -
  have "filter (\<lambda>(k, v). p k) (obj_insert_fields fs m) = filter (\<lambda>(k, v). p k) m" for m
    using assms(3) by (induction fs arbitrary: m) (auto simp: filter_obj_insert_opt)
  then show ?thesis
    using assms(1,2) by (simp add: obj_collect_filter obj_ok_fields filter_all_keys)
qed

text \<open>An object is determined by what it has under each key.\<close>

lemma obj_ext:
  "obj_ok m \<Longrightarrow> obj_ok m' \<Longrightarrow> (\<And>k. obj_get k m = obj_get k m') \<Longrightarrow> m = m'"
proof (induction m arbitrary: m')
  case Nil
  then show ?case by (cases m') (metis obj_get.simps option.distinct(1) surj_pair)+
next
  case (Cons kv m)
  obtain k v where kv: "kv = (k, v)" by force
  have low: "k < j" if "obj_get j m \<noteq> None" for j
    using Cons.prems(1) that by (auto simp: kv obj_ok_Cons obj_get_None)
  obtain k' v' n where m': "m' = (k', v') # n"
    using Cons.prems(3) [of k] by (cases m') (auto simp: kv)
  have low': "k' < j" if "obj_get j n \<noteq> None" for j
    using Cons.prems(2) that by (auto simp: m' obj_ok_Cons obj_get_None)
  have "k \<noteq> k' \<Longrightarrow> obj_get k' m = Some v'" "k \<noteq> k' \<Longrightarrow> obj_get k n = Some v"
    using Cons.prems(3) [of k'] Cons.prems(3) [of k] by (simp_all add: kv m')
  then have "k = k'"
    using low [of k'] low' [of k] order_less_asym [of k k'] by (cases "k = k'") simp_all
  have "obj_get k m = None" "obj_get k n = None"
    using Cons.prems(1,2) \<open>k = k'\<close> by (auto simp: kv m' obj_ok_Cons obj_get_None)
  then have "obj_get j m = obj_get j n" for j
    using Cons.prems(3) [of j] \<open>k = k'\<close> by (cases "j = k") (simp_all add: kv m')
  moreover have "obj_ok m" "obj_ok n" using Cons.prems(1,2) by (auto simp: kv m' obj_ok_Cons)
  ultimately have "m = n" by (intro Cons.IH)
  moreover have "v = v'" using Cons.prems(3) [of k] \<open>k = k'\<close> by (simp add: kv m')
  ultimately show ?case using \<open>k = k'\<close> by (simp add: kv m')
qed

text \<open>What the loop leaves when it starts from a map that already has entries.\<close>

lemma obj_ok_collect: "obj_ok acc \<Longrightarrow> obj_ok (obj_collect p m acc)"
  by (induction m arbitrary: acc) (auto simp: obj_collect_def obj_ok_insert)

lemma obj_get_collect:
  "obj_ok m \<Longrightarrow> obj_get j (obj_collect p m acc) =
     (if p j \<and> obj_get j m \<noteq> None then obj_get j m else obj_get j acc)"
proof (induction m arbitrary: acc)
  case Nil
  then show ?case by (simp add: obj_collect_def)
next
  case (Cons kv m)
  obtain k v where kv: "kv = (k, v)" by force
  have ok: "obj_ok m" and new: "obj_get k m = None"
    using Cons.prems by (auto simp: kv obj_ok_Cons obj_get_None)
  show ?case
    using Cons.IH [OF ok, of "if p k then obj_insert k v acc else acc"] new
    by (auto simp: kv obj_collect_def obj_get_insert)
qed

text \<open>Looking up in a chain of inserts with literal keys.\<close>

lemmas obj_lookup = obj_get_insert obj_get_insert_opt

lemma obj_get_or_insert:
  "obj_get j (obj_or_insert k v m) =
     (if j = k \<and> obj_get k m = None then Some v else obj_get j m)"
  by (auto simp: obj_or_insert_def obj_get_insert split: option.splits)

text \<open>Unknown fields that are kept beside the known ones.\<close>

definition extra_ok :: "string list \<Rightarrow> jmap \<Rightarrow> bool" where
  "extra_ok known m \<longleftrightarrow> obj_ok m \<and> list_all (\<lambda>k. k \<notin> set known) (obj_keys m)"

text \<open>What a printed object has under its known keys, the unknown ones being apart.\<close>

lemma printed_get:
  assumes "extra_ok known m" "set (map fst fs) \<subseteq> set known" "distinct (map fst fs)"
  shows "k \<in> set known \<Longrightarrow> obj_get k (obj_insert_fields fs m) = Option.bind (map_of fs k) id"
    "obj_collect (\<lambda>k. k \<notin> set known) (obj_insert_fields fs m) [] = m"
proof -
  show "obj_get k (obj_insert_fields fs m) = Option.bind (map_of fs k) id" if "k \<in> set known"
    using assms(1,3) that by (intro obj_get_fields_only) (auto simp: extra_ok_def obj_get_None list_all_iff)
  show "obj_collect (\<lambda>k. k \<notin> set known) (obj_insert_fields fs m) [] = m"
    using assms(1,2) by (intro obj_collect_fields) (auto simp: extra_ok_def list_all_iff)
qed

lemma obj_insert_same: "obj_ok m \<Longrightarrow> obj_get k m = Some v \<Longrightarrow> obj_insert k v m = m"
  by (intro obj_ext obj_ok_insert) (auto simp: obj_get_insert)

lemma obj_remove_None: "obj_ok m \<Longrightarrow> obj_get k m = None \<Longrightarrow> obj_remove k m = m"
  by (intro obj_ext obj_ok_remove) (simp_all add: obj_get_remove)

end
