(* ===== verification/Ir.thy ===== *)
theory Ir
  imports Json
begin

text \<open>
  The internal representation of \<open>src/protocol/ir.rs\<close> that all four protocols are
  converted to and from, and the conversion context and errors of \<open>src/protocol/mod.rs\<close>.
  Every record and constructor has the fields of the Rust type, with a prefix that keeps the
  field names apart. The prose of error messages and of degradation reasons (Chinese in
  the code; it only goes to logs and error texts) is rendered in English.
\<close>

section \<open>Protocols\<close>

datatype protocol = OpenaiChat | OpenaiResponses | Anthropic | Gemini

fun protocol_as_str :: "protocol \<Rightarrow> string" where
  "protocol_as_str OpenaiChat = ''openai_chat''"
| "protocol_as_str OpenaiResponses = ''openai_responses''"
| "protocol_as_str Anthropic = ''anthropic''"
| "protocol_as_str Gemini = ''gemini''"

definition protocol_from_str :: "string \<Rightarrow> string + protocol" where
  "protocol_from_str s =
     (if s = ''openai_chat'' \<or> s = ''openai'' then Inr OpenaiChat
      else if s = ''openai_responses'' \<or> s = ''responses'' then Inr OpenaiResponses
      else if s = ''anthropic'' then Inr Anthropic
      else if s = ''gemini'' then Inr Gemini
      else Inl (''unknown protocol: '' @ s))"

section \<open>Requests\<close>

datatype ir_role = RoleSystem | RoleUser | RoleAssistant | RoleTool

datatype ir_part =
  PartText string
| PartImageUrl string
| PartImageInline string string \<comment> \<open>media type, data\<close>
| PartInputAudio string string \<comment> \<open>data, format\<close>
| PartFile string "string option" "string option" \<comment> \<open>name, url, data\<close>

datatype ir_content = ContentText string | ContentParts "ir_part list"

record ir_tool_call =
  tc_id :: string
  tc_name :: string
  tc_arguments :: string

record ir_tool =
  tool_name :: string
  tool_description :: "string option"
  tool_parameters :: json

record ir_message =
  msg_role :: ir_role
  msg_content :: "ir_content option"
  msg_name :: "string option"
  msg_tool_calls :: "ir_tool_call list"
  msg_tool_call_id :: "string option"
  msg_reasoning_content :: "string option"

record ir_ext =
  ext_thinking :: "json option"
  ext_web_search :: "json option"
  ext_cache_control :: "json option"
  ext_top_k :: "u32 option"
  ext_service_tier :: "string option"
  ext_extra :: jmap

definition ext_is_empty :: "ir_ext \<Rightarrow> bool" where
  "ext_is_empty e \<longleftrightarrow>
     ext_thinking e = None \<and> ext_web_search e = None \<and> ext_cache_control e = None \<and>
     ext_top_k e = None \<and> ext_service_tier e = None \<and> ext_extra e = []"

datatype max_tokens_field = MaxTokens | MaxCompletionTokens

record ir_request =
  req_model :: string
  req_messages :: "ir_message list"
  req_tools :: "ir_tool list"
  req_tool_choice :: "json option"
  req_temperature :: "f64 option"
  req_top_p :: "f64 option"
  req_max_tokens :: "u64 option"
  req_max_tokens_field :: "max_tokens_field option"
  req_stop :: "string list option"
  req_stream :: bool
  req_stream_include_usage :: bool
  req_response_format :: "json option"
  req_seed :: "i64 option"
  req_user :: "string option"
  req_n :: "u32 option"
  req_ext :: ir_ext
  req_extra :: jmap

section \<open>Responses and stream chunks\<close>

record ir_usage =
  us_prompt_tokens :: u64
  us_completion_tokens :: u64
  us_cache_read_tokens :: "u64 option"
  us_cache_write_tokens :: "u64 option"
  us_total_tokens :: "u64 option"
  us_extra :: jmap

record ir_choice =
  cho_index :: u32
  cho_message :: ir_message
  cho_finish_reason :: "string option"

record ir_response =
  rsp_id :: string
  rsp_model :: string
  rsp_created :: i64
  rsp_choices :: "ir_choice list"
  rsp_usage :: "ir_usage option"
  rsp_system_fingerprint :: "string option"
  rsp_extra :: jmap

record ir_tool_call_delta =
  tcd_index :: u32
  tcd_id :: "string option"
  tcd_name :: "string option"
  tcd_arguments :: "string option"

record ir_delta =
  dl_role :: "ir_role option"
  dl_content :: "string option"
  dl_reasoning_content :: "string option"
  dl_tool_calls :: "ir_tool_call_delta list"

record ir_chunk_choice =
  cc_index :: u32
  cc_delta :: ir_delta
  cc_finish_reason :: "string option"

record ir_chunk =
  chk_id :: string
  chk_model :: string
  chk_created :: i64
  chk_choices :: "ir_chunk_choice list"
  chk_usage :: "ir_usage option"
  chk_extra :: jmap

text \<open>The derived \<open>Default\<close> values.\<close>

definition default_message :: ir_message where
  "default_message =
     \<lparr>msg_role = RoleUser, msg_content = None, msg_name = None, msg_tool_calls = [],
      msg_tool_call_id = None, msg_reasoning_content = None\<rparr>"

definition default_ext :: ir_ext where
  "default_ext =
     \<lparr>ext_thinking = None, ext_web_search = None, ext_cache_control = None, ext_top_k = None,
      ext_service_tier = None, ext_extra = []\<rparr>"

definition default_request :: ir_request where
  "default_request =
     \<lparr>req_model = [], req_messages = [], req_tools = [], req_tool_choice = None,
      req_temperature = None, req_top_p = None, req_max_tokens = None,
      req_max_tokens_field = None, req_stop = None, req_stream = False,
      req_stream_include_usage = False, req_response_format = None, req_seed = None,
      req_user = None, req_n = None, req_ext = default_ext, req_extra = []\<rparr>"

definition default_usage :: ir_usage where
  "default_usage =
     \<lparr>us_prompt_tokens = 0, us_completion_tokens = 0, us_cache_read_tokens = None,
      us_cache_write_tokens = None, us_total_tokens = None, us_extra = []\<rparr>"

definition default_response :: ir_response where
  "default_response =
     \<lparr>rsp_id = [], rsp_model = [], rsp_created = 0, rsp_choices = [], rsp_usage = None,
      rsp_system_fingerprint = None, rsp_extra = []\<rparr>"

definition default_delta :: ir_delta where
  "default_delta =
     \<lparr>dl_role = None, dl_content = None, dl_reasoning_content = None, dl_tool_calls = []\<rparr>"

definition default_chunk :: ir_chunk where
  "default_chunk =
     \<lparr>chk_id = [], chk_model = [], chk_created = 0, chk_choices = [], chk_usage = None,
      chk_extra = []\<rparr>"

section \<open>The shared vocabulary of finish reasons\<close>

definition normalize_finish_reason :: "string \<Rightarrow> string" where
  "normalize_finish_reason raw =
     (let s = to_ascii_lowercase raw
      in if s \<in> {''stop'', ''end_turn'', ''stop_sequence'', ''completed'', ''finished''} then ''stop''
         else if s \<in> {''length'', ''max_tokens'', ''max_output_tokens'', ''incomplete''} then ''length''
         else if s \<in> {''tool_calls'', ''tool_use'', ''function_call''} then ''tool_calls''
         else if s \<in> {''content_filter'', ''safety'', ''blocked'', ''recitation''}
              then ''content_filter''
         else s)"

section \<open>Conversion errors and the degradation log\<close>

datatype convert_error = ParseError string | UnsupportedError string

record degraded_item =
  deg_field :: string
  deg_reason :: string

type_synonym conv_ctx = "degraded_item list"

definition degrade :: "string \<Rightarrow> string \<Rightarrow> conv_ctx \<Rightarrow> conv_ctx" where
  "degrade field reason ctx = ctx @ [\<lparr>deg_field = field, deg_reason = reason\<rparr>]"

definition degraded_header :: "conv_ctx \<Rightarrow> string option" where
  "degraded_header ctx = (if ctx = [] then None else Some (join_with '','' (map deg_field ctx)))"

section \<open>Facts\<close>

lemma protocol_roundtrip: "protocol_from_str (protocol_as_str p) = Inr p"
  by (cases p) (simp_all add: protocol_from_str_def)

text \<open>The normalised words are fixed points, so normalising twice changes nothing.\<close>

lemma ascii_lower_idem: "ascii_lower (ascii_lower c) = ascii_lower c"
proof (cases "65 \<le> (of_char c :: nat) \<and> (of_char c :: nat) \<le> 90")
  case True
  then have "of_char (char_of (of_char c + 32 :: nat)) = (of_char c + 32 :: nat)"
    by (simp add: of_char_of)
  with True show ?thesis by (simp add: ascii_lower_def Let_def)
next
  case False
  then show ?thesis by (auto simp: ascii_lower_def Let_def)
qed

lemma to_ascii_lowercase_idem [simp]:
  "to_ascii_lowercase (to_ascii_lowercase s) = to_ascii_lowercase s"
  by (simp add: to_ascii_lowercase_def ascii_lower_idem)

lemma normalize_words:
  "to_ascii_lowercase ''stop'' = ''stop''"
  "to_ascii_lowercase ''length'' = ''length''"
  "to_ascii_lowercase ''tool_calls'' = ''tool_calls''"
  "to_ascii_lowercase ''content_filter'' = ''content_filter''"
  by (simp_all add: to_ascii_lowercase_def ascii_lower_def)

lemma normalize_finish_reason_idem:
  "normalize_finish_reason (normalize_finish_reason r) = normalize_finish_reason r"
  by (simp add: normalize_finish_reason_def Let_def normalize_words)

end
