(* ===== verification/Entities.thy ===== *)
theory Entities
  imports Ir
begin

text \<open>
  The rows of \<open>src/entities.rs\<close> that routing, limiting and billing read, and their accessors.
  A \<open>Uuid\<close> is its 128-bit value (its order is the numeric one), an \<open>i32\<close> column is an \<open>int\<close>
  (only compared, or converted as the code says), a \<open>Decimal\<close> is a type variable: its
  arithmetic is the library's.
\<close>

type_synonym uuid = "128 word"

record 'd api_key_row =
  key_id :: uuid
  key_name :: string
  key_hash :: string
  key_prefix :: string
  key_enabled :: bool
  key_models :: "string list option"
  key_rpm :: "int option"
  key_tpm :: "int option"
  key_quota_limit :: "'d option"
  key_quota_unit :: "string option"
  key_quota_window :: "string option"
  key_allow_upstream_passthrough :: bool
  key_passthrough_upstreams :: "string list option"
  key_debug_enabled :: bool
  key_debug_expires_at :: "instant option"
  key_expires_at :: "instant option"
  key_created_at :: instant
  key_last_used_at :: "instant option"

definition is_usable :: "instant \<Rightarrow> 'd api_key_row \<Rightarrow> bool" where
  "is_usable now k \<longleftrightarrow>
     key_enabled k \<and> (case key_expires_at k of None \<Rightarrow> True | Some e \<Rightarrow> now < e)"

definition debug_active :: "instant \<Rightarrow> 'd api_key_row \<Rightarrow> bool" where
  "debug_active now k \<longleftrightarrow>
     key_debug_enabled k \<and> (case key_debug_expires_at k of None \<Rightarrow> False | Some e \<Rightarrow> now < e)"

record codex_oauth =
  co_access_token :: string
  co_refresh_token :: string
  co_expires_at :: i64
  co_account_id :: string

record upstream_row =
  up_id :: uuid
  up_name :: string
  up_kind :: string
  up_base_url :: string
  up_api_key_plain :: "string option"
  up_oauth_plain :: "codex_oauth option"
  up_balance_key_plain :: "string option"
  up_protocols :: "string list"
  up_enabled :: bool
  up_timeout_ms :: int
  up_breaker_threshold :: int
  up_probe_model :: "string option"
  up_consecutive_failures :: int
  up_disabled_by :: "string option"
  up_cooldown_until :: "instant option"
  up_use_proxy :: bool
  up_proxy_id :: "uuid option"
  up_extra :: json
  up_model_sync :: string
  up_model_exclude :: "string list"
  up_models_cache :: json
  up_models_fetched_at :: "instant option"
  up_created_at :: instant
  up_updated_at :: instant

definition protocol_list :: "upstream_row \<Rightarrow> protocol list" where
  "protocol_list up =
     List.map_filter
       (\<lambda>s. case protocol_from_str s of Inl e \<Rightarrow> None | Inr p \<Rightarrow> Some p) (up_protocols up)"

definition protocol_priority :: "upstream_row \<Rightarrow> protocol list" where
  "protocol_priority up =
     (let custom =
        (case Option.bind (jget ''protocol_priority'' (up_extra up)) as_array of
           None \<Rightarrow> []
         | Some arr \<Rightarrow>
             List.map_filter
               (\<lambda>s. case protocol_from_str s of Inl e \<Rightarrow> None | Inr p \<Rightarrow> Some p)
               (List.map_filter as_str arr))
      in if custom = [] then [OpenaiChat, Anthropic, Gemini, OpenaiResponses] else custom)"

record capabilities =
  cap_stream :: "bool option"
  cap_tools :: "bool option"
  cap_vision :: "bool option"
  cap_max_context :: "u64 option"

definition upstream_capabilities :: "upstream_row \<Rightarrow> capabilities" where
  "upstream_capabilities up =
     (let c = jidx (up_extra up) ''capabilities''
      in \<lparr>cap_stream = as_bool (jidx c ''stream''), cap_tools = as_bool (jidx c ''tools''),
          cap_vision = as_bool (jidx c ''vision''),
          cap_max_context = as_u64 (jidx c ''max_context'')\<rparr>)"

record required_caps =
  need_stream :: bool
  need_tools :: bool
  need_vision :: bool

definition caps_missing :: "capabilities \<Rightarrow> required_caps \<Rightarrow> string list" where
  "caps_missing c r =
     (if need_stream r \<and> cap_stream c = Some False then [''stream''] else []) @
     (if need_tools r \<and> cap_tools c = Some False then [''tools''] else []) @
     (if need_vision r \<and> cap_vision c = Some False then [''vision''] else [])"

definition auto_disable_allowed_in :: "json \<Rightarrow> bool" where
  "auto_disable_allowed_in extra \<longleftrightarrow>
     Option.bind (jget ''auto_disable'' extra) as_bool \<noteq> Some False"

definition auto_disable_allowed :: "upstream_row \<Rightarrow> bool" where
  "auto_disable_allowed up = auto_disable_allowed_in (up_extra up)"

text \<open>\<open>AppState::auto_disable_active\<close>: the global switch and the channel's.\<close>

definition auto_disable_active :: "bool \<Rightarrow> upstream_row \<Rightarrow> bool" where
  "auto_disable_active auto_disable_upstreams up \<longleftrightarrow>
     auto_disable_upstreams \<and> auto_disable_allowed up"

record model_route_row =
  rt_id :: uuid
  rt_model_pattern :: string
  rt_upstream_id :: uuid
  rt_override_model :: "string option"
  rt_priority :: int
  rt_weight :: int
  rt_enabled :: bool
  rt_retries :: int
  rt_retry_status_codes :: "int list"
  rt_lock_upstream :: bool
  rt_sort_order :: int
  rt_managed_by :: "string option"
  rt_created_at :: instant
  rt_updated_at :: instant

text \<open>The API errors of \<open>src/error.rs\<close>, and their HTTP status.\<close>

datatype api_error =
  Unauthorized | Forbidden | NotFound | BadRequest string | Conflict string | RateLimited
| TotpRequired | TotpInvalid | BadGateway string | Internal string

fun api_error_status :: "api_error \<Rightarrow> nat" where
  "api_error_status Unauthorized = 401"
| "api_error_status Forbidden = 403"
| "api_error_status NotFound = 404"
| "api_error_status (BadRequest _) = 400"
| "api_error_status (Conflict _) = 409"
| "api_error_status RateLimited = 429"
| "api_error_status TotpRequired = 401"
| "api_error_status TotpInvalid = 401"
| "api_error_status (BadGateway _) = 502"
| "api_error_status (Internal _) = 500"

definition error_body :: "string \<Rightarrow> string option \<Rightarrow> string \<Rightarrow> json" where
  "error_body message code request_id =
     json_obj
       [(''error'',
         json_obj
           [(''message'', JStr message), (''type'', JStr ''nextapi_error''),
            (''code'', case code of None \<Rightarrow> JNull | Some c \<Rightarrow> JStr c)])]"

end
