(* ===== verification/Glob.thy ===== *)
theory Glob
  imports Entities
begin

text \<open>
  The wildcard matcher \<open>pattern_matches\<close> of \<open>src/routing/mod.rs\<close>: a greedy loop over two
  indices with one backtrack point, against the declarative reading of a pattern. The loop is
  total, and it decides exactly the declarative relation.
\<close>

section \<open>The loop\<close>

text \<open>
  \<open>p\<close> and \<open>t\<close> are the positions in the pattern and in the text, \<open>star\<close> the position of the
  last star met, \<open>sm\<close> the position in the text up to which that star has eaten. \<open>None\<close> is the
  \<open>return false\<close> in the loop; \<open>Some p\<close> is the pattern position when the text is consumed.
\<close>

function glob_loop ::
  "'a \<Rightarrow> 'a list \<Rightarrow> 'a list \<Rightarrow> nat \<Rightarrow> nat \<Rightarrow> nat option \<Rightarrow> nat \<Rightarrow> nat option" where
  "glob_loop st pat txt p t star sm =
     (if t < length txt then
        (if p < length pat \<and> pat ! p = st then glob_loop st pat txt (p + 1) t (Some p) t
         else if p < length pat \<and> pat ! p = txt ! t then glob_loop st pat txt (p + 1) (t + 1) star sm
         else (case star of
                 Some sp \<Rightarrow> glob_loop st pat txt (sp + 1) (sm + 1) star (sm + 1)
               | None \<Rightarrow> None))
      else Some p)"
  by pat_completeness auto

text \<open>
  Termination: once the backtrack point lies before both positions, each star moves it
  forward, each backtrack moves the star's end forward, and each match the text position.
\<close>

definition star_behind :: "nat option \<Rightarrow> nat \<Rightarrow> nat \<Rightarrow> nat \<Rightarrow> bool" where
  "star_behind star sm p t \<longleftrightarrow> (case star of None \<Rightarrow> True | Some sp \<Rightarrow> sp < p \<and> sm \<le> t)"

termination glob_loop
  by (relation "measures
        [\<lambda>(st, pat, txt, p, t, star, sm). if star_behind star sm p t then 0 else 1,
         \<lambda>(st, pat, txt, p, t, star, sm).
            case star of None \<Rightarrow> Suc (length pat) | Some sp \<Rightarrow> length pat - sp,
         \<lambda>(st, pat, txt, p, t, star, sm).
            case star of None \<Rightarrow> 0 | Some sp \<Rightarrow> length txt - sm,
         \<lambda>(st, pat, txt, p, t, star, sm). length txt - t]")
    (auto simp: star_behind_def split: option.splits)

declare glob_loop.simps [simp del]

definition glob :: "'a \<Rightarrow> 'a list \<Rightarrow> 'a list \<Rightarrow> bool" where
  "glob st pat txt =
     (case glob_loop st pat txt 0 0 None 0 of
        None \<Rightarrow> False
      | Some p \<Rightarrow> dropWhile (\<lambda>c. c = st) (drop p pat) = [])"

definition pattern_matches :: "string \<Rightarrow> string \<Rightarrow> bool" where
  "pattern_matches pattern model = glob ''*'' (chars pattern) (chars model)"

section \<open>What a pattern means\<close>

text \<open>
  A star stands for any text, every other character for itself.
\<close>

inductive glob_rel :: "'a \<Rightarrow> 'a list \<Rightarrow> 'a list \<Rightarrow> bool" for st :: 'a where
  empty: "glob_rel st [] []"
| literal: "c \<noteq> st \<Longrightarrow> glob_rel st ps ts \<Longrightarrow> glob_rel st (c # ps) (c # ts)"
| star: "glob_rel st ps ts \<Longrightarrow> glob_rel st (st # ps) (us @ ts)"

inductive_simps glob_rel_Nil: "glob_rel st [] ts"
inductive_simps glob_rel_Cons: "glob_rel st (c # ps) ts"

lemma glob_rel_literal: "c \<noteq> st \<Longrightarrow> glob_rel st (c # ps) (d # ts) \<longleftrightarrow> c = d \<and> glob_rel st ps ts"
  by (auto simp: glob_rel_Cons)

lemma glob_rel_literal_Nil: "c \<noteq> st \<Longrightarrow> \<not> glob_rel st (c # ps) []"
  by (auto simp: glob_rel_Cons)

lemma glob_rel_star:
  "glob_rel st (st # ps) ts \<longleftrightarrow> (\<exists>k \<le> length ts. glob_rel st ps (drop k ts))"
proof
  assume "glob_rel st (st # ps) ts"
  then obtain us vs where "ts = us @ vs" "glob_rel st ps vs" by (auto simp: glob_rel_Cons)
  then show "\<exists>k \<le> length ts. glob_rel st ps (drop k ts)" by (intro exI [of _ "length us"]) simp
next
  assume "\<exists>k \<le> length ts. glob_rel st ps (drop k ts)"
  then obtain k where "glob_rel st ps (drop k ts)" by blast
  then have "glob_rel st (st # ps) (take k ts @ drop k ts)" by (rule glob_rel.star)
  then show "glob_rel st (st # ps) ts" by simp
qed

text \<open>A stretch without stars matches exactly itself.\<close>

lemma glob_rel_segment:
  "st \<notin> set seg \<Longrightarrow>
   glob_rel st (seg @ ps) ts \<longleftrightarrow> (\<exists>us. ts = seg @ us \<and> glob_rel st ps us)"
proof (induction seg arbitrary: ts)
  case (Cons c seg)
  then show ?case by (cases ts) (auto simp: glob_rel_literal glob_rel_literal_Nil)
qed simp

lemma glob_rel_empty_text: "glob_rel st ps [] \<longleftrightarrow> dropWhile (\<lambda>c. c = st) ps = []"
proof (induction ps)
  case Nil
  then show ?case by (simp add: glob_rel.empty)
next
  case (Cons c ps)
  then show ?case by (cases "c = st") (simp_all add: glob_rel_star glob_rel_literal_Nil)
qed

section \<open>The loop decides the meaning\<close>

text \<open>
  Before the first star the question is the rest of the pattern on the rest of the text. After
  a star it is the pattern behind the last star on some suffix of the text from \<open>sm\<close> on; the
  stretch between the star and the current position is literal and has been matched.
\<close>

definition from_star :: "'a \<Rightarrow> 'a list \<Rightarrow> 'a list \<Rightarrow> nat \<Rightarrow> nat \<Rightarrow> bool" where
  "from_star st pat txt sp sm \<longleftrightarrow>
     (\<exists>k. sm \<le> k \<and> k \<le> length txt \<and> glob_rel st (drop (Suc sp) pat) (drop k txt))"

definition glob_inv :: "'a \<Rightarrow> 'a list \<Rightarrow> 'a list \<Rightarrow> nat \<Rightarrow> nat \<Rightarrow> nat option \<Rightarrow> nat \<Rightarrow> bool" where
  "glob_inv st pat txt p t star sm \<longleftrightarrow>
     t \<le> length txt \<and>
     (case star of
        None \<Rightarrow> glob_rel st pat txt = glob_rel st (drop p pat) (drop t txt)
      | Some sp \<Rightarrow>
          glob_rel st pat txt = from_star st pat txt sp sm \<and> sm \<le> t \<and>
          (\<exists>seg. st \<notin> set seg \<and> t = sm + length seg \<and>
             drop (Suc sp) pat = seg @ drop p pat \<and> drop sm txt = seg @ drop t txt))"

lemma from_star_new:
  assumes "t \<le> length txt" and "drop p pat = st # drop (Suc p) pat"
  shows "glob_rel st (drop p pat) (drop t txt) = from_star st pat txt p t"
proof
  assume "glob_rel st (drop p pat) (drop t txt)"
  with assms obtain j where "j \<le> length (drop t txt)" "glob_rel st (drop (Suc p) pat) (drop j (drop t txt))"
    by (auto simp: glob_rel_star)
  then show "from_star st pat txt p t" using assms(1)
    by (auto simp: from_star_def add.commute intro!: exI [of _ "t + j"])
next
  assume "from_star st pat txt p t"
  then obtain k where "t \<le> k" "k \<le> length txt" "glob_rel st (drop (Suc p) pat) (drop k txt)"
    by (auto simp: from_star_def)
  then have "k - t \<le> length (drop t txt) \<and> glob_rel st (drop (Suc p) pat) (drop (k - t) (drop t txt))"
    by simp
  then show "glob_rel st (drop p pat) (drop t txt)" using assms(2) by (auto simp: glob_rel_star)
qed

text \<open>Where the rest fails at the current position, the star has to eat one more character.\<close>

lemma from_star_step:
  assumes "drop (Suc sp) pat = seg @ drop p pat" "drop sm txt = seg @ drop t txt"
    and "st \<notin> set seg" and "sm < length txt"
  shows "from_star st pat txt sp sm \<longleftrightarrow>
    glob_rel st (drop p pat) (drop t txt) \<or> from_star st pat txt sp (Suc sm)"
proof -
  have "glob_rel st (drop (Suc sp) pat) (drop sm txt) = glob_rel st (drop p pat) (drop t txt)"
    using assms by (simp add: glob_rel_segment)
  moreover have "from_star st pat txt sp sm \<longleftrightarrow>
      glob_rel st (drop (Suc sp) pat) (drop sm txt) \<or> from_star st pat txt sp (Suc sm)"
  proof
    assume "from_star st pat txt sp sm"
    then obtain k where k: "sm \<le> k" "k \<le> length txt" "glob_rel st (drop (Suc sp) pat) (drop k txt)"
      by (auto simp: from_star_def)
    then show "glob_rel st (drop (Suc sp) pat) (drop sm txt) \<or> from_star st pat txt sp (Suc sm)"
      by (cases "k = sm") (auto simp: from_star_def)
  next
    assume "glob_rel st (drop (Suc sp) pat) (drop sm txt) \<or> from_star st pat txt sp (Suc sm)"
    then show "from_star st pat txt sp sm"
      using assms(4) by (auto simp: from_star_def intro: Suc_leD)
  qed
  ultimately show ?thesis by simp
qed

lemma from_star_next:
  assumes "drop (Suc sp) pat = seg @ drop p pat" "drop sm txt = seg @ drop t txt"
    and "st \<notin> set seg" and "t = sm + length seg" and "t \<le> length txt"
    and "drop p pat = st # drop (Suc p) pat"
  shows "from_star st pat txt sp sm = from_star st pat txt p t"
proof
  assume "from_star st pat txt sp sm"
  then obtain k where k: "sm \<le> k" "k \<le> length txt" "glob_rel st (drop (Suc sp) pat) (drop k txt)"
    by (auto simp: from_star_def)
  then obtain us where us: "drop k txt = seg @ us" "glob_rel st (drop p pat) us"
    using assms(1,3) by (auto simp: glob_rel_segment)
  then obtain j where j: "j \<le> length us" "glob_rel st (drop (Suc p) pat) (drop j us)"
    using assms(6) by (auto simp: glob_rel_star)
  have "drop j us = drop (k + length seg + j) txt"
    using us(1) by (metis append_eq_conv_conj drop_drop add.commute add.left_commute)
  moreover have "k + length seg + j \<le> length txt"
    using us(1) j(1) k(2) by (metis add.assoc add_le_mono1 add_left_mono length_append length_drop
        le_add_diff_inverse)
  ultimately show "from_star st pat txt p t" using j(2) k(1) assms(4)
    by (auto simp: from_star_def intro!: exI [of _ "k + length seg + j"])
next
  assume "from_star st pat txt p t"
  then have "glob_rel st (drop p pat) (drop t txt)" by (simp add: from_star_new [OF assms(5,6)])
  then have "glob_rel st (drop (Suc sp) pat) (drop sm txt)"
    using assms(1-3) by (simp add: glob_rel_segment)
  then show "from_star st pat txt sp sm" using assms(4,5) by (auto simp: from_star_def)
qed

lemma glob_inv_star:
  assumes "glob_inv st pat txt p t star sm" and "t < length txt" and "p < length pat" "pat ! p = st"
  shows "glob_inv st pat txt (p + 1) t (Some p) t"
proof -
  have d: "drop p pat = st # drop (Suc p) pat" using assms(3,4) by (metis Cons_nth_drop_Suc)
  have "glob_rel st pat txt = from_star st pat txt p t"
    using assms(1,2) from_star_new [OF _ d, of t] from_star_next [OF _ _ _ _ _ d]
    by (auto simp: glob_inv_def split: option.splits)
  then show ?thesis using assms(2) by (auto simp: glob_inv_def)
qed

lemma glob_inv_literal:
  assumes "glob_inv st pat txt p t star sm" and "t < length txt"
    and "p < length pat" "pat ! p \<noteq> st" "pat ! p = txt ! t"
  shows "glob_inv st pat txt (p + 1) (t + 1) star sm"
proof -
  have d: "drop p pat = pat ! p # drop (Suc p) pat" "drop t txt = pat ! p # drop (Suc t) txt"
    using assms(2,3,5) by (metis Cons_nth_drop_Suc)+
  show ?thesis
  proof (cases star)
    case None
    then show ?thesis using assms d by (simp add: glob_inv_def glob_rel_literal)
  next
    case (Some sp)
    with assms(1) obtain seg where seg: "st \<notin> set seg" "t = sm + length seg"
      "drop (Suc sp) pat = seg @ drop p pat" "drop sm txt = seg @ drop t txt"
      by (auto simp: glob_inv_def)
    have "\<exists>seg'. st \<notin> set seg' \<and> t + 1 = sm + length seg' \<and>
        drop (Suc sp) pat = seg' @ drop (p + 1) pat \<and> drop sm txt = seg' @ drop (t + 1) txt"
      by (rule exI [of _ "seg @ [pat ! p]"]) (use seg d assms(4) in auto)
    then show ?thesis using assms(1,2) Some by (auto simp: glob_inv_def)
  qed
qed

lemma glob_inv_mismatch:
  assumes "t < length txt" and "\<not> (p < length pat \<and> pat ! p = st)"
    and "\<not> (p < length pat \<and> pat ! p = txt ! t)"
  shows "\<not> glob_rel st (drop p pat) (drop t txt)"
proof -
  have "drop t txt = txt ! t # drop (Suc t) txt" using assms(1) by (metis Cons_nth_drop_Suc)
  moreover have "p < length pat \<Longrightarrow> drop p pat = pat ! p # drop (Suc p) pat"
    by (metis Cons_nth_drop_Suc)
  ultimately show ?thesis using assms by (cases "p < length pat") (auto simp: glob_rel_literal glob_rel_Nil)
qed

lemma glob_inv_backtrack:
  assumes "glob_inv st pat txt p t (Some sp) sm" and "t < length txt"
    and "\<not> glob_rel st (drop p pat) (drop t txt)"
  shows "glob_inv st pat txt (sp + 1) (sm + 1) (Some sp) (sm + 1)"
proof -
  from assms(1) obtain seg where seg: "st \<notin> set seg" "drop (Suc sp) pat = seg @ drop p pat"
    "drop sm txt = seg @ drop t txt" "sm \<le> t" by (auto simp: glob_inv_def)
  then have "glob_rel st pat txt = from_star st pat txt sp (Suc sm)"
    using assms from_star_step [OF seg(2,3,1)] by (auto simp: glob_inv_def)
  then show ?thesis using seg(4) assms(2) by (auto simp: glob_inv_def)
qed

lemma glob_inv_end:
  assumes "glob_inv st pat txt p t star sm" and "\<not> t < length txt"
  shows "glob_rel st pat txt = (dropWhile (\<lambda>c. c = st) (drop p pat) = [])"
proof (cases star)
  case None
  then show ?thesis using assms by (simp add: glob_inv_def glob_rel_empty_text)
next
  case (Some sp)
  with assms obtain seg where seg: "st \<notin> set seg" "t = sm + length seg" "t = length txt"
    "drop (Suc sp) pat = seg @ drop p pat" "drop sm txt = seg"
    by (auto simp: glob_inv_def)
  have "from_star st pat txt sp sm = glob_rel st (drop p pat) []"
  proof
    assume "from_star st pat txt sp sm"
    then obtain k us where k: "sm \<le> k" "k \<le> length txt" "drop k txt = seg @ us" "glob_rel st (drop p pat) us"
      using seg by (auto simp: from_star_def glob_rel_segment)
    then have "length txt - k = length seg + length us" by (metis length_append length_drop)
    then have "length us = 0" using seg(2,3) k(1,2) by linarith
    then show "glob_rel st (drop p pat) []" using k(4) by simp
  next
    assume "glob_rel st (drop p pat) []"
    then have "glob_rel st (drop (Suc sp) pat) (drop sm txt)"
      using seg by (simp add: glob_rel_segment)
    then show "from_star st pat txt sp sm" using seg(2,3) by (auto simp: from_star_def)
  qed
  then show ?thesis using assms Some by (simp add: glob_inv_def glob_rel_empty_text)
qed

lemma glob_loop_correct:
  "glob_inv st pat txt p t star sm \<Longrightarrow>
   (case glob_loop st pat txt p t star sm of
      None \<Rightarrow> False | Some q \<Rightarrow> dropWhile (\<lambda>c. c = st) (drop q pat) = []) = glob_rel st pat txt"
proof (induction st pat "txt" p t star sm rule: glob_loop.induct)
  case (1 st pat tx p t star sm)
  note loop = glob_loop.simps [of st pat tx p t star sm]
  consider (stop) "\<not> t < length tx"
    | (star) "t < length tx" "p < length pat" "pat ! p = st"
    | (lit) "t < length tx" "p < length pat" "pat ! p \<noteq> st" "pat ! p = tx ! t"
    | (bad) "t < length tx" "\<not> (p < length pat \<and> pat ! p = st)" "\<not> (p < length pat \<and> pat ! p = tx ! t)"
    by blast
  then show ?case
  proof cases
    case stop
    then show ?thesis using glob_inv_end [OF "1.prems"] by (simp add: loop)
  next
    case star
    then show ?thesis using "1.IH"(1) glob_inv_star [OF "1.prems"] by (simp add: loop)
  next
    case lit
    then show ?thesis using "1.IH"(2) glob_inv_literal [OF "1.prems"] by (simp add: loop)
  next
    case bad
    note fail = glob_inv_mismatch [OF bad]
    show ?thesis
    proof (cases star)
      case None
      then have "glob_loop st pat tx p t star sm = None" unfolding loop using bad by auto
      then show ?thesis using None fail "1.prems" by (simp add: glob_inv_def)
    next
      case (Some sp)
      have "glob_loop st pat tx p t star sm = glob_loop st pat tx (sp + 1) (sm + 1) star (sm + 1)"
        unfolding loop using bad Some by auto
      then show ?thesis
        using "1.IH"(3) [OF bad Some] glob_inv_backtrack [OF "1.prems" [unfolded Some] bad(1) fail] Some
        by simp
    qed
  qed
qed

lemma glob_decides: "glob st pat txt \<longleftrightarrow> glob_rel st pat txt"
  using glob_loop_correct [of st pat "txt" 0 0 None 0]
  by (auto simp: glob_def glob_inv_def split: option.splits)

end
