(* ===== verification/Routing.thy ===== *)
theory Routing
  imports Glob "HOL-Library.Product_Lexorder"
begin

text \<open>
  Route selection of \<open>src/routing/mod.rs\<close>: \<open>match_routes\<close> and \<open>weighted_pick\<close>, and the model
  white list of a key (\<open>ApiKeyRow::model_allowed\<close>), which uses the same matcher. The random
  number of \<open>weighted_pick\<close> comes from a library and is an argument, below the total weight.
\<close>

definition model_allowed :: "'d api_key_row \<Rightarrow> string \<Rightarrow> bool" where
  "model_allowed key model =
     (case key_models key of
        None \<Rightarrow> True
      | Some ps \<Rightarrow> if ps = [] then True else list_ex (\<lambda>p. pattern_matches p model) ps)"

definition route_key :: "model_route_row \<Rightarrow> int \<times> int" where
  "route_key r = (rt_priority r, rt_sort_order r)"

definition match_routes :: "string \<Rightarrow> model_route_row list \<Rightarrow> model_route_row list" where
  "match_routes model routes =
     sort_key route_key
       (filter (\<lambda>r. rt_enabled r \<and> pattern_matches (rt_model_pattern r) model) routes)"

definition weight_of :: "model_route_row \<Rightarrow> nat" where
  "weight_of r = (if rt_weight r \<le> 0 then 1 else nat (rt_weight r))"

definition total_weight :: "model_route_row list \<Rightarrow> nat" where
  "total_weight routes = sum_list (map weight_of routes)"

fun pick_loop :: "model_route_row list \<Rightarrow> nat \<Rightarrow> model_route_row option" where
  "pick_loop [] draw = None"
| "pick_loop (r # rs) draw =
     (if draw < weight_of r then Some r else pick_loop rs (draw - weight_of r))"

definition weighted_pick :: "model_route_row list \<Rightarrow> nat \<Rightarrow> model_route_row option" where
  "weighted_pick routes draw =
     (if routes = [] then None
      else (case pick_loop routes draw of Some r \<Rightarrow> Some r | None \<Rightarrow> Some (last routes)))"

section \<open>Selection\<close>

lemma model_allowed_iff:
  "model_allowed key model \<longleftrightarrow>
     (\<forall>ps. key_models key = Some ps \<longrightarrow> ps \<noteq> [] \<longrightarrow> (\<exists>p \<in> set ps. pattern_matches p model))"
  by (auto simp: model_allowed_def list_ex_iff split: option.splits)

lemma set_match_routes:
  "set (match_routes model routes) =
     {r \<in> set routes. rt_enabled r \<and> pattern_matches (rt_model_pattern r) model}"
  by (auto simp: match_routes_def)

lemma sorted_match_routes: "sorted (map route_key (match_routes model routes))"
  by (simp add: match_routes_def)

lemma match_routes_stable:
  "filter (\<lambda>r. route_key r = k) (match_routes model routes) =
     filter (\<lambda>r. route_key r = k \<and> rt_enabled r \<and> pattern_matches (rt_model_pattern r) model) routes"
  by (simp add: match_routes_def sort_key_stable conj_commute conj_left_commute)

section \<open>Weights\<close>

lemma weight_of_pos: "0 < weight_of r"
  by (simp add: weight_of_def)

lemma pick_loop_total: "draw < total_weight routes \<Longrightarrow> \<exists>r. pick_loop routes draw = Some r"
  by (induction routes draw rule: pick_loop.induct) (auto simp: total_weight_def)

lemma pick_loop_set: "pick_loop routes draw = Some r \<Longrightarrow> r \<in> set routes"
  by (induction routes draw rule: pick_loop.induct) (auto split: if_splits)

lemma weighted_pick_loop:
  "draw < total_weight routes \<Longrightarrow> weighted_pick routes draw = pick_loop routes draw"
  using pick_loop_total [of draw routes]
  by (cases routes) (auto simp: weighted_pick_def total_weight_def)

lemma draws_Cons:
  "{d. d < total_weight (q # rs) \<and> pick_loop (q # rs) d = Some r} =
     (if q = r then {..<weight_of q} else {}) \<union>
     (\<lambda>d. d + weight_of q) ` {d. d < total_weight rs \<and> pick_loop rs d = Some r}"
  (is "?L = ?A \<union> ?B")
proof
  show "?L \<subseteq> ?A \<union> ?B"
  proof
    fix d assume d: "d \<in> ?L"
    show "d \<in> ?A \<union> ?B"
    proof (cases "d < weight_of q")
      case True
      then show ?thesis using d by auto
    next
      case False
      then have "d = (d - weight_of q) + weight_of q" by simp
      with False d show ?thesis by (auto simp: total_weight_def intro!: image_eqI)
    qed
  qed
qed (auto simp: total_weight_def split: if_splits)

lemma card_draws:
  "card {d. d < total_weight routes \<and> pick_loop routes d = Some r} =
     sum_list (map weight_of (filter (\<lambda>q. q = r) routes))"
proof (induction routes)
  case (Cons q rs)
  let ?D = "{d. d < total_weight rs \<and> pick_loop rs d = Some r}"
  have fin: "finite ?D" by simp
  have "card ((\<lambda>d. d + weight_of q) ` ?D) = card ?D"
    by (rule card_image) (simp add: inj_on_def)
  moreover have "(if q = r then {..<weight_of q} else {}) \<inter> (\<lambda>d. d + weight_of q) ` ?D = {}"
    by auto
  ultimately have "card {d. d < total_weight (q # rs) \<and> pick_loop (q # rs) d = Some r} =
      (if q = r then weight_of q else 0) + card ?D"
    unfolding draws_Cons using fin by (subst card_Un_disjoint) simp_all
  then show ?case using Cons.IH by simp
qed (simp add: total_weight_def)

section \<open>Properties\<close>


text \<open>
  C32: the two-index loop with one backtrack point decides exactly the wildcard language: a star
  stands for any sequence of characters (code points), everything else for itself.
\<close>

theorem pattern_matches_iff:
  "pattern_matches pattern model \<longleftrightarrow> glob_rel ''*'' (chars pattern) (chars model)"
  by (simp add: pattern_matches_def glob_decides)

text \<open>
  C33: of the equally likely draws below the total weight, \<open>weighted_pick\<close> gives each route
  exactly its weight's share (a weight that is not positive counts as 1).
\<close>

theorem weighted_pick_proportional:
  "card {d. d < total_weight routes \<and> weighted_pick routes d = Some r} =
     sum_list (map weight_of (filter (\<lambda>q. q = r) routes))"
proof -
  have "{d. d < total_weight routes \<and> weighted_pick routes d = Some r} =
      {d. d < total_weight routes \<and> pick_loop routes d = Some r}"
    using weighted_pick_loop by auto
  then show ?thesis by (simp add: card_draws)
qed

end
