(* ===== verification/Breaker.thy ===== *)
theory Breaker
  imports Entities
begin

text \<open>
  The circuit breaker of \<open>src/routing/mod.rs\<close>: the pure transition \<open>next_on_failure\<close>, and the
  handlers \<open>allow\<close>, \<open>on_success\<close>, \<open>on_failure\<close> and \<open>reset\<close> over the two maps the breaker keeps
  behind its locks. A handler that writes the database returns the update it issues;
  \<open>apply_breaker_db\<close> is what the SQL statement does to the row.
\<close>

section \<open>States and the pure transition\<close>

datatype breaker_state =
  Closed u32 \<comment> \<open>failures\<close>
| Open instant u32 \<comment> \<open>until, consecutive opens\<close>
| HalfOpen u32 \<comment> \<open>consecutive opens\<close>

definition default_cooldown_secs :: int where "default_cooldown_secs = 60"
definition max_cooldown_secs :: int where "max_cooldown_secs = 30 * 60"
definition halfopen_timeout_secs :: int where "halfopen_timeout_secs = 120"

definition saturating_mul_i64 :: "int \<Rightarrow> int \<Rightarrow> int" where
  "saturating_mul_i64 a b = max (- (2 ^ 63)) (min (2 ^ 63 - 1) (a * b))"

definition cooldown_secs :: "u32 \<Rightarrow> int" where
  "cooldown_secs opens =
     min (saturating_mul_i64 default_cooldown_secs (2 ^ min (unat opens) 62)) max_cooldown_secs"

fun next_on_failure :: "breaker_state \<Rightarrow> u32 \<Rightarrow> instant \<Rightarrow> breaker_state \<times> bool" where
  "next_on_failure (Closed failures) threshold now =
     (let f = failures + 1
      in if threshold \<le> f then (Open (now + seconds (cooldown_secs 0)) 1, True)
         else (Closed f, False))"
| "next_on_failure (Open until opens) threshold now = (Open until opens, True)"
| "next_on_failure (HalfOpen opens) threshold now =
     (Open (now + seconds (cooldown_secs opens)) (opens + 1), True)"

section \<open>The handlers\<close>

record breaker =
  br_states :: "uuid \<rightharpoonup> breaker_state"
  br_halfopen_since :: "uuid \<rightharpoonup> instant"

definition breaker_new :: breaker where
  "breaker_new = \<lparr>br_states = Map.empty, br_halfopen_since = Map.empty\<rparr>"

definition reset :: "uuid \<Rightarrow> breaker \<Rightarrow> breaker" where
  "reset uid b =
     b\<lparr>br_states := (br_states b)(uid := None), br_halfopen_since := (br_halfopen_since b)(uid := None)\<rparr>"

definition db_cooling :: "instant \<Rightarrow> upstream_row \<Rightarrow> instant option" where
  "db_cooling now up =
     (if up_disabled_by up = Some ''auto''
      then (case up_cooldown_until up of
              Some until \<Rightarrow> if now < until then Some until else None
            | None \<Rightarrow> None)
      else None)"

definition allow :: "upstream_row \<Rightarrow> bool \<Rightarrow> instant \<Rightarrow> breaker \<Rightarrow> bool \<times> breaker" where
  "allow up auto_disable now b =
     (let uid = up_id up
      in if \<not> up_enabled up \<or> up_disabled_by up = Some ''manual'' then (False, b)
         else if \<not> auto_disable then (True, reset uid b)
         else (case db_cooling now up of
           Some until \<Rightarrow>
             (False,
              (case br_states b uid of
                 None \<Rightarrow>
                   b\<lparr>br_states := (br_states b)
                       (uid \<mapsto> Open until (of_int (max (up_consecutive_failures up) 1)))\<rparr>
               | Some s \<Rightarrow> b))
         | None \<Rightarrow>
             (case br_states b uid of
                None \<Rightarrow> (True, b\<lparr>br_states := (br_states b)(uid \<mapsto> Closed 0)\<rparr>)
              | Some (Closed f) \<Rightarrow> (True, b)
              | Some (Open until opens) \<Rightarrow>
                  if now < until then (False, b)
                  else (True,
                        b\<lparr>br_states := (br_states b)(uid \<mapsto> HalfOpen opens),
                          br_halfopen_since := (br_halfopen_since b)(uid \<mapsto> now)\<rparr>)
              | Some (HalfOpen opens) \<Rightarrow>
                  let stuck =
                    (case br_halfopen_since b uid of
                       None \<Rightarrow> False
                     | Some since \<Rightarrow> halfopen_timeout_secs \<le> num_seconds (now - since))
                  in if stuck
                     then (True, b\<lparr>br_halfopen_since := (br_halfopen_since b)(uid \<mapsto> now)\<rparr>)
                     else (False, b))))"

datatype breaker_db =
  DbRecover
| DbOpen instant int \<comment> \<open>until, failures\<close>
| DbFailuresOnly int

fun apply_breaker_db :: "breaker_db \<Rightarrow> upstream_row \<Rightarrow> upstream_row" where
  "apply_breaker_db DbRecover row =
     (if up_disabled_by row = Some ''auto''
      then row\<lparr>up_disabled_by := None, up_cooldown_until := None, up_consecutive_failures := 0\<rparr>
      else row)"
| "apply_breaker_db (DbOpen until failures) row =
     (if up_disabled_by row \<noteq> Some ''manual''
      then row\<lparr>up_disabled_by := Some ''auto'', up_cooldown_until := Some until,
               up_consecutive_failures := failures\<rparr>
      else row)"
| "apply_breaker_db (DbFailuresOnly failures) row =
     (if up_disabled_by row \<noteq> Some ''manual'' then row\<lparr>up_consecutive_failures := failures\<rparr> else row)"

definition on_success :: "upstream_row \<Rightarrow> breaker \<Rightarrow> breaker \<times> breaker_db option" where
  "on_success up b =
     (b\<lparr>br_states := (br_states b)(up_id up \<mapsto> Closed 0),
        br_halfopen_since := (br_halfopen_since b)(up_id up := None)\<rparr>,
      if up_disabled_by up = Some ''auto'' then Some DbRecover else None)"

definition saturating_add_i32 :: "int \<Rightarrow> int \<Rightarrow> int" where
  "saturating_add_i32 a b = max (- (2 ^ 31)) (min (2 ^ 31 - 1) (a + b))"

definition breaker_threshold :: "upstream_row \<Rightarrow> u32" where
  "breaker_threshold up = of_int (max (up_breaker_threshold up) 1)"

definition on_failure ::
  "upstream_row \<Rightarrow> bool \<Rightarrow> instant \<Rightarrow> breaker \<Rightarrow> breaker \<times> breaker_db option" where
  "on_failure up auto_disable now b =
     (if up_disabled_by up = Some ''manual'' \<or> \<not> auto_disable then (b, None)
      else
        (let uid = up_id up;
             threshold = breaker_threshold up;
             state = (case br_states b uid of None \<Rightarrow> Closed 0 | Some s \<Rightarrow> s);
             next = fst (next_on_failure state threshold now);
             b1 = b\<lparr>br_states := (br_states b)(uid \<mapsto> next)\<rparr>;
             b2 = (case (state, next) of
                     (HalfOpen _, HalfOpen _) \<Rightarrow> b1
                   | (HalfOpen _, _) \<Rightarrow>
                       b1\<lparr>br_halfopen_since := (br_halfopen_since b1)(uid := None)\<rparr>
                   | _ \<Rightarrow> b1);
             db = (case (state, next) of
                     (Open _ _, Open _ _) \<Rightarrow>
                       Some (DbFailuresOnly (saturating_add_i32 (up_consecutive_failures up) 1))
                   | (Closed failures, Open until _) \<Rightarrow> Some (DbOpen until (sint failures))
                   | (_, Open until _) \<Rightarrow> Some (DbOpen until (sint threshold))
                   | _ \<Rightarrow> None)
         in (b2, db)))"

section \<open>Cooldown\<close>

text \<open>The saturating multiplication and the capped shift are never seen: 60 s doubling up to 30 min.\<close>

lemma saturating_mul_exact: "0 \<le> a * b \<Longrightarrow> a * b < 2 ^ 63 \<Longrightarrow> saturating_mul_i64 a b = a * b"
  by (simp add: saturating_mul_i64_def)

lemma cooldown_exact: "cooldown_secs opens = min (60 * 2 ^ unat opens) 1800"
proof (cases "unat opens \<le> 5")
  case True
  then have "(2::int) ^ unat opens \<le> 2 ^ 5" by (rule power_increasing) simp
  then have "saturating_mul_i64 60 (2 ^ unat opens) = 60 * 2 ^ unat opens"
    by (intro saturating_mul_exact) simp_all
  then show ?thesis
    using True by (simp add: cooldown_secs_def default_cooldown_secs_def max_cooldown_secs_def)
next
  case False
  then have "(2::int) ^ 5 \<le> 2 ^ unat opens" "(2::int) ^ 5 \<le> 2 ^ min (unat opens) 62"
    by (intro power_increasing; simp)+
  then show ?thesis
    by (simp add: cooldown_secs_def saturating_mul_i64_def default_cooldown_secs_def max_cooldown_secs_def)
qed

lemma cooldown_bounds: "60 \<le> cooldown_secs opens" "cooldown_secs opens \<le> 1800"
proof -
  have "(1::int) \<le> 2 ^ unat opens" by simp
  then show "60 \<le> cooldown_secs opens" by (simp add: cooldown_exact)
qed (simp add: cooldown_exact)

lemma cooldown_mono: "a \<le> b \<Longrightarrow> cooldown_secs a \<le> cooldown_secs b"
proof -
  assume "a \<le> b"
  then have "(2::int) ^ unat a \<le> 2 ^ unat b" by (simp add: word_le_nat_alt add.commute)
  then show ?thesis unfolding cooldown_exact by (intro min.mono mult_left_mono) simp_all
qed

section \<open>The two maps agree\<close>

text \<open>
  The calls of the breaker as one step function, and what every call keeps: the probe clock
  runs for exactly the upstreams that are half open.
\<close>

datatype breaker_event =
  EvAllow upstream_row bool instant
| EvSuccess upstream_row
| EvFailure upstream_row bool instant
| EvReset uuid

fun breaker_step :: "breaker_event \<Rightarrow> breaker \<Rightarrow> breaker" where
  "breaker_step (EvAllow up auto_disable now) b = snd (allow up auto_disable now b)"
| "breaker_step (EvSuccess up) b = fst (on_success up b)"
| "breaker_step (EvFailure up auto_disable now) b = fst (on_failure up auto_disable now b)"
| "breaker_step (EvReset uid) b = reset uid b"

definition probe_clock_ok :: "breaker \<Rightarrow> bool" where
  "probe_clock_ok b \<longleftrightarrow>
     (\<forall>uid. br_halfopen_since b uid \<noteq> None \<longleftrightarrow> (\<exists>n. br_states b uid = Some (HalfOpen n)))"

lemma next_on_failure_not_halfopen: "fst (next_on_failure s threshold now) \<noteq> HalfOpen n"
  by (cases s) (auto simp: Let_def)

lemma probe_clock_reset: "probe_clock_ok b \<Longrightarrow> probe_clock_ok (reset uid b)"
  by (simp add: probe_clock_ok_def reset_def)

lemma probe_clock_allow: "probe_clock_ok b \<Longrightarrow> probe_clock_ok (snd (allow up ad now b))"
  using probe_clock_reset [of b "up_id up"]
  by (auto simp: allow_def Let_def probe_clock_ok_def split: option.splits breaker_state.splits)

lemma probe_clock_success: "probe_clock_ok b \<Longrightarrow> probe_clock_ok (fst (on_success up b))"
  by (simp add: on_success_def probe_clock_ok_def)

lemma probe_clock_failure: "probe_clock_ok b \<Longrightarrow> probe_clock_ok (fst (on_failure up ad now b))"
  using next_on_failure_not_halfopen
  by (auto simp: on_failure_def Let_def probe_clock_ok_def split: option.splits breaker_state.splits)

interpretation brk: invariant_machine breaker_step probe_clock_ok
proof unfold_locales
  fix b e
  assume "probe_clock_ok b"
  then show "probe_clock_ok (breaker_step e b)"
    by (cases e) (simp_all add: probe_clock_allow probe_clock_success probe_clock_failure probe_clock_reset)
qed

lemma probe_clock_new: "probe_clock_ok breaker_new"
  by (simp add: probe_clock_ok_def breaker_new_def)

section \<open>Opening and probing\<close>

text \<open>A run of reported failures, and a run of admission checks with their answers.\<close>

definition failure_run :: "upstream_row \<Rightarrow> instant list \<Rightarrow> breaker \<Rightarrow> breaker" where
  "failure_run up ts b = fold (\<lambda>now. breaker_step (EvFailure up True now)) ts b"

fun allow_run :: "upstream_row \<Rightarrow> bool \<Rightarrow> instant list \<Rightarrow> breaker \<Rightarrow> bool list \<times> breaker" where
  "allow_run up ad [] b = ([], b)"
| "allow_run up ad (t # ts) b =
     (let (r, b1) = allow up ad t b; (rs, b2) = allow_run up ad ts b1 in (r # rs, b2))"

lemma on_failure_states:
  "up_disabled_by up \<noteq> Some ''manual'' \<Longrightarrow>
   br_states (fst (on_failure up True now b)) (up_id up) =
     Some (fst (next_on_failure
       (case br_states b (up_id up) of None \<Rightarrow> Closed 0 | Some s \<Rightarrow> s) (breaker_threshold up) now))"
  by (auto simp: on_failure_def Let_def split: breaker_state.splits)

text \<open>Below the threshold the breaker counts; the word addition does not wrap there.\<close>

lemma failure_run_counts:
  assumes "up_disabled_by up \<noteq> Some ''manual''"
    and "case br_states b (up_id up) of None \<Rightarrow> True | Some s \<Rightarrow> s = Closed 0"
    and "length ts < unat (breaker_threshold up)"
  shows "(case br_states (failure_run up ts b) (up_id up) of None \<Rightarrow> Closed 0 | Some s \<Rightarrow> s) =
     Closed (of_nat (length ts))"
  using assms(3)
proof (induction ts rule: rev_induct)
  case Nil
  then show ?case using assms(2) by (auto simp: failure_run_def split: option.splits)
next
  case (snoc t ts)
  have bound: "unat (breaker_threshold up) < 2 ^ 32"
    using unsigned_less [of "breaker_threshold up", where ?'a = nat] by simp
  then have "unat (of_nat (Suc (length ts)) :: u32) = Suc (length ts)"
    using snoc.prems by (intro unat_of_nat_small) simp
  then have "\<not> breaker_threshold up \<le> of_nat (length ts) + 1"
    using snoc.prems by (simp add: word_le_nat_alt add.commute)
  moreover have "length ts < unat (breaker_threshold up)" using snoc.prems by simp
  ultimately show ?case
    using snoc.IH assms(1) by (simp add: failure_run_def on_failure_states)
qed

lemma failure_run_opens:
  assumes "up_disabled_by up \<noteq> Some ''manual''"
    and "case br_states b (up_id up) of None \<Rightarrow> True | Some s \<Rightarrow> s = Closed 0"
    and "Suc (length ts) = unat (breaker_threshold up)"
  shows "br_states (failure_run up (ts @ [t]) b) (up_id up) = Some (Open (t + seconds 60) 1)"
proof -
  have "Suc (length ts) < 2 ^ 32"
    unfolding assms(3) using unsigned_less [of "breaker_threshold up", where ?'a = nat] by simp
  then have wrap_free: "unat (of_nat (length ts) + 1 :: u32) = Suc (length ts)"
    by (rule unat_Suc_u32)
  have "breaker_threshold up \<le> of_nat (length ts) + 1"
    unfolding word_le_nat_alt wrap_free using assms(3) by simp
  then show ?thesis
    using failure_run_counts [OF assms(1,2), of ts] assms(1,3)
    by (simp add: failure_run_def on_failure_states cooldown_exact)
qed

lemma breaker_threshold_pos:
  "up_breaker_threshold up < 2 ^ 31 \<Longrightarrow>
   unat (breaker_threshold up) = nat (max (up_breaker_threshold up) 1)"
  by (simp add: breaker_threshold_def unsigned_of_int take_bit_int_eq_self)

lemma allow_halfopen_waits:
  assumes "up_enabled up" "up_disabled_by up \<noteq> Some ''manual''"
    and "br_states b (up_id up) = Some (HalfOpen n)" "br_halfopen_since b (up_id up) = Some t0"
    and "t0 \<le> t" "t < t0 + seconds halfopen_timeout_secs"
  shows "allow up True t b = (False, b)"
proof -
  have "num_seconds (t - t0) < halfopen_timeout_secs"
    using assms(5,6) by (cases "t = t0") (auto simp: num_seconds_def seconds_def halfopen_timeout_secs_def)
  then show ?thesis using assms by (simp add: allow_def Let_def split: option.splits)
qed

lemma allow_run_waits:
  assumes "up_enabled up" "up_disabled_by up \<noteq> Some ''manual''"
    and "br_states b (up_id up) = Some (HalfOpen n)" "br_halfopen_since b (up_id up) = Some t0"
    and "\<forall>t \<in> set ts. t0 \<le> t \<and> t < t0 + seconds halfopen_timeout_secs"
  shows "allow_run up True ts b = (replicate (length ts) False, b)"
  using assms(5) by (induction ts) (auto simp: allow_halfopen_waits [OF assms(1-4)])

section \<open>Properties\<close>

definition sample_upstream :: upstream_row where
  "sample_upstream =
     \<lparr>up_id = 1, up_name = [], up_kind = [], up_base_url = [], up_api_key_plain = None,
      up_oauth_plain = None, up_balance_key_plain = None, up_protocols = [], up_enabled = True,
      up_timeout_ms = 0, up_breaker_threshold = 2, up_probe_model = None,
      up_consecutive_failures = 0, up_disabled_by = None, up_cooldown_until = None,
      up_use_proxy = False, up_proxy_id = None, up_extra = JNull, up_model_sync = [],
      up_model_exclude = [], up_models_cache = JNull, up_models_fetched_at = None,
      up_created_at = 0, up_updated_at = 0\<rparr>"

text \<open>
  C28: from a closed breaker without failures, as many reported failures as the threshold open
  it, for 60 seconds from the last one; fewer leave it closed with their count.
\<close>

theorem breaker_opens_at_threshold:
  assumes "up_disabled_by up \<noteq> Some ''manual''"
    and "case br_states b (up_id up) of None \<Rightarrow> True | Some s \<Rightarrow> s = Closed 0"
  shows "(Suc (length ts) = unat (breaker_threshold up) \<longrightarrow>
      br_states (failure_run up (ts @ [t]) b) (up_id up) = Some (Open (t + seconds 60) 1)) \<and>
    (length ts < unat (breaker_threshold up) \<longrightarrow>
      (case br_states (failure_run up ts b) (up_id up) of None \<Rightarrow> Closed 0 | Some s \<Rightarrow> s) =
        Closed (of_nat (length ts)))"
  using failure_run_opens [OF assms] failure_run_counts [OF assms] by blast

lemma breaker_opens_at_threshold_witness:
  "br_states (failure_run sample_upstream [5, 7] breaker_new) 1 = Some (Open (7 + seconds 60) 1)"
  using breaker_opens_at_threshold [of sample_upstream breaker_new "[5]" 7]
  by (simp add: sample_upstream_def breaker_new_def breaker_threshold_def)



text \<open>
  C30: in every state that calls of \<open>allow\<close>, \<open>on_success\<close>, \<open>on_failure\<close> and \<open>reset\<close> reach, the
  clock of the probe runs for exactly the upstreams that are half open; so a probe that never
  reports back is always replaced after its timeout, and no other state keeps a stale clock.
\<close>

theorem probe_clock_always:
  "br_halfopen_since (fold breaker_step evs breaker_new) uid \<noteq> None \<longleftrightarrow>
     (\<exists>n. br_states (fold breaker_step evs breaker_new) uid = Some (HalfOpen n))"
  using brk.inv_fold [OF probe_clock_new, of evs] by (simp only: probe_clock_ok_def)

text \<open>
  The cooldown is 60 seconds doubled per consecutive opening, at most 30 minutes, for every
  32-bit count: neither the capped shift nor the saturating product distorts it.
\<close>

theorem cooldown_closed_form: "cooldown_secs opens = min (60 * 2 ^ unat opens) 1800"
  by (rule cooldown_exact)

text \<open>
  The failure that opens the breaker stores the count before it in the row: the threshold
  less one (so 0 for the threshold 1), although that many failures plus one were reported.
\<close>

theorem opening_stores_old_count:
  assumes "up_disabled_by up \<noteq> Some ''manual''"
    and "br_states b (up_id up) = Some (Closed f)" "breaker_threshold up = f + 1"
  shows "snd (on_failure up True now b) = Some (DbOpen (now + seconds 60) (sint f))"
  using assms by (simp add: on_failure_def Let_def cooldown_exact)

lemma opening_stores_old_count_witness:
  "snd (on_failure sample_upstream True 7 (breaker_new\<lparr>br_states := [1 \<mapsto> Closed 1]\<rparr>)) =
     Some (DbOpen (7 + seconds 60) 1)"
  using opening_stores_old_count [of sample_upstream "breaker_new\<lparr>br_states := [1 \<mapsto> Closed 1]\<rparr>" 1 7]
  by (simp add: sample_upstream_def breaker_threshold_def)

end
