(* ===== verification/Sticky.thy ===== *)
theory Sticky
  imports Prelude "HOL-Library.AList"
begin

text \<open>
  The sticky routing table \<open>StickyMap\<close> of \<open>src/routing/mod.rs\<close>: \<open>(key, model)\<close> to the upstream
  that last served it and when. The \<open>HashMap\<close> is the list of its entries in some iteration
  order, with distinct keys. All clock reads of one call read the same instant \<open>now\<close>.
\<close>

interpretation alist_store: keyed_store "\<lambda>k m. map_of m k" AList.update AList.delete "\<lambda>m. distinct (map fst m)"
  by unfold_locales (auto simp: update_conv' delete_conv' distinct_update distinct_delete)

type_synonym sticky_key = "128 word \<times> string"
type_synonym sticky_map = "(sticky_key \<times> (128 word \<times> instant)) list"

definition sticky_ttl :: duration where "sticky_ttl = seconds 600"
definition sticky_cap :: nat where "sticky_cap = 10000"

definition sticky_get :: "128 word \<Rightarrow> string \<Rightarrow> instant \<Rightarrow> sticky_map \<Rightarrow> 128 word option \<times> sticky_map" where
  "sticky_get key model now m =
     (case map_of m (key, model) of
        None \<Rightarrow> (None, m)
      | Some (up, ts) \<Rightarrow>
          if sticky_ttl < duration_since now ts then (None, AList.delete (key, model) m)
          else (Some up, AList.update (key, model) (up, now) m))"

text \<open>\<open>max_by_key\<close> returns the last of several greatest elements.\<close>

definition elapsed_of :: "instant \<Rightarrow> sticky_key \<times> (128 word \<times> instant) \<Rightarrow> duration" where
  "elapsed_of now e = duration_since now (snd (snd e))"

fun max_by_elapsed ::
  "instant \<Rightarrow> sticky_map \<Rightarrow> (sticky_key \<times> (128 word \<times> instant)) option" where
  "max_by_elapsed now [] = None"
| "max_by_elapsed now (e # es) =
     Some (fold (\<lambda>x best. if elapsed_of now best \<le> elapsed_of now x then x else best) es e)"

definition sticky_pin :: "128 word \<Rightarrow> string \<Rightarrow> 128 word \<Rightarrow> instant \<Rightarrow> sticky_map \<Rightarrow> sticky_map" where
  "sticky_pin key model up now m =
     (let m1 =
        (if sticky_cap \<le> length m
         then (let m' = filter (\<lambda>e. elapsed_of now e \<le> sticky_ttl) m
               in if sticky_cap \<le> length m'
                  then (case max_by_elapsed now m' of
                          None \<Rightarrow> m' | Some oldest \<Rightarrow> AList.delete (fst oldest) m')
                  else m')
         else m)
      in AList.update (key, model) (up, now) m1)"

section \<open>Capacity\<close>

definition sticky_ok :: "sticky_map \<Rightarrow> bool" where
  "sticky_ok m \<longleftrightarrow> distinct (map fst m) \<and> length m \<le> sticky_cap"

lemma length_update: "length (AList.update k v m) = (if k \<in> fst ` set m then length m else Suc (length m))"
  by (induction m) auto

lemma length_delete_le: "length (AList.delete k m) \<le> length m"
  by (induction m) auto

lemma length_delete_less: "k \<in> fst ` set m \<Longrightarrow> length (AList.delete k m) < length m"
  by (induction m) (auto intro: le_imp_less_Suc simp: length_delete_le)

lemma fold_max:
  "fold (\<lambda>x best. if elapsed_of now best \<le> elapsed_of now x then x else best) es e \<in> set (e # es) \<and>
   (\<forall>x \<in> set (e # es). elapsed_of now x \<le> elapsed_of now
     (fold (\<lambda>x best. if elapsed_of now best \<le> elapsed_of now x then x else best) es e))"
proof (induction es arbitrary: e)
  case (Cons y ys)
  show ?case
  proof (cases "elapsed_of now e \<le> elapsed_of now y")
    case True
    then show ?thesis using Cons.IH [of y] by (auto intro: order_trans)
  next
    case False
    then have "elapsed_of now y \<le> elapsed_of now e" by simp
    then show ?thesis using Cons.IH [of e] False by (auto intro: order_trans)
  qed
qed simp

lemma max_by_elapsed_in: "max_by_elapsed now m = Some e \<Longrightarrow> e \<in> set m"
  by (cases m) (use fold_max [THEN conjunct1] in \<open>auto simp del: set_simps\<close>)

lemma max_by_elapsed_ge:
  "max_by_elapsed now m = Some e \<Longrightarrow> x \<in> set m \<Longrightarrow> elapsed_of now x \<le> elapsed_of now e"
  by (cases m) (use fold_max [THEN conjunct2] in \<open>auto simp del: set_simps\<close>)

lemma max_by_elapsed_None: "max_by_elapsed now m = None \<longleftrightarrow> m = []"
  by (cases m) auto

lemma sticky_ok_get: "sticky_ok m \<Longrightarrow> sticky_ok (snd (sticky_get key model now m))"
proof -
  assume ok: "sticky_ok m"
  have "(key, model) \<in> fst ` set m" if "map_of m (key, model) = Some v" for v
    using map_of_SomeD [OF that] by force
  then show ?thesis
    using ok length_delete_le [of "(key, model)" m]
    by (auto simp: sticky_get_def sticky_ok_def distinct_update distinct_delete length_update
        split: option.splits)
qed

text \<open>What \<open>pin\<close> leaves of the table before it inserts: there is room for one more.\<close>

definition sticky_room :: "instant \<Rightarrow> sticky_map \<Rightarrow> sticky_map" where
  "sticky_room now m =
     (if sticky_cap \<le> length m
      then (let m' = filter (\<lambda>e. elapsed_of now e \<le> sticky_ttl) m
            in if sticky_cap \<le> length m'
               then (case max_by_elapsed now m' of
                       None \<Rightarrow> m' | Some oldest \<Rightarrow> AList.delete (fst oldest) m')
               else m')
      else m)"

lemma sticky_pin_room:
  "sticky_pin key model up now m = AList.update (key, model) (up, now) (sticky_room now m)"
  by (simp add: sticky_pin_def sticky_room_def Let_def)

lemma distinct_room: "distinct (map fst m) \<Longrightarrow> distinct (map fst (sticky_room now m))"
  by (auto simp: sticky_room_def Let_def distinct_map_filter distinct_delete split: option.splits)

lemma length_room: "length m \<le> sticky_cap \<Longrightarrow> length (sticky_room now m) < sticky_cap"
proof -
  assume le: "length m \<le> sticky_cap"
  let ?m' = "filter (\<lambda>e. elapsed_of now e \<le> sticky_ttl) m"
  have le': "length ?m' \<le> sticky_cap" using le length_filter_le [of _ m] by (rule order_trans [rotated])
  have "0 < sticky_cap" by (simp add: sticky_cap_def)
  then have nonempty: "max_by_elapsed now ?m' \<noteq> None" if "sticky_cap \<le> length ?m'"
    using that by (auto simp only: max_by_elapsed_None list.size)
  have "length (AList.delete (fst e) ?m') < sticky_cap" if "max_by_elapsed now ?m' = Some e" for e
  proof -
    have "fst e \<in> fst ` set ?m'" using max_by_elapsed_in [OF that] by blast
    then have "length (AList.delete (fst e) ?m') < length ?m'" by (rule length_delete_less)
    with le' show ?thesis by simp
  qed
  with nonempty show ?thesis by (auto simp: sticky_room_def Let_def split: option.splits)
qed

lemma sticky_ok_pin: "sticky_ok m \<Longrightarrow> sticky_ok (sticky_pin key model up now m)"
  using length_room [of m now]
  by (auto simp: sticky_ok_def sticky_pin_room distinct_update distinct_room length_update)

datatype sticky_event = StickyGet "128 word" string instant | StickyPin "128 word" string "128 word" instant

fun sticky_step :: "sticky_event \<Rightarrow> sticky_map \<Rightarrow> sticky_map" where
  "sticky_step (StickyGet key model now) m = snd (sticky_get key model now m)"
| "sticky_step (StickyPin key model up now) m = sticky_pin key model up now m"

interpretation sticky: invariant_machine sticky_step sticky_ok
proof unfold_locales
  fix m e
  assume "sticky_ok m"
  then show "sticky_ok (sticky_step e m)"
    by (cases e) (simp_all add: sticky_ok_get sticky_ok_pin)
qed

section \<open>Lookup and eviction\<close>

lemma map_of_room_fresh:
  assumes "distinct (map fst m)" and "map_of m k = Some (u, ts)" and "duration_since now ts \<le> sticky_ttl"
  shows "map_of (sticky_room now m) k = Some (u, ts) \<or>
    sticky_cap \<le> length (filter (\<lambda>e. elapsed_of now e \<le> sticky_ttl) m) \<and>
    (\<forall>e \<in> set m. elapsed_of now e \<le> sticky_ttl \<longrightarrow> elapsed_of now e \<le> duration_since now ts)"
proof -
  let ?m' = "filter (\<lambda>e. elapsed_of now e \<le> sticky_ttl) m"
  have mem: "(k, (u, ts)) \<in> set ?m'"
    using map_of_SomeD [OF assms(2)] assms(3) by (simp add: elapsed_of_def)
  have dist: "distinct (map fst ?m')" using assms(1) by (simp add: distinct_map_filter)
  then have look: "map_of ?m' k = Some (u, ts)" using mem by (rule map_of_is_SomeI)
  have "\<forall>e \<in> set ?m'. elapsed_of now e \<le> duration_since now ts"
    if "max_by_elapsed now ?m' = Some (k, (u', ts'))" for u' ts'
  proof -
    have "(u', ts') = (u, ts)"
      using max_by_elapsed_in [OF that] mem dist by (metis eq_key_imp_eq_value)
    then show ?thesis using max_by_elapsed_ge [OF that] by (simp add: elapsed_of_def)
  qed
  then show ?thesis
    using look assms(2) by (auto simp: sticky_room_def Let_def delete_conv' split: option.splits)
qed

lemma map_of_pin:
  "map_of (sticky_pin key model up now m) k =
     (if k = (key, model) then Some (up, now) else map_of (sticky_room now m) k)"
  by (simp add: sticky_pin_room update_conv')

section \<open>Properties\<close>

text \<open>
  C38: in every state that lookups and pins reach from the empty table, the entries have distinct
  keys and are at most 10,000.
\<close>

theorem sticky_capacity:
  "distinct (map fst (fold sticky_step evs [])) \<and> length (fold sticky_step evs []) \<le> 10000"
proof -
  have "sticky_ok []" by (simp add: sticky_ok_def)
  from sticky.inv_fold [OF this, of evs] show ?thesis by (simp only: sticky_ok_def sticky_cap_def)
qed

text \<open>
  A pin is found again at once, and it drives out another entry that has not expired only
  when the table is full of such entries and that one is the oldest of them.
\<close>

theorem sticky_pin_keeps_fresh:
  assumes "distinct (map fst m)"
  shows "fst (sticky_get key model now (sticky_pin key model up now m)) = Some up \<and>
    (map_of m k = Some (u, ts) \<longrightarrow> duration_since now ts \<le> sticky_ttl \<longrightarrow> k \<noteq> (key, model) \<longrightarrow>
       map_of (sticky_pin key model up now m) k = Some (u, ts) \<or>
       10000 \<le> length (filter (\<lambda>e. elapsed_of now e \<le> sticky_ttl) m) \<and>
       (\<forall>e \<in> set m. elapsed_of now e \<le> sticky_ttl \<longrightarrow> elapsed_of now e \<le> duration_since now ts))"
proof (intro conjI impI)
  have "\<not> sticky_ttl < duration_since now now"
    by (simp add: sticky_ttl_def duration_since_def seconds_def)
  then show "fst (sticky_get key model now (sticky_pin key model up now m)) = Some up"
    by (simp add: sticky_get_def map_of_pin)
next
  assume "map_of m k = Some (u, ts)" "duration_since now ts \<le> sticky_ttl" "k \<noteq> (key, model)"
  with map_of_room_fresh [OF assms this(1,2)]
  show "map_of (sticky_pin key model up now m) k = Some (u, ts) \<or>
      10000 \<le> length (filter (\<lambda>e. elapsed_of now e \<le> sticky_ttl) m) \<and>
      (\<forall>e \<in> set m. elapsed_of now e \<le> sticky_ttl \<longrightarrow> elapsed_of now e \<le> duration_since now ts)"
    by (simp only: map_of_pin sticky_cap_def if_False)
qed

lemma sticky_pin_keeps_fresh_witness:
  "fst (sticky_get 2 ''m'' 9 (sticky_pin 2 ''m'' 7 9 [((1, ''m''), (5, 3))])) = Some 7 \<and>
   map_of (sticky_pin 2 ''m'' 7 9 [((1, ''m''), (5, 3))]) (1, ''m'') = Some (5, 3)"
  using sticky_pin_keeps_fresh [of "[((1, ''m''), (5, 3))]" 2 "''m''" 9 7 "(1, ''m'')" 5 3]
  by (auto simp: sticky_ttl_def duration_since_def seconds_def elapsed_of_def split: if_splits)

end
