(* ===== verification/Limit.thy ===== *)
theory Limit
  imports Entities
begin

text \<open>
  Rate limiting and quotas of \<open>src/limit/mod.rs\<close>: the sliding window, the limiter over all
  keys, the token precheck, the quota check and its cache. The queue of a key is the list of the
  accepted instants, oldest first. Where a handler reads the clock it takes the instant as
  an argument; database answers, \<open>Decimal\<close> and the time zone library are arguments too.
\<close>

section \<open>The sliding window\<close>

definition rpm_window :: duration where "rpm_window = seconds 60"

definition window_allow :: "instant list \<Rightarrow> instant \<Rightarrow> u32 \<Rightarrow> duration \<Rightarrow> bool \<times> instant list" where
  "window_allow queue now limit window =
     (if limit = 0 then (True, queue)
      else
        (let queue' = dropWhile (\<lambda>t. window < duration_since now t) queue
         in if limit \<le> of_nat (length queue') then (False, queue')
            else (True, queue' @ [now])))"

type_synonym windows = "uuid \<rightharpoonup> instant list"

text \<open>The limit in force for a key: \<open>None\<close> where it is unlimited.\<close>

definition effective_rpm :: "'d api_key_row \<Rightarrow> u32 \<Rightarrow> u32 option" where
  "effective_rpm key default_rpm =
     (case key_rpm key of
        Some r \<Rightarrow> if r \<le> 0 then None else if (of_int r :: u32) = 0 then None else Some (of_int r)
      | None \<Rightarrow> if default_rpm = 0 then None else Some default_rpm)"

definition check_rpm ::
  "'d api_key_row \<Rightarrow> u32 \<Rightarrow> instant \<Rightarrow> windows \<Rightarrow> (api_error + unit) \<times> windows" where
  "check_rpm key default_rpm now ws =
     (case effective_rpm key default_rpm of
        None \<Rightarrow> (Inr (), ws)
      | Some limit \<Rightarrow>
          (let queue = (case ws (key_id key) of None \<Rightarrow> [] | Some q \<Rightarrow> q);
               (ok, queue') = window_allow queue now limit rpm_window
           in (if ok then Inr () else Inl RateLimited, ws(key_id key \<mapsto> queue'))))"

definition rpm_status ::
  "'d api_key_row \<Rightarrow> u32 \<Rightarrow> instant \<Rightarrow> windows \<Rightarrow> (u32 \<times> u32) option" where
  "rpm_status key default_rpm now ws =
     (case effective_rpm key default_rpm of
        None \<Rightarrow> None
      | Some limit \<Rightarrow>
          (let used =
             (case ws (key_id key) of
                None \<Rightarrow> 0
              | Some q \<Rightarrow> of_nat (length (filter (\<lambda>t. duration_since now t < rpm_window) q)))
           in Some (limit, saturating_sub limit used)))"

definition limiter_remove_key :: "uuid \<Rightarrow> windows \<Rightarrow> windows" where
  "limiter_remove_key k ws = ws(k := None)"

section \<open>Token precheck\<close>

definition tpm_precheck :: "'d api_key_row \<Rightarrow> u64 option \<Rightarrow> api_error + unit" where
  "tpm_precheck key max_tokens =
     (case key_tpm key of
        None \<Rightarrow> Inr ()
      | Some t \<Rightarrow>
          if t \<le> 0 then Inr ()
          else (case max_tokens of
                  None \<Rightarrow> Inr ()
                | Some m \<Rightarrow> if of_int t < m then Inl RateLimited else Inr ()))"

section \<open>Quotas\<close>

text \<open>
  What the quota code asks of the date and time zone libraries: parsing a zone name, the local
  date of an instant, and the instants of a local midnight.
\<close>

type_synonym date = "int \<times> nat \<times> nat" \<comment> \<open>year, month, day\<close>

datatype local_result = LocalSingle instant | LocalAmbiguous instant instant | LocalNone

record 'tz tz_lib =
  tz_parse :: "string \<Rightarrow> 'tz option"
  tz_utc :: 'tz
  tz_date :: "'tz \<Rightarrow> instant \<Rightarrow> date"
  tz_midnight :: "'tz \<Rightarrow> date \<Rightarrow> local_result"
  utc_midnight :: "date \<Rightarrow> instant"

definition window_start :: "'tz tz_lib \<Rightarrow> string \<Rightarrow> string \<Rightarrow> instant \<Rightarrow> instant" where
  "window_start lib window tz now =
     (if window \<noteq> ''daily'' \<and> window \<noteq> ''monthly'' then 0
      else
        (let z = (case tz_parse lib tz of None \<Rightarrow> tz_utc lib | Some z \<Rightarrow> z);
             (y, mo, d) = tz_date lib z now;
             day = (if window = ''monthly'' then (y, mo, 1) else (y, mo, d))
         in (case tz_midnight lib z day of
               LocalSingle t \<Rightarrow> t
             | LocalAmbiguous t _ \<Rightarrow> t
             | LocalNone \<Rightarrow> utc_midnight lib day)))"

text \<open>
  The two queries: how many priced events of the window lack this currency's cost, and the used
  amount (no row is \<open>None\<close>). \<open>None\<close> as an answer is a failed query. \<open>ge\<close> and \<open>zero\<close> are
  \<open>Decimal\<close>'s.
\<close>

definition check_quota ::
  "('d \<Rightarrow> 'd \<Rightarrow> bool) \<Rightarrow> 'd \<Rightarrow> 'tz tz_lib \<Rightarrow>
   (uuid \<Rightarrow> instant \<Rightarrow> string \<Rightarrow> int option) \<Rightarrow>
   (uuid \<Rightarrow> string \<Rightarrow> string \<Rightarrow> instant \<Rightarrow> 'd option option) \<Rightarrow>
   'd api_key_row \<Rightarrow> string \<Rightarrow> string \<Rightarrow> instant \<Rightarrow> api_error + unit" where
  "check_quota ge zero lib missing_costs used key billing_timezone action now =
     (case (key_quota_limit key, key_quota_unit key, key_quota_window key) of
        (Some limit, Some unit, Some window) \<Rightarrow>
          (let period_start = window_start lib window billing_timezone now;
               unknown = Inl (Internal ''cannot confirm the quota state'');
               cost_check =
                 (if unit = ''cost_cny'' \<or> unit = ''cost_usd''
                  then (case missing_costs (key_id key) period_start unit of
                          Some na \<Rightarrow>
                            if 0 < na \<and> action \<noteq> ''warn'' then Some (Inl RateLimited) else None
                        | None \<Rightarrow> if action \<noteq> ''warn'' then Some unknown else None)
                  else None)
           in (case cost_check of
                 Some e \<Rightarrow> e
               | None \<Rightarrow>
                   (case used (key_id key) unit window period_start of
                      None \<Rightarrow> if action = ''warn'' then Inr () else unknown
                    | Some usage \<Rightarrow>
                        (let value = (case usage of None \<Rightarrow> zero | Some v \<Rightarrow> v)
                         in if ge value limit
                            then (if action = ''warn'' then Inr () else Inl RateLimited)
                            else Inr ()))))
      | _ \<Rightarrow> Inr ())"

text \<open>The cache of quota verdicts.\<close>

type_synonym quota_cache = "uuid \<rightharpoonup> bool \<times> instant"

definition quota_cache_get :: "uuid \<Rightarrow> u64 \<Rightarrow> instant \<Rightarrow> quota_cache \<Rightarrow> bool option" where
  "quota_cache_get k ttl_secs now c =
     (case c k of
        Some (exceeded, at) \<Rightarrow>
          if duration_since now at < seconds (uint ttl_secs) then Some exceeded else None
      | None \<Rightarrow> None)"

definition quota_cache_put :: "uuid \<Rightarrow> bool \<Rightarrow> instant \<Rightarrow> quota_cache \<Rightarrow> quota_cache" where
  "quota_cache_put k exceeded now c = c(k \<mapsto> (exceeded, now))"

definition quota_cache_remove :: "uuid \<Rightarrow> quota_cache \<Rightarrow> quota_cache" where
  "quota_cache_remove k c = c(k := None)"

section \<open>The queue is the recent part of the history\<close>

text \<open>
  \<open>H\<close> is every instant accepted so far, \<open>cur\<close> the last instant at which the window was
  looked at. The queue holds what has not expired by then, and no interval of the window's
  length holds more than the limit.
\<close>

definition in_window :: "instant \<Rightarrow> duration \<Rightarrow> instant list \<Rightarrow> instant list" where
  "in_window x w H = filter (\<lambda>t. x \<le> t \<and> t \<le> x + w) H"

definition window_ok :: "duration \<Rightarrow> u32 \<Rightarrow> instant \<Rightarrow> instant list \<Rightarrow> instant list \<Rightarrow> bool" where
  "window_ok w limit cur H queue \<longleftrightarrow>
     sorted H \<and> (\<forall>t \<in> set H. t \<le> cur) \<and> queue = dropWhile (\<lambda>t. w < cur - t) H \<and>
     (\<forall>x. length (in_window x w H) \<le> unat limit)"

lemma dropWhile_dropWhile:
  "(\<And>x. Q x \<Longrightarrow> P x) \<Longrightarrow> dropWhile P (dropWhile Q xs) = dropWhile P xs"
  by (induction xs) auto

lemma dropWhile_expired:
  "sorted H \<Longrightarrow> \<forall>t \<in> set H. t \<le> now \<Longrightarrow>
   dropWhile (\<lambda>t. w < now - t) H = in_window (now - w) w H"
proof (induction H)
  case (Cons t H)
  show ?case
  proof (cases "w < now - t")
    case True
    then show ?thesis using Cons by (simp add: in_window_def)
  next
    case False
    then have "\<forall>u \<in> set (t # H). now - w \<le> u \<and> u \<le> now - w + w" using Cons.prems by force
    then have "in_window (now - w) w (t # H) = t # H"
      unfolding in_window_def by (rule filter_True)
    with False show ?thesis by simp
  qed
qed (simp add: in_window_def)

lemma in_window_append: "in_window x w (H @ [t]) = in_window x w H @ (if x \<le> t \<and> t \<le> x + w then [t] else [])"
  by (simp add: in_window_def)

lemma in_window_mono:
  "\<forall>t \<in> set H. x \<le> t \<and> t \<le> x + w \<longrightarrow> y \<le> t \<and> t \<le> y + w \<Longrightarrow>
   length (in_window x w H) \<le> length (in_window y w H)"
  unfolding in_window_def by (induction H) auto

lemma window_ok_queue:
  assumes "window_ok w limit cur H queue" and "cur \<le> now" and "0 \<le> w"
  shows "dropWhile (\<lambda>t. w < duration_since now t) queue = in_window (now - w) w H"
proof -
  have old: "\<forall>t \<in> set H. t \<le> now" and srt: "sorted H" and q: "queue = dropWhile (\<lambda>t. w < cur - t) H"
    using assms by (auto simp: window_ok_def)
  have "dropWhile (\<lambda>t. w < duration_since now t) queue = dropWhile (\<lambda>t. w < duration_since now t) H"
    unfolding q using assms(2) by (intro dropWhile_dropWhile) (auto simp: duration_since_def)
  also have "\<dots> = dropWhile (\<lambda>t. w < now - t) H"
    using old assms(3) by (intro dropWhile_cong) (auto simp: duration_since_def)
  also have "\<dots> = in_window (now - w) w H"
    using srt old by (rule dropWhile_expired)
  finally show ?thesis .
qed

lemma window_ok_fits:
  assumes "window_ok w limit cur H queue"
  shows "limit \<le> of_nat (length (in_window x w H)) \<longleftrightarrow> unat limit \<le> length (in_window x w H)"
proof -
  have "length (in_window x w H) < 2 ^ 32"
    using assms unsigned_less [of limit, where ?'a = nat]
    by (auto simp: window_ok_def intro: le_less_trans)
  then have "unat (of_nat (length (in_window x w H)) :: u32) = length (in_window x w H)"
    by (intro unat_of_nat_small) simp
  then show ?thesis by (simp only: word_le_nat_alt)
qed

text \<open>One call: it admits exactly when fewer than \<open>limit\<close> were admitted in the last window.\<close>

lemma window_step:
  assumes ok: "window_ok w limit cur H queue" and "cur \<le> now" and "0 \<le> w" and "limit \<noteq> 0"
  shows "window_allow queue now limit w =
     (if length (in_window (now - w) w H) < unat limit
      then (True, in_window (now - w) w H @ [now]) else (False, in_window (now - w) w H))"
  using assms(4) window_ok_fits [OF ok, of "now - w"]
  by (auto simp: window_allow_def window_ok_queue [OF ok assms(2,3)] Let_def)

lemma window_ok_reject:
  assumes ok: "window_ok w limit cur H queue" and "cur \<le> now"
  shows "window_ok w limit now H (in_window (now - w) w H)"
proof -
  have "sorted H" "\<forall>t \<in> set H. t \<le> now" using assms by (auto simp: window_ok_def)
  then show ?thesis using ok dropWhile_expired by (simp add: window_ok_def)
qed

lemma window_ok_accept:
  assumes ok: "window_ok w limit cur H queue" and "cur \<le> now" and "0 \<le> w"
    and room: "length (in_window (now - w) w H) < unat limit"
  shows "window_ok w limit now (H @ [now]) (in_window (now - w) w H @ [now])"
proof -
  have H: "sorted H" "\<forall>t \<in> set H. t \<le> now" using assms by (auto simp: window_ok_def)
  have "length (in_window x w (H @ [now])) \<le> unat limit" for x
  proof (cases "x \<le> now \<and> now \<le> x + w")
    case True
    then have "length (in_window x w H) \<le> length (in_window (now - w) w H)"
      using H(2) by (intro in_window_mono) auto
    with room True show ?thesis by (simp add: in_window_append)
  next
    case False
    then show ?thesis using ok by (auto simp: in_window_append window_ok_def)
  qed
  moreover have "dropWhile (\<lambda>t. w < now - t) (H @ [now]) = in_window (now - w) w (H @ [now])"
    using H by (intro dropWhile_expired) (auto simp: sorted_append)
  ultimately show ?thesis
    using H \<open>0 \<le> w\<close> by (auto simp: window_ok_def sorted_append in_window_append)
qed

section \<open>The limiter over all keys\<close>

text \<open>The calls of \<open>check_rpm\<close> in order, and the instants admitted for one key.\<close>

fun rpm_admitted ::
  "u32 \<Rightarrow> ('d api_key_row \<times> instant) list \<Rightarrow> windows \<Rightarrow> uuid \<Rightarrow> instant list" where
  "rpm_admitted default_rpm [] ws k = []"
| "rpm_admitted default_rpm ((key, now) # calls) ws k =
     (let (r, ws') = check_rpm key default_rpm now ws
      in (if r = Inr () \<and> key_id key = k then [now] else []) @ rpm_admitted default_rpm calls ws' k)"

lemma check_rpm_other:
  "key_id key \<noteq> k \<Longrightarrow> snd (check_rpm key default_rpm now ws) k = ws k"
  by (auto simp: check_rpm_def Let_def split: option.splits prod.splits)

lemma rpm_admitted_ok:
  assumes "sorted (map snd calls)" and "\<forall>c \<in> set calls. cur \<le> snd c"
    and "\<forall>c \<in> set calls. key_id (fst c) = k \<longrightarrow> effective_rpm (fst c) default_rpm = Some limit"
    and "window_ok rpm_window limit cur H (case ws k of None \<Rightarrow> [] | Some q \<Rightarrow> q)"
  shows "length (in_window x rpm_window (H @ rpm_admitted default_rpm calls ws k)) \<le> unat limit"
  using assms
proof (induction calls arbitrary: cur H ws)
  case Nil
  then show ?case by (simp add: window_ok_def)
next
  case (Cons c calls)
  obtain key now where c: "c = (key, now)" by force
  let ?q = "\<lambda>ws. case ws k of None \<Rightarrow> [] | Some q \<Rightarrow> q"
  define ws' where "ws' = snd (check_rpm key default_rpm now ws)"
  define H' where "H' = H @ (if fst (check_rpm key default_rpm now ws) = Inr () \<and> key_id key = k then [now] else [])"
  have le: "cur \<le> now" and w: "0 \<le> rpm_window" using Cons.prems c by (auto simp: rpm_window_def seconds_def)
  have "window_ok rpm_window limit now H' (?q ws') \<or> key_id key \<noteq> k"
  proof (cases "key_id key = k")
    case True
    then have lim: "effective_rpm key default_rpm = Some limit" "limit \<noteq> 0"
      using Cons.prems(3) c by (auto simp: effective_rpm_def split: option.splits if_splits)
    have "window_ok rpm_window limit cur H (?q ws)" by (rule Cons.prems(4))
    note step = window_step [OF this le w lim(2)] window_ok_accept [OF this le w] window_ok_reject [OF this le]
    show ?thesis using step True lim
      by (cases "length (in_window (now - rpm_window) rpm_window H) < unat limit")
        (auto simp: H'_def ws'_def check_rpm_def)
  qed simp
  then have ok': "\<exists>cur'. (\<forall>d \<in> set calls. cur' \<le> snd d) \<and> window_ok rpm_window limit cur' H' (?q ws')"
  proof
    assume "window_ok rpm_window limit now H' (?q ws')"
    then show ?thesis using Cons.prems(1) c by auto
  next
    assume "key_id key \<noteq> k"
    then have "H' = H" "?q ws' = ?q ws" by (auto simp: H'_def ws'_def check_rpm_other)
    then show ?thesis using Cons.prems(2,4) by auto
  qed
  have "H @ rpm_admitted default_rpm (c # calls) ws k = H' @ rpm_admitted default_rpm calls ws' k"
    by (auto simp: c H'_def ws'_def split: prod.splits)
  then show ?case using ok' Cons.IH [of _ H' ws'] Cons.prems(1,3) by auto
qed

section \<open>Properties\<close>

definition sample_key :: "int api_key_row" where
  "sample_key =
     \<lparr>key_id = 1, key_name = ''k'', key_hash = [], key_prefix = [], key_enabled = True,
      key_models = None, key_rpm = Some 2, key_tpm = None, key_quota_limit = Some 10,
      key_quota_unit = Some ''cost_usd'', key_quota_window = Some ''total'',
      key_allow_upstream_passthrough = False, key_passthrough_upstreams = None,
      key_debug_enabled = False, key_debug_expires_at = None, key_expires_at = None,
      key_created_at = 0, key_last_used_at = None\<rparr>"

text \<open>
  C27: over any run of \<open>check_rpm\<close> calls of all keys, made in the order of their instants, from
  empty windows: a key whose limit in force is \<open>limit\<close> throughout gets at most \<open>limit\<close> requests
  through in every interval of 60 seconds, wherever it starts.
\<close>

theorem rpm_never_exceeded:
  assumes "sorted (map snd calls)"
    and "\<forall>c \<in> set calls. key_id (fst c) = k \<longrightarrow> effective_rpm (fst c) default_rpm = Some limit"
  shows "length (in_window x (seconds 60) (rpm_admitted default_rpm calls Map.empty k)) \<le> unat limit"
proof (cases calls)
  case Nil
  then show ?thesis by (simp add: in_window_def)
next
  case (Cons c cs)
  have "\<forall>d \<in> set calls. snd c \<le> snd d" using assms(1) Cons by auto
  from rpm_admitted_ok [OF assms(1) this assms(2), of "[]" Map.empty x]
  show ?thesis by (simp add: window_ok_def in_window_def rpm_window_def)
qed

lemma rpm_never_exceeded_witness:
  "length (in_window 0 (seconds 60)
     (rpm_admitted 0 [(sample_key, 1), (sample_key, 2), (sample_key, 3)] Map.empty 1)) \<le> 2"
  using rpm_never_exceeded [of "[(sample_key, 1), (sample_key, 2), (sample_key, 3)]" 1 0 2 0]
  by (simp add: effective_rpm_def sample_key_def)

text \<open>
  The window lets a request through exactly when fewer than \<open>limit\<close> requests were let
  through in the window before it, and then remembers it; a request it turns away costs nothing.
  \<open>H\<close> is the history of admissions that the queue was built from.
\<close>

theorem window_admits_iff_room:
  assumes "window_ok w limit cur H queue" "cur \<le> now" "0 \<le> w" "limit \<noteq> 0"
  shows "(fst (window_allow queue now limit w) \<longleftrightarrow> length (in_window (now - w) w H) < unat limit) \<and>
    window_ok w limit now (if fst (window_allow queue now limit w) then H @ [now] else H)
       (snd (window_allow queue now limit w))"
  using window_step [OF assms] window_ok_accept [OF assms(1-3)] window_ok_reject [OF assms(1,2)]
  by simp_all

lemma window_admits_iff_room_witness:
  "\<not> fst (window_allow [3, 5] 10 2 20) \<and> fst (window_allow [3, 5] 30 2 20)"
proof -
  have ok: "window_ok 20 2 5 [3, 5] [3, 5]"
    by (auto simp: window_ok_def in_window_def)
  show ?thesis
    using window_admits_iff_room [OF ok, of 10] window_admits_iff_room [OF ok, of 30]
    by (simp add: in_window_def)
qed

text \<open>
  C39: a quota check without the warn policy fails closed. A key with a quota gets through
  exactly when the used amount is known and below the limit and, for a cost quota, no priced
  event of the window lacks its cost; every other case, a failed query among them, is an
  error. Under the warn policy everything gets through.
\<close>

theorem quota_decision:
  assumes "key_quota_limit key = Some limit" "key_quota_unit key = Some unit"
    "key_quota_window key = Some window"
  shows "check_quota ge zero lib missing used key tz action now = Inr () \<longleftrightarrow>
    action = ''warn'' \<or>
    (unit \<in> {''cost_cny'', ''cost_usd''} \<longrightarrow> (\<exists>n. missing (key_id key) (window_start lib window tz now) unit = Some n \<and> n \<le> 0)) \<and>
    (\<exists>u. used (key_id key) unit window (window_start lib window tz now) = Some u \<and> \<not> ge (unwrap_or zero u) limit)"
  using assms
  by (auto simp: check_quota_def Let_def unwrap_or_def split: option.splits)

lemma quota_decision_witness:
  "check_quota (\<lambda>a b. b \<le> a) 0 \<lparr>tz_parse = (\<lambda>_. None), tz_utc = (), tz_date = (\<lambda>_ _. (0, 0, 0)),
       tz_midnight = (\<lambda>_ _. LocalNone), utc_midnight = (\<lambda>_. 0)\<rparr>
     (\<lambda>_ _ _. Some 0) (\<lambda>_ _ _ _. Some (Some 9)) sample_key ''UTC'' ''block'' 0 = Inr ()"
  by (subst quota_decision [of sample_key 10 "''cost_usd''" "''total''"]) (simp_all add: sample_key_def)

end
