(* ===== verification/Chat.thy ===== *)
theory Chat
  imports Ir
begin

text \<open>
  The OpenAI Chat Completions adapter, \<open>src/protocol/chat.rs\<close>: requests, responses, usage and
  stream chunks, in both directions. A conversion takes the degradation log and returns it
  with what it adds; a fallible one returns an error or the value with it. \<open>serde_json\<close>'s
  printer and parser come as the argument \<open>js\<close>.
\<close>

section \<open>Requests: JSON to IR\<close>

definition chat_known_request_fields :: "string list" where
  "chat_known_request_fields =
     [''model'', ''messages'', ''tools'', ''tool_choice'', ''temperature'', ''top_p'',
      ''max_tokens'', ''max_completion_tokens'', ''stop'', ''stream'', ''stream_options'',
      ''response_format'', ''seed'', ''user'', ''n'']"

definition chat_known_response_fields :: "string list" where
  "chat_known_response_fields =
     [''id'', ''model'', ''created'', ''choices'', ''usage'', ''system_fingerprint'']"

definition chat_known_chunk_fields :: "string list" where
  "chat_known_chunk_fields = [''id'', ''model'', ''created'', ''choices'', ''usage'']"

definition chat_parse_role :: "string option \<Rightarrow> conv_ctx \<Rightarrow> ir_role \<times> conv_ctx" where
  "chat_parse_role role ctx =
     (case role of
        Some r \<Rightarrow>
          if r = ''system'' \<or> r = ''developer'' then (RoleSystem, ctx)
          else if r = ''assistant'' then (RoleAssistant, ctx)
          else if r = ''tool'' then (RoleTool, ctx)
          else (RoleUser, degrade ''message.role'' (''unknown role, treated as user: '' @ r) ctx)
      | None \<Rightarrow> (RoleUser, ctx))"

definition media_default :: string where
  "media_default = ''application/octet-stream''"

definition split_data_url :: "string \<Rightarrow> string \<times> string" where
  "split_data_url rest =
     (case split_at_char (CHR '';'') rest of
        Some (media, after) \<Rightarrow>
          (case split_at_char (CHR '','') after of
             Some (_, data) \<Rightarrow> (media, data) | None \<Rightarrow> (media, after))
      | None \<Rightarrow>
          (case split_at_char (CHR '','') rest of
             Some (_, data) \<Rightarrow> (media_default, data) | None \<Rightarrow> (media_default, rest)))"

definition chat_parse_image_url :: "json \<Rightarrow> conv_ctx \<Rightarrow> ir_part option \<times> conv_ctx" where
  "chat_parse_image_url url_val ctx =
     (let finish =
        (\<lambda>url ctx.
           if url = [] then (None, degrade ''content.image_url'' ''image_url without url'' ctx)
           else (case strip_prefix ''data:'' url of
                   Some rest \<Rightarrow>
                     (let (media, data) = split_data_url rest in (Some (PartImageInline media data), ctx))
                 | None \<Rightarrow> (Some (PartImageUrl url), ctx)))
      in (case url_val of
            JStr s \<Rightarrow> finish s ctx
          | JObj o' \<Rightarrow>
              finish
                (case Option.bind (obj_get ''url'' o') as_str of None \<Rightarrow> [] | Some u \<Rightarrow> u)
                (case obj_get ''detail'' o' of
                   Some d \<Rightarrow>
                     if is_null d then ctx
                     else degrade ''content.image_url.detail'' ''image detail not supported, dropped'' ctx
                 | None \<Rightarrow> ctx)
          | _ \<Rightarrow>
              (None, degrade ''content.image_url'' ''image_url is neither a string nor an object'' ctx)))"

definition chat_parse_file :: "json \<Rightarrow> conv_ctx \<Rightarrow> ir_part option \<times> conv_ctx" where
  "chat_parse_file f ctx =
     (if \<not> is_object f then (None, degrade ''content.file'' ''file part is not an object'' ctx)
      else
        (let name = unwrap_or []
               (or_else (as_str (jidx f ''file_name''))
                 (or_else (as_str (jidx f ''filename'')) (as_str (jidx f ''file_id''))));
             url = or_else (as_str (jidx f ''file_url'')) (as_str (jidx f ''url''));
             data = or_else (as_str (jidx f ''file_data'')) (as_str (jidx f ''data''))
         in if name = [] \<and> url = None \<and> data = None
            then (None, degrade ''content.file'' ''file part without content'' ctx)
            else (Some (PartFile name url data), ctx)))"

definition chat_parse_part :: "json \<Rightarrow> conv_ctx \<Rightarrow> ir_part option \<times> conv_ctx" where
  "chat_parse_part p ctx =
     (if \<not> is_object p then (None, degrade ''content.part'' ''content part is not an object'' ctx)
      else
        (let ty = str_or_empty (jidx p ''type'')
         in if ty = ''text'' then (Some (PartText (str_or_empty (jidx p ''text''))), ctx)
            else if ty = ''image_url'' then chat_parse_image_url (jidx p ''image_url'') ctx
            else if ty = ''input_audio'' then
              (let audio = jidx p ''input_audio''
               in (Some (PartInputAudio (str_or_empty (jidx audio ''data''))
                           (str_or_empty (jidx audio ''format''))), ctx))
            else if ty = ''file'' then chat_parse_file (jidx p ''file'') ctx
            else (None, degrade ''content.part.type'' (''unknown part type: '' @ ty) ctx)))"

definition chat_parse_content :: "json option \<Rightarrow> conv_ctx \<Rightarrow> ir_content option \<times> conv_ctx" where
  "chat_parse_content v ctx =
     (case v of
        None \<Rightarrow> (None, ctx)
      | Some JNull \<Rightarrow> (None, ctx)
      | Some (JStr s) \<Rightarrow> (Some (ContentText s), ctx)
      | Some (JArr arr) \<Rightarrow>
          (let (parts, ctx') = filter_map_ctx chat_parse_part arr ctx
           in (if parts = [] then None else Some (ContentParts parts), ctx'))
      | Some _ \<Rightarrow> (None, degrade ''message.content'' ''unknown content structure, dropped'' ctx))"

definition chat_parse_tool_call ::
  "json_text \<Rightarrow> json \<Rightarrow> conv_ctx \<Rightarrow> ir_tool_call option \<times> conv_ctx" where
  "chat_parse_tool_call js tc ctx =
     (if \<not> is_object tc then (None, degrade ''tool_calls'' ''tool_call is not an object'' ctx)
      else
        (let args = jidx (jidx tc ''function'') ''arguments''
         in (Some
               \<lparr>tc_id = str_or_empty (jidx tc ''id''),
                tc_name = str_or_empty (jidx (jidx tc ''function'') ''name''),
                tc_arguments =
                  (case args of JStr s \<Rightarrow> s | JNull \<Rightarrow> [] | _ \<Rightarrow> to_text js args)\<rparr>,
             ctx)))"

definition degrade_message_fields :: "json \<Rightarrow> conv_ctx \<Rightarrow> conv_ctx" where
  "degrade_message_fields v ctx =
     fold
       (\<lambda>k ctx.
          case jget k v of
            Some x \<Rightarrow>
              if is_null x then ctx
              else degrade (''message.'' @ k)
                     (''message field '' @ k @ '' has no IR slot, dropped'') ctx
          | None \<Rightarrow> ctx)
       [''refusal'', ''annotations'', ''audio'', ''function_call''] ctx"

definition chat_parse_message ::
  "json_text \<Rightarrow> json \<Rightarrow> conv_ctx \<Rightarrow> (convert_error + ir_message) \<times> conv_ctx" where
  "chat_parse_message js v ctx =
     (if \<not> is_object v then (Inl (ParseError ''message is not an object''), ctx)
      else
        (let (role, ctx1) = chat_parse_role (as_str (jidx v ''role'')) ctx;
             (content, ctx2) = chat_parse_content (jget ''content'' v) ctx1;
             (calls, ctx3) =
               (case Option.bind (jget ''tool_calls'' v) as_array of
                  None \<Rightarrow> ([], ctx2)
                | Some tcs \<Rightarrow> filter_map_ctx (chat_parse_tool_call js) tcs ctx2)
         in (Inr
               \<lparr>msg_role = role, msg_content = content, msg_name = as_str (jidx v ''name''),
                msg_tool_calls = calls, msg_tool_call_id = as_str (jidx v ''tool_call_id''),
                msg_reasoning_content = as_str (jidx v ''reasoning_content'')\<rparr>,
             degrade_message_fields v ctx3)))"

definition chat_parse_tool :: "json \<Rightarrow> conv_ctx \<Rightarrow> ir_tool option \<times> conv_ctx" where
  "chat_parse_tool t ctx =
     (if str_or_empty (jidx t ''type'') = ''function''
      then
        (let f = jidx t ''function''
         in (Some
               \<lparr>tool_name = str_or_empty (jidx f ''name''),
                tool_description = as_str (jidx f ''description''),
                tool_parameters = unwrap_or (JObj []) (jget ''parameters'' f)\<rparr>,
             ctx))
      else
        (None,
         degrade ''tools''
           (''tool definition that is not a function, dropped: '' @ str_or_empty (jidx t ''type''))
           ctx))"

definition chat_parse_tools ::
  "json \<Rightarrow> conv_ctx \<Rightarrow> (convert_error + ir_tool list) \<times> conv_ctx" where
  "chat_parse_tools v ctx =
     (case as_array v of
        None \<Rightarrow> (Inl (ParseError ''tools is not an array''), ctx)
      | Some arr \<Rightarrow> (let (ts, ctx') = filter_map_ctx chat_parse_tool arr ctx in (Inr ts, ctx')))"

text \<open>\<open>v.get(k).is_some_and(|x| !x.is_null())\<close>\<close>

definition has_value :: "string \<Rightarrow> json \<Rightarrow> bool" where
  "has_value k v \<longleftrightarrow> (case jget k v of None \<Rightarrow> False | Some x \<Rightarrow> \<not> is_null x)"

definition parse_stop :: "json option \<Rightarrow> string list option" where
  "parse_stop v =
     (case v of
        Some (JStr s) \<Rightarrow> Some [s]
      | Some (JArr arr) \<Rightarrow> Some (List.map_filter as_str arr)
      | _ \<Rightarrow> None)"

definition chat_request_to_ir ::
  "json_text \<Rightarrow> json \<Rightarrow> conv_ctx \<Rightarrow> (convert_error + ir_request) \<times> conv_ctx" where
  "chat_request_to_ir js v ctx =
     (case as_object v of
        None \<Rightarrow> (Inl (ParseError ''request body is not an object''), ctx)
      | Some obj \<Rightarrow>
         (case (case jget ''messages'' v of
                  None \<Rightarrow> (Inr [], ctx)
                | Some (JArr arr) \<Rightarrow> try_map_ctx (chat_parse_message js) arr ctx
                | Some _ \<Rightarrow> (Inl (ParseError ''messages is not an array''), ctx)) of
            (Inl e, ctx1) \<Rightarrow> (Inl e, ctx1)
          | (Inr msgs, ctx1) \<Rightarrow>
             (let has_mt = has_value ''max_tokens'' v;
                  has_mct = has_value ''max_completion_tokens'' v;
                  ctx2 = (if has_mt \<and> has_mct
                          then degrade ''max_tokens''
                                 ''max_tokens and max_completion_tokens, takes the latter'' ctx1
                          else ctx1);
                  mt_val = (if has_mct then jget ''max_completion_tokens'' v
                            else if has_mt then jget ''max_tokens'' v else None)
              in (case (case jget ''tools'' v of
                          None \<Rightarrow> (Inr [], ctx2) | Some tools \<Rightarrow> chat_parse_tools tools ctx2) of
                    (Inl e, ctx3) \<Rightarrow> (Inl e, ctx3)
                  | (Inr tools, ctx3) \<Rightarrow>
                     (Inr
                        \<lparr>req_model = str_or_empty (jidx v ''model''),
                         req_messages = msgs,
                         req_tools = tools,
                         req_tool_choice = jget ''tool_choice'' v,
                         req_temperature = as_f64 (jidx v ''temperature''),
                         req_top_p = as_f64 (jidx v ''top_p''),
                         req_max_tokens = Option.bind mt_val as_u64,
                         req_max_tokens_field =
                           (if has_mct then Some MaxCompletionTokens
                            else if has_mt then Some MaxTokens else None),
                         req_stop = parse_stop (jget ''stop'' v),
                         req_stream = unwrap_or False (as_bool (jidx v ''stream'')),
                         req_stream_include_usage =
                           (case Option.bind (jget ''stream_options'' v) as_object of
                              None \<Rightarrow> False
                            | Some so \<Rightarrow>
                                unwrap_or False (Option.bind (obj_get ''include_usage'' so) as_bool)),
                         req_response_format = jget ''response_format'' v,
                         req_seed = as_i64 (jidx v ''seed''),
                         req_user = as_str (jidx v ''user''),
                         req_n = Option.bind (as_u64 (jidx v ''n'')) u32_try_from,
                         req_ext = default_ext,
                         req_extra =
                           obj_collect (\<lambda>k. k \<notin> set chat_known_request_fields) obj []\<rparr>,
                      ctx3)))))"

section \<open>Requests: IR to JSON\<close>

fun role_to_str :: "ir_role \<Rightarrow> string" where
  "role_to_str RoleSystem = ''system''"
| "role_to_str RoleUser = ''user''"
| "role_to_str RoleAssistant = ''assistant''"
| "role_to_str RoleTool = ''tool''"

definition json_object_with :: "string \<Rightarrow> string \<Rightarrow> jmap \<Rightarrow> json" where
  "json_object_with tag tag_val m = JObj (obj_insert tag (JStr tag_val) m)"

definition chat_tool_to_json :: "ir_tool \<Rightarrow> json" where
  "chat_tool_to_json t =
     (let f = obj_insert ''parameters'' (tool_parameters t)
                (obj_insert_opt ''description'' (map_option JStr (tool_description t))
                  (obj_insert ''name'' (JStr (tool_name t)) []))
      in json_object_with ''type'' ''function'' (obj_insert ''function'' (JObj f) []))"

definition chat_tool_call_to_json :: "ir_tool_call \<Rightarrow> json" where
  "chat_tool_call_to_json tc =
     (let f = obj_insert ''arguments'' (JStr (tc_arguments tc))
                (obj_insert ''name'' (JStr (tc_name tc)) [])
      in json_object_with ''type'' ''function''
           (obj_insert ''function'' (JObj f) (obj_insert ''id'' (JStr (tc_id tc)) [])))"

fun chat_part_to_json :: "ir_part \<Rightarrow> json" where
  "chat_part_to_json (PartText text) =
     json_object_with ''type'' ''text'' (obj_insert ''text'' (JStr text) [])"
| "chat_part_to_json (PartImageUrl url) =
     json_object_with ''type'' ''image_url''
       (obj_insert ''image_url'' (JObj (obj_insert ''url'' (JStr url) [])) [])"
| "chat_part_to_json (PartImageInline media data) =
     json_object_with ''type'' ''image_url''
       (obj_insert ''image_url'' (JStr (''data:'' @ media @ '';base64,'' @ data)) [])"
| "chat_part_to_json (PartInputAudio data format) =
     json_object_with ''type'' ''input_audio''
       (obj_insert ''input_audio''
         (JObj (obj_insert ''format'' (JStr format) (obj_insert ''data'' (JStr data) []))) [])"
| "chat_part_to_json (PartFile name url data) =
     json_object_with ''type'' ''file''
       (obj_insert ''file''
         (JObj
           (obj_insert_opt ''file_data'' (map_option JStr data)
             (obj_insert_opt ''file_url'' (map_option JStr url)
               (if name = [] then [] else obj_insert ''file_name'' (JStr name) [])))) [])"

fun chat_content_to_json :: "ir_content \<Rightarrow> json" where
  "chat_content_to_json (ContentText s) = JStr s"
| "chat_content_to_json (ContentParts parts) = JArr (map chat_part_to_json parts)"

definition chat_message_to_json :: "ir_message \<Rightarrow> json" where
  "chat_message_to_json msg =
     JObj
       (obj_insert_opt ''reasoning_content'' (map_option JStr (msg_reasoning_content msg))
         (obj_insert_opt ''tool_call_id'' (map_option JStr (msg_tool_call_id msg))
           (obj_insert_opt ''tool_calls''
             (if msg_tool_calls msg = [] then None
              else Some (JArr (map chat_tool_call_to_json (msg_tool_calls msg))))
             (obj_insert_opt ''name'' (map_option JStr (msg_name msg))
               (obj_insert_opt ''content'' (map_option chat_content_to_json (msg_content msg))
                 (obj_insert ''role'' (JStr (role_to_str (msg_role msg))) []))))))"

definition chat_degrade_ext :: "ir_ext \<Rightarrow> conv_ctx \<Rightarrow> conv_ctx" where
  "chat_degrade_ext e ctx =
     (let no_field = ''no such field in OpenAI Chat'';
          note = (\<lambda>present field ctx. if present then degrade field no_field ctx else ctx)
      in fold (\<lambda>k. degrade k no_field) (obj_keys (ext_extra e))
           (note (ext_service_tier e \<noteq> None) ''ext.service_tier''
             (note (ext_top_k e \<noteq> None) ''ext.top_k''
               (note (ext_cache_control e \<noteq> None) ''ext.cache_control''
                 (note (ext_web_search e \<noteq> None) ''ext.web_search''
                   (note (ext_thinking e \<noteq> None) ''ext.thinking'' ctx))))))"

text \<open>The Responses form of a function choice is wrapped; every other choice is copied.\<close>

definition responses_tool_choice :: "json \<Rightarrow> bool" where
  "responses_tool_choice tc \<longleftrightarrow>
     is_object tc \<and> Option.bind (jget ''type'' tc) as_str = Some ''function'' \<and>
     jget ''function'' tc = None \<and> jget ''name'' tc \<noteq> None"

definition chat_tool_choice :: "json \<Rightarrow> json" where
  "chat_tool_choice tc =
     (if responses_tool_choice tc
      then json_obj [(''type'', JStr ''function''),
                     (''function'', json_obj [(''name'', unwrap_or JNull (jget ''name'' tc))])]
      else tc)"

definition chat_max_tokens_key :: "max_tokens_field option \<Rightarrow> string" where
  "chat_max_tokens_key f =
     (case f of Some MaxCompletionTokens \<Rightarrow> ''max_completion_tokens'' | _ \<Rightarrow> ''max_tokens'')"

definition chat_request_fields :: "ir_request \<Rightarrow> (string \<times> json option) list" where
  "chat_request_fields req =
     [(''model'', Some (JStr (req_model req))),
      (''messages'', Some (JArr (map chat_message_to_json (req_messages req)))),
      (''tools'',
        if req_tools req = [] then None else Some (JArr (map chat_tool_to_json (req_tools req)))),
      (''tool_choice'', map_option chat_tool_choice (req_tool_choice req)),
      (''temperature'', map_option json_f64 (req_temperature req)),
      (''top_p'', map_option json_f64 (req_top_p req)),
      (chat_max_tokens_key (req_max_tokens_field req), map_option json_u64 (req_max_tokens req)),
      (''stop'', map_option (\<lambda>ss. JArr (map JStr ss)) (req_stop req)),
      (''stream'', Some (JBool (req_stream req))),
      (''stream_options'',
        if req_stream_include_usage req
        then Some (json_obj [(''include_usage'', JBool True)]) else None),
      (''response_format'', req_response_format req),
      (''seed'', map_option json_i64 (req_seed req)),
      (''user'', map_option JStr (req_user req)),
      (''n'', map_option json_u32 (req_n req))]"

definition chat_request_from_ir ::
  "ir_request \<Rightarrow> conv_ctx \<Rightarrow> (convert_error + json) \<times> conv_ctx" where
  "chat_request_from_ir req ctx =
     (Inr (JObj (obj_insert_fields (chat_request_fields req) (req_extra req))),
      chat_degrade_ext (req_ext req) ctx)"

section \<open>Usage\<close>

definition chat_known_usage_fields :: "string list" where
  "chat_known_usage_fields =
     [''prompt_tokens'', ''completion_tokens'', ''total_tokens'', ''prompt_tokens_details'',
      ''completion_tokens_details'']"

text \<open>The copy of the other usage fields keeps what is already there.\<close>

definition obj_collect_missing :: "(string \<Rightarrow> bool) \<Rightarrow> jmap \<Rightarrow> jmap \<Rightarrow> jmap" where
  "obj_collect_missing p m acc = fold (\<lambda>(k, v) a. if p k then obj_or_insert k v a else a) m acc"

lemma obj_ok_collect_missing: "obj_ok acc \<Longrightarrow> obj_ok (obj_collect_missing p m acc)"
  by (induction m arbitrary: acc)
    (auto simp: obj_collect_missing_def obj_or_insert_def obj_ok_insert split: option.splits)

lemma obj_get_collect_missing:
  "obj_ok m \<Longrightarrow> obj_get j (obj_collect_missing p m acc) =
     (case obj_get j acc of Some v \<Rightarrow> Some v | None \<Rightarrow> if p j then obj_get j m else None)"
proof (induction m arbitrary: acc)
  case Nil
  then show ?case by (simp add: obj_collect_missing_def split: option.splits)
next
  case (Cons kv m)
  obtain k v where kv: "kv = (k, v)" by force
  have ok: "obj_ok m" and new: "obj_get k m = None"
    using Cons.prems by (auto simp: kv obj_ok_Cons obj_get_None)
  show ?case
    using Cons.IH [OF ok, of "if p k then obj_or_insert k v acc else acc"] new
    by (auto simp: kv obj_collect_missing_def obj_get_or_insert split: option.splits)
qed

definition chat_parse_usage :: "json \<Rightarrow> ir_usage" where
  "chat_parse_usage u =
     (let cached = Option.bind (jget ''prompt_tokens_details'' u)
                     (\<lambda>details. as_u64 (jidx details ''cached_tokens''));
          extra =
            (case jget ''completion_tokens_details'' u of
               None \<Rightarrow> []
             | Some details \<Rightarrow>
                 obj_insert ''completion_tokens_details'' details
                   (obj_insert_opt ''reasoning_tokens''
                     (map_option json_u64 (as_u64 (jidx details ''reasoning_tokens''))) []))
      in \<lparr>us_prompt_tokens =
            saturating_sub (unwrap_or 0 (as_u64 (jidx u ''prompt_tokens''))) (unwrap_or 0 cached),
          us_completion_tokens = unwrap_or 0 (as_u64 (jidx u ''completion_tokens'')),
          us_cache_read_tokens = cached,
          us_cache_write_tokens = None,
          us_total_tokens = as_u64 (jidx u ''total_tokens''),
          us_extra =
            (case as_object u of
               None \<Rightarrow> extra
             | Some m \<Rightarrow>
                 obj_collect_missing (\<lambda>k. k \<notin> set chat_known_usage_fields) m extra)\<rparr>)"

definition chat_usage_to_json :: "ir_usage \<Rightarrow> conv_ctx \<Rightarrow> json \<times> conv_ctx" where
  "chat_usage_to_json u ctx =
     (let rt = obj_get ''reasoning_tokens'' (us_extra u);
          out1 = obj_remove ''reasoning_tokens'' (us_extra u);
          out2 = obj_remove ''output_tokens_details'' out1;
          (details, out3) =
            (if obj_get ''output_tokens_details'' out1 \<noteq> None then (True, out2)
             else (obj_get ''input_tokens_details'' out2 \<noteq> None,
                   obj_remove ''input_tokens_details'' out2));
          ctx1 = (if details
                  then degrade ''usage.details'' ''Responses usage details brought to the Chat shape'' ctx
                  else ctx);
          out4 =
            obj_insert_opt ''prompt_tokens_details''
              (map_option (\<lambda>c. JObj (obj_insert ''cached_tokens'' (json_u64 c) []))
                (us_cache_read_tokens u))
              (obj_insert_opt ''total_tokens'' (map_option json_u64 (us_total_tokens u))
                (obj_insert ''completion_tokens'' (json_u64 (us_completion_tokens u))
                  (obj_insert ''prompt_tokens''
                    (json_u64
                      (saturating_add (us_prompt_tokens u) (unwrap_or 0 (us_cache_read_tokens u))))
                    out3)));
          out5 =
            (case rt of
               None \<Rightarrow> out4
             | Some r \<Rightarrow>
                 obj_insert ''completion_tokens_details''
                   (JObj
                     (obj_insert ''reasoning_tokens'' r
                       (case obj_get ''completion_tokens_details'' out4 of
                          Some (JObj m) \<Rightarrow> m | _ \<Rightarrow> [])))
                   (obj_remove ''completion_tokens_details'' out4));
          ctx2 = (if us_cache_write_tokens u \<noteq> None
                  then degrade ''usage.cache_write_tokens'' ''OpenAI Chat has no cache_write_tokens'' ctx1
                  else ctx1)
      in (JObj out5, ctx2))"

section \<open>Responses\<close>

text \<open>\<open>v["index"].as_u64().and_then(|x| u32::try_from(x).ok()).unwrap_or(0)\<close>\<close>

definition index_of :: "json \<Rightarrow> u32" where
  "index_of v = unwrap_or 0 (Option.bind (as_u64 (jidx v ''index'')) u32_try_from)"

definition chat_parse_choice ::
  "json_text \<Rightarrow> json \<Rightarrow> conv_ctx \<Rightarrow> (convert_error + ir_choice) \<times> conv_ctx" where
  "chat_parse_choice js c ctx =
     (if \<not> is_object c then (Inl (ParseError ''choice is not an object''), ctx)
      else
        (case (case jget ''message'' c of
                 None \<Rightarrow> (Inr default_message, ctx) | Some m \<Rightarrow> chat_parse_message js m ctx) of
           (Inl e, ctx1) \<Rightarrow> (Inl e, ctx1)
         | (Inr m, ctx1) \<Rightarrow>
             (Inr
                \<lparr>cho_index = index_of c, cho_message = m,
                 cho_finish_reason =
                   map_option normalize_finish_reason (as_str (jidx c ''finish_reason''))\<rparr>,
              ctx1)))"

definition chat_response_to_ir ::
  "json_text \<Rightarrow> json \<Rightarrow> conv_ctx \<Rightarrow> (convert_error + ir_response) \<times> conv_ctx" where
  "chat_response_to_ir js v ctx =
     (case as_object v of
        None \<Rightarrow> (Inl (ParseError ''response body is not an object''), ctx)
      | Some obj \<Rightarrow>
         (case (case jget ''choices'' v of
                  None \<Rightarrow> (Inr [], ctx)
                | Some (JArr arr) \<Rightarrow> try_map_ctx (chat_parse_choice js) arr ctx
                | Some _ \<Rightarrow> (Inl (ParseError ''choices is not an array''), ctx)) of
            (Inl e, ctx1) \<Rightarrow> (Inl e, ctx1)
          | (Inr choices, ctx1) \<Rightarrow>
             (Inr
                \<lparr>rsp_id = str_or_empty (jidx v ''id''),
                 rsp_model = str_or_empty (jidx v ''model''),
                 rsp_created = unwrap_or 0 (as_i64 (jidx v ''created'')),
                 rsp_choices = choices,
                 rsp_usage = map_option chat_parse_usage (jget ''usage'' v),
                 rsp_system_fingerprint = as_str (jidx v ''system_fingerprint''),
                 rsp_extra = obj_collect (\<lambda>k. k \<notin> set chat_known_response_fields) obj []\<rparr>,
              ctx1)))"

definition chat_choice_to_json :: "ir_choice \<Rightarrow> json" where
  "chat_choice_to_json c =
     JObj
       (obj_insert_opt ''finish_reason'' (map_option JStr (cho_finish_reason c))
         (obj_insert ''message'' (chat_message_to_json (cho_message c))
           (obj_insert ''index'' (json_u32 (cho_index c)) [])))"

definition chat_usage_opt :: "ir_usage option \<Rightarrow> conv_ctx \<Rightarrow> json option \<times> conv_ctx" where
  "chat_usage_opt u ctx =
     (case u of
        None \<Rightarrow> (None, ctx)
      | Some us \<Rightarrow> (let (j, ctx') = chat_usage_to_json us ctx in (Some j, ctx')))"

definition chat_response_from_ir ::
  "ir_response \<Rightarrow> conv_ctx \<Rightarrow> (convert_error + json) \<times> conv_ctx" where
  "chat_response_from_ir resp ctx =
     (let (usage, ctx1) = chat_usage_opt (rsp_usage resp) ctx
      in (Inr (JObj
            (obj_insert_fields
              [(''id'', Some (JStr (rsp_id resp))),
               (''model'', Some (JStr (rsp_model resp))),
               (''created'', Some (json_i64 (rsp_created resp))),
               (''system_fingerprint'', map_option JStr (rsp_system_fingerprint resp)),
               (''choices'', Some (JArr (map chat_choice_to_json (rsp_choices resp)))),
               (''usage'', usage)]
              (rsp_extra resp))),
          ctx1))"

section \<open>Stream chunks\<close>

definition chat_parse_tool_call_delta ::
  "json \<Rightarrow> conv_ctx \<Rightarrow> ir_tool_call_delta option \<times> conv_ctx" where
  "chat_parse_tool_call_delta tc ctx =
     (if \<not> is_object tc
      then (None, degrade ''chunk.tool_calls'' ''tool call delta is not an object'' ctx)
      else
        (let f = jidx tc ''function''
         in (Some
               \<lparr>tcd_index = index_of tc, tcd_id = as_str (jidx tc ''id''),
                tcd_name = as_str (jidx f ''name''),
                tcd_arguments = as_str (jidx f ''arguments'')\<rparr>,
             ctx)))"

definition chat_parse_delta :: "json \<Rightarrow> conv_ctx \<Rightarrow> ir_delta \<times> conv_ctx" where
  "chat_parse_delta d ctx =
     (let (role, ctx1) =
        (case as_str (jidx d ''role'') of
           None \<Rightarrow> (None, ctx)
         | Some r \<Rightarrow> (let (x, c) = chat_parse_role (Some r) ctx in (Some x, c)));
        (calls, ctx2) =
          (case Option.bind (jget ''tool_calls'' d) as_array of
             None \<Rightarrow> ([], ctx1) | Some tcs \<Rightarrow> filter_map_ctx chat_parse_tool_call_delta tcs ctx1)
      in (\<lparr>dl_role = role, dl_content = as_str (jidx d ''content''),
           dl_reasoning_content = as_str (jidx d ''reasoning_content''), dl_tool_calls = calls\<rparr>,
          ctx2))"

definition chat_parse_chunk_choice ::
  "json \<Rightarrow> conv_ctx \<Rightarrow> (convert_error + ir_chunk_choice) \<times> conv_ctx" where
  "chat_parse_chunk_choice c ctx =
     (if \<not> is_object c then (Inl (ParseError ''chunk choice is not an object''), ctx)
      else
        (let (delta, ctx1) =
           (case jget ''delta'' c of
              None \<Rightarrow> (default_delta, ctx) | Some d \<Rightarrow> chat_parse_delta d ctx)
         in (Inr
               \<lparr>cc_index = index_of c, cc_delta = delta,
                cc_finish_reason =
                  map_option normalize_finish_reason (as_str (jidx c ''finish_reason''))\<rparr>,
             ctx1)))"

text \<open>The part of \<open>chunk_to_ir\<close> behind the JSON parser.\<close>

definition chat_chunk_value_to_ir ::
  "json \<Rightarrow> conv_ctx \<Rightarrow> (convert_error + ir_chunk option) \<times> conv_ctx" where
  "chat_chunk_value_to_ir v ctx =
     (case as_object v of
        None \<Rightarrow> (Inl (ParseError ''chunk is not an object''), ctx)
      | Some obj \<Rightarrow>
         (case (case Option.bind (jget ''choices'' v) as_array of
                  None \<Rightarrow> (Inr [], ctx)
                | Some arr \<Rightarrow> try_map_ctx chat_parse_chunk_choice arr ctx) of
            (Inl e, ctx1) \<Rightarrow> (Inl e, ctx1)
          | (Inr choices, ctx1) \<Rightarrow>
             (Inr
                (Some
                  \<lparr>chk_id = str_or_empty (jidx v ''id''),
                   chk_model = str_or_empty (jidx v ''model''),
                   chk_created = unwrap_or 0 (as_i64 (jidx v ''created'')),
                   chk_choices = choices,
                   chk_usage =
                     (case jget ''usage'' v of
                        None \<Rightarrow> None
                      | Some u \<Rightarrow> if is_null u then None else Some (chat_parse_usage u)),
                   chk_extra = obj_collect (\<lambda>k. k \<notin> set chat_known_chunk_fields) obj []\<rparr>),
              ctx1)))"

definition chat_chunk_to_ir ::
  "json_text \<Rightarrow> string \<Rightarrow> conv_ctx \<Rightarrow> (convert_error + ir_chunk option) \<times> conv_ctx" where
  "chat_chunk_to_ir js data ctx =
     (if trim data = ''[DONE]'' then (Inr None, ctx)
      else (case from_text js data of
              Inl e \<Rightarrow> (Inl (ParseError e), ctx) | Inr v \<Rightarrow> chat_chunk_value_to_ir v ctx))"

definition chat_tool_call_delta_to_json :: "ir_tool_call_delta \<Rightarrow> json" where
  "chat_tool_call_delta_to_json t =
     (let f = obj_insert_opt ''arguments'' (map_option JStr (tcd_arguments t))
                (obj_insert_opt ''name'' (map_option JStr (tcd_name t)) [])
      in json_object_with ''type'' ''function''
           (obj_insert ''function'' (JObj f)
             (obj_insert_opt ''id'' (map_option JStr (tcd_id t))
               (obj_insert ''index'' (json_u32 (tcd_index t)) []))))"

definition chat_delta_to_json :: "ir_delta \<Rightarrow> json" where
  "chat_delta_to_json d =
     JObj
       (obj_insert_opt ''tool_calls''
         (if dl_tool_calls d = [] then None
          else Some (JArr (map chat_tool_call_delta_to_json (dl_tool_calls d))))
         (obj_insert_opt ''reasoning_content'' (map_option JStr (dl_reasoning_content d))
           (obj_insert_opt ''content'' (map_option JStr (dl_content d))
             (obj_insert_opt ''role'' (map_option (JStr \<circ> role_to_str) (dl_role d)) []))))"

definition chat_chunk_choice_to_json :: "ir_chunk_choice \<Rightarrow> json" where
  "chat_chunk_choice_to_json c =
     JObj
       (obj_insert_opt ''finish_reason'' (map_option JStr (cc_finish_reason c))
         (obj_insert ''delta'' (chat_delta_to_json (cc_delta c))
           (obj_insert ''index'' (json_u32 (cc_index c)) [])))"

definition chat_chunk_to_value :: "ir_chunk \<Rightarrow> conv_ctx \<Rightarrow> json \<times> conv_ctx" where
  "chat_chunk_to_value chunk ctx =
     (let (usage, ctx1) = chat_usage_opt (chk_usage chunk) ctx
      in (JObj
            (obj_insert_fields
              [(''id'', Some (JStr (chk_id chunk))),
               (''model'', Some (JStr (chk_model chunk))),
               (''created'', Some (json_i64 (chk_created chunk))),
               (''choices'', Some (JArr (map chat_chunk_choice_to_json (chk_choices chunk)))),
               (''usage'', usage)]
              (chk_extra chunk)),
          ctx1))"

definition chat_chunk_from_ir ::
  "json_text \<Rightarrow> ir_chunk \<Rightarrow> conv_ctx \<Rightarrow> (convert_error + string list) \<times> conv_ctx" where
  "chat_chunk_from_ir js chunk ctx =
     (let (v, ctx1) = chat_chunk_to_value chunk ctx in (Inr [to_text js v], ctx1))"

definition chat_stream_end :: "string list" where
  "chat_stream_end = [''[DONE]'']"

end
