(* ===== verification/ChatRoundtrip.thy ===== *)
theory ChatRoundtrip
  imports Chat
begin

text \<open>
  What the Chat adapter reads back of what it writes. A request, response or chunk that fits
  the Chat protocol (\<open>chat_request_ok\<close> and its companions) comes back exactly as it was. The
  degradation log is not left alone: \<open>parse_role\<close> notes every message of role user.
\<close>

section \<open>Parts, messages and tools\<close>

fun chat_part_ok :: "ir_part \<Rightarrow> bool" where
  "chat_part_ok (PartText t) = True"
| "chat_part_ok (PartImageUrl u) = (u \<noteq> [] \<and> strip_prefix ''data:'' u = None)"
| "chat_part_ok (PartImageInline media data) = (CHR '';'' \<notin> set media)"
| "chat_part_ok (PartInputAudio d f) = True"
| "chat_part_ok (PartFile n u d) = (n \<noteq> [] \<or> u \<noteq> None \<or> d \<noteq> None)"

fun chat_content_ok :: "ir_content option \<Rightarrow> bool" where
  "chat_content_ok (Some (ContentParts ps)) = (ps \<noteq> [] \<and> list_all chat_part_ok ps)"
| "chat_content_ok _ = True"

definition role_note :: "ir_role \<Rightarrow> conv_ctx \<Rightarrow> conv_ctx" where
  "role_note r c =
     (if r = RoleUser then degrade ''message.role'' ''unknown role, treated as user: user'' c else c)"

lemma chat_parse_role_back: "chat_parse_role (Some (role_to_str r)) c = (r, role_note r c)"
  by (cases r) (simp_all add: chat_parse_role_def role_note_def)

lemma split_data_url_back:
  "CHR '';'' \<notin> set media \<Longrightarrow> split_data_url (media @ '';base64,'' @ data) = (media, data)"
  by (simp add: split_data_url_def split_at_char_append)

lemma chat_part_back: "chat_part_ok p \<Longrightarrow> chat_parse_part (chat_part_to_json p) c = (Some p, c)"
  by (cases p)
    (auto simp: chat_parse_part_def json_object_with_def obj_lookup chat_parse_image_url_def
      chat_parse_file_def split_data_url_back [simplified] split: option.splits)

lemma chat_content_back:
  "chat_content_ok content \<Longrightarrow>
   chat_parse_content (map_option chat_content_to_json content) c = (content, c)"
proof (cases content)
  case (Some x)
  assume ok: "chat_content_ok content"
  show ?thesis
  proof (cases x)
    case (ContentParts ps)
    then have "filter_map_ctx chat_parse_part (map chat_part_to_json ps) c = (ps, fold (\<lambda>_ c. c) ps c)"
      using ok Some by (intro filter_map_ctx_inverse) (auto simp: chat_part_back list_all_iff)
    then show ?thesis using ok Some ContentParts by (simp add: chat_parse_content_def fold_const)
  qed (simp add: Some chat_parse_content_def)
qed (simp add: chat_parse_content_def)

lemma chat_tool_call_back:
  "chat_parse_tool_call js (chat_tool_call_to_json tc) c = (Some tc, c)"
  by (simp add: chat_parse_tool_call_def chat_tool_call_to_json_def json_object_with_def obj_lookup)

lemma chat_tool_back: "chat_parse_tool (chat_tool_to_json t) c = (Some t, c)"
  by (cases "tool_description t")
    (simp_all add: chat_parse_tool_def chat_tool_to_json_def json_object_with_def obj_lookup)

lemma chat_tool_calls_back:
  "filter_map_ctx (chat_parse_tool_call js) (map chat_tool_call_to_json tcs) c = (tcs, c)"
  using filter_map_ctx_inverse [of tcs "chat_parse_tool_call js" chat_tool_call_to_json "\<lambda>_ c. c"]
  by (simp add: chat_tool_call_back fold_const)

lemma chat_tools_back:
  "chat_parse_tools (JArr (map chat_tool_to_json ts)) c = (Inr ts, c)"
  using filter_map_ctx_inverse [of ts chat_parse_tool chat_tool_to_json "\<lambda>_ c. c"]
  by (simp add: chat_parse_tools_def chat_tool_back fold_const)

lemma chat_message_back:
  assumes "chat_content_ok (msg_content m)"
  shows "chat_parse_message js (chat_message_to_json m) c = (Inr m, role_note (msg_role m) c)"
proof -
  let ?v = "chat_message_to_json m"
  have get: "jget ''content'' ?v = map_option chat_content_to_json (msg_content m)"
    "Option.bind (jget ''tool_calls'' ?v) as_array =
       (if msg_tool_calls m = [] then None else Some (map chat_tool_call_to_json (msg_tool_calls m)))"
    "as_str (jidx ?v ''role'') = Some (role_to_str (msg_role m))"
    "as_str (jidx ?v ''name'') = msg_name m"
    "as_str (jidx ?v ''tool_call_id'') = msg_tool_call_id m"
    "as_str (jidx ?v ''reasoning_content'') = msg_reasoning_content m"
    by (auto simp: chat_message_to_json_def obj_lookup split: option.splits)
  have "degrade_message_fields ?v c = c" for c
    by (simp add: degrade_message_fields_def chat_message_to_json_def obj_lookup)
  then show ?thesis
    unfolding chat_parse_message_def get
    by (cases "msg_tool_calls m = []")
      (simp_all add: chat_parse_role_back chat_content_back [OF assms] chat_tool_calls_back
        chat_message_to_json_def)
qed

lemma chat_messages_back:
  "list_all (\<lambda>m. chat_content_ok (msg_content m)) ms \<Longrightarrow>
   try_map_ctx (chat_parse_message js) (map chat_message_to_json ms) c =
     (Inr ms, fold (role_note \<circ> msg_role) ms c)"
  by (rule try_map_ctx_inverse) (auto simp: chat_message_back list_all_iff)

section \<open>Requests\<close>

text \<open>
  A request that fits: no extension fields (Chat has none), unknown fields kept apart from the
  known ones, numbers that JSON can carry, and a token limit with the name of its field.
\<close>

definition chat_request_ok :: "ir_request \<Rightarrow> bool" where
  "chat_request_ok req \<longleftrightarrow>
     list_all (\<lambda>m. chat_content_ok (msg_content m)) (req_messages req) \<and>
     (case req_tool_choice req of None \<Rightarrow> True | Some tc \<Rightarrow> \<not> responses_tool_choice tc) \<and>
     (case req_temperature req of None \<Rightarrow> True | Some t \<Rightarrow> f64_is_finite t) \<and>
     (case req_top_p req of None \<Rightarrow> True | Some t \<Rightarrow> f64_is_finite t) \<and>
     (req_max_tokens req = None \<longleftrightarrow> req_max_tokens_field req = None) \<and>
     req_ext req = default_ext \<and> obj_ok (req_extra req) \<and>
     list_all (\<lambda>k. k \<notin> set chat_known_request_fields) (obj_keys (req_extra req))"

lemma chat_degrade_ext_default [simp]: "chat_degrade_ext default_ext ctx = ctx"
  by (simp add: chat_degrade_ext_def default_ext_def)

lemma chat_fields_keys:
  "distinct (map fst (chat_request_fields req))"
  "set (map fst (chat_request_fields req)) \<subseteq> set chat_known_request_fields"
  by (cases "req_max_tokens_field req";
      auto simp: chat_request_fields_def chat_max_tokens_key_def chat_known_request_fields_def
        split: max_tokens_field.splits)+

text \<open>What the printed request has under each known key.\<close>

lemma chat_request_get:
  assumes "list_all (\<lambda>k. k \<notin> set chat_known_request_fields) (obj_keys (req_extra req))"
    and "k \<in> set chat_known_request_fields"
  shows "obj_get k (obj_insert_fields (chat_request_fields req) (req_extra req)) =
    Option.bind (map_of (chat_request_fields req) k) id"
proof -
  have "obj_get k (req_extra req) = None" using assms by (auto simp: obj_get_None list_all_iff)
  then show ?thesis by (rule obj_get_fields_only [OF chat_fields_keys(1)])
qed

lemma max_tokens_key_eq:
  "j = chat_max_tokens_key f \<longleftrightarrow>
     (if f = Some MaxCompletionTokens then j = ''max_completion_tokens'' else j = ''max_tokens'')"
  by (auto simp: chat_max_tokens_key_def split: option.splits max_tokens_field.splits)

lemma chat_fields_at:
  "map_of (chat_request_fields req) ''model'' = Some (Some (JStr (req_model req)))"
  "map_of (chat_request_fields req) ''messages'' =
     Some (Some (JArr (map chat_message_to_json (req_messages req))))"
  "map_of (chat_request_fields req) ''tools'' =
     Some (if req_tools req = [] then None else Some (JArr (map chat_tool_to_json (req_tools req))))"
  "map_of (chat_request_fields req) ''tool_choice'' =
     Some (map_option chat_tool_choice (req_tool_choice req))"
  "map_of (chat_request_fields req) ''temperature'' =
     Some (map_option json_f64 (req_temperature req))"
  "map_of (chat_request_fields req) ''top_p'' = Some (map_option json_f64 (req_top_p req))"
  "map_of (chat_request_fields req) ''stop'' =
     Some (map_option (\<lambda>ss. JArr (map JStr ss)) (req_stop req))"
  "map_of (chat_request_fields req) ''stream'' = Some (Some (JBool (req_stream req)))"
  "map_of (chat_request_fields req) ''stream_options'' =
     Some (if req_stream_include_usage req
           then Some (json_obj [(''include_usage'', JBool True)]) else None)"
  "map_of (chat_request_fields req) ''response_format'' = Some (req_response_format req)"
  "map_of (chat_request_fields req) ''seed'' = Some (map_option json_i64 (req_seed req))"
  "map_of (chat_request_fields req) ''user'' = Some (map_option JStr (req_user req))"
  "map_of (chat_request_fields req) ''n'' = Some (map_option json_u32 (req_n req))"
  "map_of (chat_request_fields req) ''max_tokens'' =
     (if req_max_tokens_field req = Some MaxCompletionTokens then None
      else Some (map_option json_u64 (req_max_tokens req)))"
  "map_of (chat_request_fields req) ''max_completion_tokens'' =
     (if req_max_tokens_field req = Some MaxCompletionTokens
      then Some (map_option json_u64 (req_max_tokens req)) else None)"
  by (simp_all add: chat_request_fields_def max_tokens_key_eq)

text \<open>The same of the printed object.\<close>

lemma chat_known:
  "list_all (\<lambda>k. k \<in> set chat_known_request_fields)
     [''model'', ''messages'', ''tools'', ''tool_choice'', ''temperature'', ''top_p'', ''stop'',
      ''stream'', ''stream_options'', ''response_format'', ''seed'', ''user'', ''n'',
      ''max_tokens'', ''max_completion_tokens'']"
  by (simp add: chat_known_request_fields_def)

lemma other_max_tokens: "f \<noteq> MaxCompletionTokens \<longleftrightarrow> f = MaxTokens"
  by (cases f) simp_all

lemma has_value_obj:
  "has_value k (JObj m) \<longleftrightarrow> (case obj_get k m of None \<Rightarrow> False | Some x \<Rightarrow> \<not> is_null x)"
  by (simp add: has_value_def)

lemma is_null_number [simp]: "\<not> is_null (json_u64 n)"
  by (simp add: json_u64_def)

lemma parse_stop_back: "parse_stop (map_option (\<lambda>ss. JArr (map JStr ss)) st) = st"
proof -
  have "List.map_filter as_str (map JStr ss) = ss" for ss by (induction ss) simp_all
  then show ?thesis by (cases st) (simp_all add: parse_stop_def)
qed

text \<open>An optional field, printed when it is there, and read back.\<close>

lemma optional_back [simp]:
  "as_u64 (case n of None \<Rightarrow> JNull | Some x \<Rightarrow> json_u32 x) = map_option ucast n"
  "as_u64 (case m of None \<Rightarrow> JNull | Some x \<Rightarrow> json_u64 x) = m"
  "as_i64 (case s of None \<Rightarrow> JNull | Some x \<Rightarrow> json_i64 x) = s"
  "as_str (case u of None \<Rightarrow> JNull | Some x \<Rightarrow> JStr x) = u"
  by (cases n; simp; fail | cases m; simp; fail | cases s; simp; fail | cases u; simp; fail)+

lemma as_f64_opt:
  "(case t of None \<Rightarrow> True | Some x \<Rightarrow> f64_is_finite x) \<Longrightarrow>
   as_f64 (case t of None \<Rightarrow> JNull | Some v \<Rightarrow> json_f64 v) = t"
  by (cases t) simp_all

lemma chat_request_back:
  assumes ok: "chat_request_ok req" and json: "chat_request_from_ir req ctx = (Inr v, ctx')"
  shows "ctx' = ctx"
    "chat_request_to_ir js v c = (Inr req, fold (role_note \<circ> msg_role) (req_messages req) c)"
proof -
  let ?m = "obj_insert_fields (chat_request_fields req) (req_extra req)"
  have extra: "list_all (\<lambda>k. k \<notin> set chat_known_request_fields) (obj_keys (req_extra req))"
    using ok by (simp add: chat_request_ok_def)
  have v: "v = JObj ?m" and "ctx' = ctx"
    using json ok by (simp_all add: chat_request_from_ir_def chat_request_ok_def)
  note get = chat_request_get [OF extra]
  show "ctx' = ctx" by fact
  have "obj_collect (\<lambda>k. k \<notin> set chat_known_request_fields) ?m [] = req_extra req"
    using ok chat_fields_keys(2) [of req]
    by (intro obj_collect_fields) (auto simp: chat_request_ok_def list_all_iff)
  note collect = this
  have tc: "map_option chat_tool_choice (req_tool_choice req) = req_tool_choice req"
    using ok by (cases "req_tool_choice req") (simp_all add: chat_request_ok_def chat_tool_choice_def)
  have msgs: "try_map_ctx (chat_parse_message js) (map chat_message_to_json (req_messages req)) c =
     (Inr (req_messages req), fold (role_note \<circ> msg_role) (req_messages req) c)"
    using ok by (intro chat_messages_back) (simp add: chat_request_ok_def)
  note known = chat_known [unfolded list.pred_inject, simplified]
  have g: "obj_get ''model'' ?m = Some (JStr (req_model req))"
    "obj_get ''messages'' ?m = Some (JArr (map chat_message_to_json (req_messages req)))"
    "obj_get ''tools'' ?m =
       (if req_tools req = [] then None else Some (JArr (map chat_tool_to_json (req_tools req))))"
    "obj_get ''tool_choice'' ?m = req_tool_choice req"
    "obj_get ''temperature'' ?m = map_option json_f64 (req_temperature req)"
    "obj_get ''top_p'' ?m = map_option json_f64 (req_top_p req)"
    "obj_get ''stop'' ?m = map_option (\<lambda>ss. JArr (map JStr ss)) (req_stop req)"
    "obj_get ''stream'' ?m = Some (JBool (req_stream req))"
    "obj_get ''stream_options'' ?m =
       (if req_stream_include_usage req
        then Some (json_obj [(''include_usage'', JBool True)]) else None)"
    "obj_get ''response_format'' ?m = req_response_format req"
    "obj_get ''seed'' ?m = map_option json_i64 (req_seed req)"
    "obj_get ''user'' ?m = map_option JStr (req_user req)"
    "obj_get ''n'' ?m = map_option json_u32 (req_n req)"
    "obj_get ''max_tokens'' ?m =
       (if req_max_tokens_field req = Some MaxCompletionTokens then None
        else map_option json_u64 (req_max_tokens req))"
    "obj_get ''max_completion_tokens'' ?m =
       (if req_max_tokens_field req = Some MaxCompletionTokens
        then map_option json_u64 (req_max_tokens req) else None)"
    by (simp_all add: get known chat_fields_at tc)
  have tools: "(case obj_get ''tools'' ?m of None \<Rightarrow> (Inr [], c) | Some t \<Rightarrow> chat_parse_tools t c) =
      (Inr (req_tools req), c)" for c
    by (simp add: g chat_tools_back)
  have inc: "as_object (json_obj [(''include_usage'', JBool True)]) = Some [(''include_usage'', JBool True)]"
    by (simp add: json_obj_def)
  have mt: "req_max_tokens req = None \<longleftrightarrow> req_max_tokens_field req = None"
    "req_ext req = default_ext"
    and num: "as_f64 (case req_temperature req of None \<Rightarrow> JNull | Some v \<Rightarrow> json_f64 v) =
        req_temperature req"
      "as_f64 (case req_top_p req of None \<Rightarrow> JNull | Some v \<Rightarrow> json_f64 v) = req_top_p req"
    using ok by (simp_all add: chat_request_ok_def as_f64_opt)
  show "chat_request_to_ir js v c = (Inr req, fold (role_note \<circ> msg_role) (req_messages req) c)"
    using mt
    by (cases "req_max_tokens_field req"; cases "req_max_tokens req"; cases "req_n req")
      (auto simp: v chat_request_to_ir_def has_value_obj g(1-2,4-) tools collect msgs num inc
        parse_stop_back other_max_tokens comp_def split: max_tokens_field.splits cong del: option.case_cong_weak)
qed

section \<open>Usage\<close>

text \<open>
  The numbers fit, and the extra map is as the parser leaves it: the reasoning tokens are those
  of the details, and no key is one the printer writes or drops.
\<close>

definition chat_usage_ok :: "ir_usage \<Rightarrow> bool" where
  "chat_usage_ok u \<longleftrightarrow>
     us_cache_write_tokens u = None \<and>
     unat (us_prompt_tokens u) + unat (unwrap_or 0 (us_cache_read_tokens u)) < 2 ^ 64 \<and>
     obj_ok (us_extra u) \<and>
     list_all (\<lambda>k. k \<notin> {''prompt_tokens'', ''completion_tokens'', ''total_tokens'',
         ''prompt_tokens_details'', ''output_tokens_details'', ''input_tokens_details''})
       (obj_keys (us_extra u)) \<and>
     (case obj_get ''completion_tokens_details'' (us_extra u) of
        Some (JObj d) \<Rightarrow> obj_ok d
      | _ \<Rightarrow> True) \<and>
     obj_get ''reasoning_tokens'' (us_extra u) =
       Option.bind (obj_get ''completion_tokens_details'' (us_extra u))
         (\<lambda>d. map_option json_u64 (as_u64 (jidx d ''reasoning_tokens'')))"

text \<open>What the printed usage has under each key.\<close>

definition chat_usage_at :: "ir_usage \<Rightarrow> string \<Rightarrow> json option" where
  "chat_usage_at u k =
      (if k = ''prompt_tokens'' then
         Some (json_u64 (saturating_add (us_prompt_tokens u) (unwrap_or 0 (us_cache_read_tokens u))))
       else if k = ''completion_tokens'' then Some (json_u64 (us_completion_tokens u))
       else if k = ''total_tokens'' then map_option json_u64 (us_total_tokens u)
       else if k = ''prompt_tokens_details'' then
         map_option (\<lambda>n. JObj [(''cached_tokens'', json_u64 n)]) (us_cache_read_tokens u)
       else if k = ''reasoning_tokens'' then None
       else obj_get k (us_extra u))"

lemma chat_usage_printed:
  assumes "chat_usage_ok u" "chat_usage_to_json u c = (v, c')"
  obtains m where "v = JObj m" "obj_ok m" "c' = c"
    "\<forall>k. obj_get k m = chat_usage_at u k"
proof -
  let ?x = "us_extra u"
  define o3 where "o3 = obj_remove ''input_tokens_details''
    (obj_remove ''output_tokens_details'' (obj_remove ''reasoning_tokens'' ?x))"
  define o4 where "o4 =
    obj_insert_opt ''prompt_tokens_details''
      (map_option (\<lambda>n. JObj [(''cached_tokens'', json_u64 n)]) (us_cache_read_tokens u))
      (obj_insert_opt ''total_tokens'' (map_option json_u64 (us_total_tokens u))
        (obj_insert ''completion_tokens'' (json_u64 (us_completion_tokens u))
          (obj_insert ''prompt_tokens''
            (json_u64 (saturating_add (us_prompt_tokens u) (unwrap_or 0 (us_cache_read_tokens u)))) o3)))"
  define cd where "cd = obj_get ''completion_tokens_details'' ?x"
  have ok: "obj_ok ?x" and none: "obj_get ''output_tokens_details'' ?x = None"
      "obj_get ''input_tokens_details'' ?x = None"
      "obj_get ''prompt_tokens_details'' ?x = None" "obj_get ''total_tokens'' ?x = None"
    and rt: "obj_get ''reasoning_tokens'' ?x =
       Option.bind cd (\<lambda>d. map_option json_u64 (as_u64 (jidx d ''reasoning_tokens'')))"
    and cd_ok: "\<And>d. cd = Some (JObj d) \<Longrightarrow> obj_ok d"
    and wr: "us_cache_write_tokens u = None"
    using assms(1) by (auto simp: chat_usage_ok_def obj_get_None list_all_iff cd_def)
  note ins = obj_get_insert obj_get_insert_opt obj_get_remove obj_ok_remove obj_ok_insert
    obj_ok_insert_opt
  have o3: "obj_ok o3" "obj_get k o3 = (if k = ''reasoning_tokens'' then None else obj_get k ?x)" for k
    using none by (auto simp: o3_def ins ok)
  have o4: "obj_ok o4" "obj_get ''completion_tokens_details'' o4 = cd"
    by (simp_all add: o4_def ins o3 cd_def)
  define o5 where "o5 = (case obj_get ''reasoning_tokens'' ?x of None \<Rightarrow> o4
     | Some r \<Rightarrow> obj_insert ''completion_tokens_details''
         (JObj (obj_insert ''reasoning_tokens'' r
           (case obj_get ''completion_tokens_details'' o4 of Some (JObj m) \<Rightarrow> m | _ \<Rightarrow> [])))
         (obj_remove ''completion_tokens_details'' o4))"
  have "o5 = o4"
  proof (cases "obj_get ''reasoning_tokens'' ?x")
    case None
    then show ?thesis by (simp add: o5_def)
  next
    case (Some r)
    then obtain d n where d: "cd = Some (JObj d)" "obj_get ''reasoning_tokens'' d = Some r"
      using rt
      by (auto simp: json_u64_def jidx_def split: Option.bind_splits option.splits
          elim!: as_u64.elims jget.elims)
    then have "obj_insert ''reasoning_tokens'' r d = d"
      by (intro obj_insert_same cd_ok)
    then show ?thesis
      using d o4 Some by (intro obj_ext) (auto simp: o5_def ins)
  qed
  moreover have "v = JObj o5" "c' = c"
    using assms(2) none ok wr
    by (cases "obj_get ''reasoning_tokens'' ?x";
        simp add: chat_usage_to_json_def Let_def o5_def o4_def o3_def ins)+
  ultimately show ?thesis
    using that [of o4] o4(1) by (simp add: o4_def ins o3 none chat_usage_at_def)
qed

lemma chat_usage_back:
  assumes "chat_usage_ok u" "chat_usage_to_json u c = (v, c')"
  shows "chat_parse_usage v = u" "c' = c"
proof -
  obtain m where m: "v = JObj m" "obj_ok m" "c' = c"
    "\<forall>k. obj_get k m = chat_usage_at u k"
    by (rule chat_usage_printed [OF assms])
  show "c' = c" by (rule m(3))
  let ?x = "us_extra u" and ?cd = "obj_get ''completion_tokens_details'' (us_extra u)"
  have ok: "obj_ok ?x"
    and none: "obj_get ''prompt_tokens'' ?x = None" "obj_get ''completion_tokens'' ?x = None"
      "obj_get ''total_tokens'' ?x = None" "obj_get ''prompt_tokens_details'' ?x = None"
    and rt: "obj_get ''reasoning_tokens'' ?x =
       Option.bind ?cd (\<lambda>d. map_option json_u64 (as_u64 (jidx d ''reasoning_tokens'')))"
    and wr: "us_cache_write_tokens u = None"
    using assms(1) by (simp_all add: chat_usage_ok_def obj_get_None list_all_iff) blast+
  have num: "unat (us_prompt_tokens u) + unat (unwrap_or 0 (us_cache_read_tokens u)) < 2 ^ 64"
    using assms(1) by (simp only: chat_usage_ok_def)
  then have fits: "saturating_sub (saturating_add (us_prompt_tokens u)
      (unwrap_or 0 (us_cache_read_tokens u))) (unwrap_or 0 (us_cache_read_tokens u)) = us_prompt_tokens u"
    by (intro saturating_add_sub) simp
  define acc where "acc = (case ?cd of None \<Rightarrow> []
     | Some details \<Rightarrow> obj_insert ''completion_tokens_details'' details
         (obj_insert_opt ''reasoning_tokens''
           (map_option json_u64 (as_u64 (jidx details ''reasoning_tokens''))) []))"
  have acc: "obj_ok acc" "obj_get k acc =
      (if k = ''completion_tokens_details'' \<or> k = ''reasoning_tokens'' then obj_get k ?x else None)" for k
    using rt
    by (cases ?cd; simp add: acc_def obj_ok_insert obj_ok_insert_opt obj_get_insert
        obj_get_insert_opt)+
  have "obj_collect_missing (\<lambda>k. k \<notin> set chat_known_usage_fields) m acc = ?x"
    using ok none acc m(2)
    by (intro obj_ext)
      (auto simp: obj_ok_collect_missing obj_get_collect_missing m(4) [rule_format] chat_usage_at_def chat_known_usage_fields_def
        split: option.splits)
  then show "chat_parse_usage v = u"
    using wr fits
    by (cases u; cases "us_cache_read_tokens u"; cases "us_total_tokens u")
      (auto simp: chat_parse_usage_def m(1) m(4) [rule_format] chat_usage_at_def Let_def acc_def)
qed

section \<open>Responses\<close>

definition finish_ok :: "string option \<Rightarrow> bool" where
  "finish_ok fr \<longleftrightarrow> map_option normalize_finish_reason fr = fr"

definition usage_opt_ok :: "ir_usage option \<Rightarrow> bool" where
  "usage_opt_ok u \<longleftrightarrow> (case u of None \<Rightarrow> True | Some us \<Rightarrow> chat_usage_ok us)"

definition chat_choice_ok :: "ir_choice \<Rightarrow> bool" where
  "chat_choice_ok c \<longleftrightarrow>
     chat_content_ok (msg_content (cho_message c)) \<and> finish_ok (cho_finish_reason c)"

definition chat_response_ok :: "ir_response \<Rightarrow> bool" where
  "chat_response_ok r \<longleftrightarrow>
     list_all chat_choice_ok (rsp_choices r) \<and> usage_opt_ok (rsp_usage r) \<and>
     extra_ok chat_known_response_fields (rsp_extra r)"

lemma index_of_back: "jidx v ''index'' = json_u32 i \<Longrightarrow> index_of v = i"
  by (simp add: index_of_def)

lemma jget_some_jidx [simp]: "jget k v = Some x \<Longrightarrow> jidx v k = x"
  by (simp add: jidx_def)

lemma finish_back:
  "finish_ok fr \<Longrightarrow> jget ''finish_reason'' v = map_option JStr fr \<Longrightarrow>
   map_option normalize_finish_reason (as_str (jidx v ''finish_reason'')) = fr"
  by (cases fr) (simp_all add: finish_ok_def jidx_def)

lemma chat_choice_back:
  assumes "chat_choice_ok ch"
  shows "chat_parse_choice js (chat_choice_to_json ch) c =
    (Inr ch, role_note (msg_role (cho_message ch)) c)"
proof -
  let ?v = "chat_choice_to_json ch"
  have get: "is_object ?v" "jget ''message'' ?v = Some (chat_message_to_json (cho_message ch))"
    "jget ''index'' ?v = Some (json_u32 (cho_index ch))"
    "jget ''finish_reason'' ?v = map_option JStr (cho_finish_reason ch)"
    by (simp_all add: chat_choice_to_json_def obj_lookup)
  then show ?thesis
    using assms chat_message_back [of "cho_message ch" js c] finish_back [OF _ get(4)]
    by (simp add: chat_parse_choice_def chat_choice_ok_def index_of_back del: jidx_JObj)
qed

lemma chat_usage_opt_back:
  assumes "usage_opt_ok u" "chat_usage_opt u c = (j, c')"
  shows "map_option chat_parse_usage j = u" "c' = c" "j \<noteq> Some JNull"
  using assms
  by (cases u; force simp: usage_opt_ok_def chat_usage_opt_def dest: chat_usage_back
      chat_usage_printed split: prod.splits)+

lemma chat_response_back:
  assumes ok: "chat_response_ok r" and json: "chat_response_from_ir r ctx = (Inr v, ctx')"
  shows "ctx' = ctx"
    "chat_response_to_ir js v c =
       (Inr r, fold (role_note \<circ> msg_role \<circ> cho_message) (rsp_choices r) c)"
proof -
  obtain usage where u: "chat_usage_opt (rsp_usage r) ctx = (usage, ctx')"
    using json by (auto simp: chat_response_from_ir_def split: prod.splits)
  note u_ok = chat_usage_opt_back [OF _ u]
  show "ctx' = ctx" using ok u_ok(2) by (simp add: chat_response_ok_def)
  define fs where "fs =
     [(''id'', Some (JStr (rsp_id r))), (''model'', Some (JStr (rsp_model r))),
      (''created'', Some (json_i64 (rsp_created r))),
      (''system_fingerprint'', map_option JStr (rsp_system_fingerprint r)),
      (''choices'', Some (JArr (map chat_choice_to_json (rsp_choices r)))), (''usage'', usage)]"
  let ?m = "obj_insert_fields fs (rsp_extra r)"
  have v: "v = JObj ?m" using json u by (simp add: chat_response_from_ir_def fs_def)
  have "extra_ok chat_known_response_fields (rsp_extra r)"
    and "set (map fst fs) \<subseteq> set chat_known_response_fields" "distinct (map fst fs)"
    using ok by (auto simp: chat_response_ok_def fs_def chat_known_response_fields_def)
  note p = printed_get [OF this]
  have g: "obj_get ''id'' ?m = Some (JStr (rsp_id r))"
    "obj_get ''model'' ?m = Some (JStr (rsp_model r))"
    "obj_get ''created'' ?m = Some (json_i64 (rsp_created r))"
    "obj_get ''system_fingerprint'' ?m = map_option JStr (rsp_system_fingerprint r)"
    "obj_get ''choices'' ?m = Some (JArr (map chat_choice_to_json (rsp_choices r)))"
    "obj_get ''usage'' ?m = usage"
    by (simp_all add: p(1) chat_known_response_fields_def) (simp_all add: fs_def)
  have "try_map_ctx (chat_parse_choice js) (map chat_choice_to_json (rsp_choices r)) c =
      (Inr (rsp_choices r), fold (role_note \<circ> msg_role \<circ> cho_message) (rsp_choices r) c)"
    using ok by (intro try_map_ctx_inverse) (auto simp: chat_response_ok_def list_all_iff chat_choice_back)
  then show "chat_response_to_ir js v c =
      (Inr r, fold (role_note \<circ> msg_role \<circ> cho_message) (rsp_choices r) c)"
    using ok u_ok(1)
    by (cases "rsp_system_fingerprint r")
      (simp_all add: v chat_response_to_ir_def g p(2) chat_response_ok_def)
qed

section \<open>Stream chunks\<close>

definition delta_note :: "ir_delta \<Rightarrow> conv_ctx \<Rightarrow> conv_ctx" where
  "delta_note d = (case dl_role d of None \<Rightarrow> id | Some r \<Rightarrow> role_note r)"

lemma chat_tool_call_delta_back:
  "chat_parse_tool_call_delta (chat_tool_call_delta_to_json t) c = (Some t, c)"
proof -
  let ?v = "chat_tool_call_delta_to_json t"
  have "is_object ?v" "jget ''index'' ?v = Some (json_u32 (tcd_index t))"
    "as_str (jidx ?v ''id'') = tcd_id t"
    "as_str (jidx (jidx ?v ''function'') ''name'') = tcd_name t"
    "as_str (jidx (jidx ?v ''function'') ''arguments'') = tcd_arguments t"
    by (cases "tcd_id t"; cases "tcd_name t"; cases "tcd_arguments t";
        simp add: chat_tool_call_delta_to_json_def json_object_with_def obj_lookup)+
  then show ?thesis by (simp add: chat_parse_tool_call_delta_def index_of_back)
qed

lemma chat_delta_back: "chat_parse_delta (chat_delta_to_json d) c = (d, delta_note d c)"
proof -
  let ?v = "chat_delta_to_json d"
  have get: "as_str (jidx ?v ''role'') = map_option role_to_str (dl_role d)"
    "as_str (jidx ?v ''content'') = dl_content d"
    "as_str (jidx ?v ''reasoning_content'') = dl_reasoning_content d"
    "Option.bind (jget ''tool_calls'' ?v) as_array =
       (if dl_tool_calls d = [] then None
        else Some (map chat_tool_call_delta_to_json (dl_tool_calls d)))"
    by (cases "dl_role d"; cases "dl_content d"; cases "dl_reasoning_content d";
        simp add: chat_delta_to_json_def obj_lookup)+
  have calls: "filter_map_ctx chat_parse_tool_call_delta
      (map chat_tool_call_delta_to_json ts) c = (ts, c)" for ts c
    using filter_map_ctx_inverse [of ts chat_parse_tool_call_delta chat_tool_call_delta_to_json "\<lambda>_ c. c"]
    by (simp add: chat_tool_call_delta_back fold_const)
  show ?thesis
    unfolding chat_parse_delta_def get
    by (cases "dl_role d") (simp_all add: calls chat_parse_role_back delta_note_def)
qed

lemma chat_chunk_choice_back:
  assumes "finish_ok (cc_finish_reason ch)"
  shows "chat_parse_chunk_choice (chat_chunk_choice_to_json ch) c = (Inr ch, delta_note (cc_delta ch) c)"
proof -
  let ?v = "chat_chunk_choice_to_json ch"
  have get: "is_object ?v" "jget ''delta'' ?v = Some (chat_delta_to_json (cc_delta ch))"
    "jget ''index'' ?v = Some (json_u32 (cc_index ch))"
    "jget ''finish_reason'' ?v = map_option JStr (cc_finish_reason ch)"
    by (simp_all add: chat_chunk_choice_to_json_def obj_lookup)
  then show ?thesis
    using finish_back [OF assms get(4)]
    by (simp add: chat_parse_chunk_choice_def index_of_back chat_delta_back)
qed

definition chat_chunk_ok :: "ir_chunk \<Rightarrow> bool" where
  "chat_chunk_ok k \<longleftrightarrow>
     list_all (\<lambda>ch. finish_ok (cc_finish_reason ch)) (chk_choices k) \<and> usage_opt_ok (chk_usage k) \<and>
     extra_ok chat_known_chunk_fields (chk_extra k)"

lemma chat_chunk_back:
  assumes ok: "chat_chunk_ok k" and json: "chat_chunk_to_value k ctx = (v, ctx')"
  shows "ctx' = ctx"
    "chat_chunk_value_to_ir v c = (Inr (Some k), fold (delta_note \<circ> cc_delta) (chk_choices k) c)"
proof -
  obtain usage where u: "chat_usage_opt (chk_usage k) ctx = (usage, ctx')"
    using json by (auto simp: chat_chunk_to_value_def split: prod.splits)
  note u_ok = chat_usage_opt_back [OF _ u]
  show "ctx' = ctx" using ok u_ok(2) by (simp add: chat_chunk_ok_def)
  define fs where "fs =
     [(''id'', Some (JStr (chk_id k))), (''model'', Some (JStr (chk_model k))),
      (''created'', Some (json_i64 (chk_created k))),
      (''choices'', Some (JArr (map chat_chunk_choice_to_json (chk_choices k)))), (''usage'', usage)]"
  let ?m = "obj_insert_fields fs (chk_extra k)"
  have v: "v = JObj ?m" using json u by (simp add: chat_chunk_to_value_def fs_def)
  have "extra_ok chat_known_chunk_fields (chk_extra k)"
    and "set (map fst fs) \<subseteq> set chat_known_chunk_fields" "distinct (map fst fs)"
    using ok by (auto simp: chat_chunk_ok_def fs_def chat_known_chunk_fields_def)
  note p = printed_get [OF this]
  have g: "obj_get ''id'' ?m = Some (JStr (chk_id k))"
    "obj_get ''model'' ?m = Some (JStr (chk_model k))"
    "obj_get ''created'' ?m = Some (json_i64 (chk_created k))"
    "obj_get ''choices'' ?m = Some (JArr (map chat_chunk_choice_to_json (chk_choices k)))"
    "obj_get ''usage'' ?m = usage"
    by (simp_all add: p(1) chat_known_chunk_fields_def) (simp_all add: fs_def)
  have usage: "(case usage of None \<Rightarrow> None
      | Some j \<Rightarrow> if is_null j then None else Some (chat_parse_usage j)) = chk_usage k"
    using ok u_ok by (cases usage) (auto simp: chat_chunk_ok_def elim!: is_null.elims)
  have "try_map_ctx chat_parse_chunk_choice (map chat_chunk_choice_to_json (chk_choices k)) c =
      (Inr (chk_choices k), fold (delta_note \<circ> cc_delta) (chk_choices k) c)"
    using ok by (intro try_map_ctx_inverse) (auto simp: chat_chunk_ok_def list_all_iff chat_chunk_choice_back)
  then show "chat_chunk_value_to_ir v c =
      (Inr (Some k), fold (delta_note \<circ> cc_delta) (chk_choices k) c)"
    by (simp add: v chat_chunk_value_to_ir_def g p(2) usage)
qed

section \<open>Properties\<close>

definition sample_message :: ir_message where
  "sample_message = default_message\<lparr>msg_role := RoleAssistant, msg_content := Some (ContentText ''hi'')\<rparr>"

text \<open>
  C20: a request that fits the Chat protocol (\<open>chat_request_ok\<close>: its extension fields are empty,
  its unknown fields are apart from the known ones, its numbers are representable) is written
  and read back unchanged by \<open>request_from_ir\<close> and \<open>request_to_ir\<close>: messages with all kinds of
  parts, tool calls, tools, tool choice, sampling parameters, the token limit under its own
  field name, stop words, stream options and unknown fields. Writing logs nothing; reading logs
  one note per message of role user (\<open>role_note\<close>).
\<close>

theorem chat_request_roundtrip:
  assumes "chat_request_ok req"
  shows "\<exists>v. chat_request_from_ir req ctx = (Inr v, ctx) \<and>
    chat_request_to_ir js v c = (Inr req, fold (role_note \<circ> msg_role) (req_messages req) c)"
proof -
  obtain v ctx' where v: "chat_request_from_ir req ctx = (Inr v, ctx')"
    by (simp add: chat_request_from_ir_def)
  from chat_request_back [OF assms v] v show ?thesis by auto
qed

definition sample_request :: ir_request where
  "sample_request = default_request
     \<lparr>req_model := ''m'', req_messages := [sample_message], req_max_tokens := Some 7,
      req_max_tokens_field := Some MaxCompletionTokens, req_n := Some 2,
      req_extra := [(''logit_bias'', JNull)]\<rparr>"

lemma chat_request_roundtrip_witness:
  "\<exists>v. chat_request_from_ir sample_request [] = (Inr v, []) \<and>
    chat_request_to_ir \<lparr>to_text = (\<lambda>_. []), from_text = (\<lambda>_. Inl [])\<rparr> v [] = (Inr sample_request, [])"
  using chat_request_roundtrip [of sample_request "[]" _ "[]"]
  by (simp add: sample_request_def default_request_def chat_request_ok_def sample_message_def
      default_message_def obj_ok_def chat_known_request_fields_def role_note_def)

text \<open>
  C21: a response with normalised finish reasons and fitting usage is written and read back
  unchanged by \<open>response_from_ir\<close> and \<open>response_to_ir\<close>, with all choices, the usage, the
  fingerprint and the unknown fields.
\<close>

theorem chat_response_roundtrip:
  assumes "chat_response_ok r"
  shows "\<exists>v. chat_response_from_ir r ctx = (Inr v, ctx) \<and>
    chat_response_to_ir js v c =
      (Inr r, fold (role_note \<circ> msg_role \<circ> cho_message) (rsp_choices r) c)"
proof -
  have "\<exists>v ctx'. chat_response_from_ir r ctx = (Inr v, ctx')"
    by (auto simp: chat_response_from_ir_def split: prod.splits)
  then obtain v ctx' where v: "chat_response_from_ir r ctx = (Inr v, ctx')" by blast
  from chat_response_back [OF assms v] v show ?thesis by auto
qed

definition sample_response :: ir_response where
  "sample_response = default_response
     \<lparr>rsp_id := ''r'', rsp_created := 5,
      rsp_choices := [\<lparr>cho_index = 0, cho_message = sample_message, cho_finish_reason = Some ''stop''\<rparr>],
      rsp_usage := Some (default_usage\<lparr>us_prompt_tokens := 3, us_cache_read_tokens := Some 4\<rparr>)\<rparr>"

lemma chat_response_roundtrip_witness:
  "\<exists>v. chat_response_from_ir sample_response [] = (Inr v, []) \<and>
    chat_response_to_ir \<lparr>to_text = (\<lambda>_. []), from_text = (\<lambda>_. Inl [])\<rparr> v [] = (Inr sample_response, [])"
  using chat_response_roundtrip [of sample_response "[]" _ "[]"]
  by (simp add: sample_response_def default_response_def chat_response_ok_def sample_message_def
      default_message_def chat_choice_ok_def finish_ok_def usage_opt_ok_def chat_usage_ok_def
      default_usage_def extra_ok_def normalize_finish_reason_def normalize_words role_note_def)

text \<open>
  C22: a stream chunk that fits is sent by \<open>chunk_from_ir\<close> as one payload, which \<open>chunk_to_ir\<close>
  reads back as the same chunk (deltas, tool call deltas, finish reasons, usage, unknown
  fields), given that the JSON library parses what it printed and that this is not the text of
  the end marker.
\<close>

theorem chat_chunk_roundtrip:
  assumes "chat_chunk_ok k"
    and "\<And>v. v = fst (chat_chunk_to_value k ctx) \<Longrightarrow>
      from_text js (to_text js v) = Inr v \<and> trim (to_text js v) \<noteq> ''[DONE]''"
  shows "\<exists>data. chat_chunk_from_ir js k ctx = (Inr [data], ctx) \<and>
    chat_chunk_to_ir js data c = (Inr (Some k), fold (delta_note \<circ> cc_delta) (chk_choices k) c)"
proof -
  obtain v ctx' where v: "chat_chunk_to_value k ctx = (v, ctx')" by force
  note chunk = chat_chunk_back [OF assms(1) v]
  have "from_text js (to_text js v) = Inr v" "trim (to_text js v) \<noteq> ''[DONE]''"
    using assms(2) [of v] v by simp_all
  then show ?thesis using v chunk by (simp add: chat_chunk_from_ir_def chat_chunk_to_ir_def)
qed

definition sample_chat_chunk :: ir_chunk where
  "sample_chat_chunk = default_chunk
     \<lparr>chk_id := ''c'',
      chk_choices := [\<lparr>cc_index = 0, cc_delta = default_delta\<lparr>dl_content := Some ''hi''\<rparr>,
                       cc_finish_reason = Some ''length''\<rparr>]\<rparr>"

definition sample_json_text :: json_text where
  "sample_json_text =
     \<lparr>to_text = (\<lambda>v. ''{}''), from_text = (\<lambda>s. Inr (fst (chat_chunk_to_value sample_chat_chunk [])))\<rparr>"

lemma chat_chunk_roundtrip_witness:
  "\<exists>data. chat_chunk_from_ir sample_json_text sample_chat_chunk [] = (Inr [data], []) \<and>
    chat_chunk_to_ir sample_json_text data [] = (Inr (Some sample_chat_chunk), [])"
proof -
  have "chat_chunk_ok sample_chat_chunk"
    by (simp add: sample_chat_chunk_def default_chunk_def chat_chunk_ok_def finish_ok_def
        normalize_finish_reason_def normalize_words usage_opt_ok_def extra_ok_def)
  moreover have "trim ''{}'' \<noteq> ''[DONE]''" by code_simp
  ultimately show ?thesis
    using chat_chunk_roundtrip [of sample_chat_chunk "[]" sample_json_text "[]"]
    by (simp add: sample_json_text_def sample_chat_chunk_def delta_note_def default_delta_def)
qed

text \<open>
  The usage conversion loses nothing when the numbers fit in 64 bits: cached tokens are
  taken out of the prompt tokens on the way in and put back on the way out, and the details and
  unknown fields stay as they were.
\<close>

theorem chat_usage_roundtrip:
  assumes "chat_usage_ok u"
  shows "chat_parse_usage (fst (chat_usage_to_json u c)) = u \<and> snd (chat_usage_to_json u c) = c"
proof -
  obtain v c' where "chat_usage_to_json u c = (v, c')" by force
  with chat_usage_back [OF assms this] show ?thesis by simp
qed

definition sample_usage :: ir_usage where
  "sample_usage = default_usage
     \<lparr>us_prompt_tokens := 100, us_cache_read_tokens := Some 28, us_total_tokens := Some 150,
      us_extra := [(''completion_tokens_details'', JObj [(''reasoning_tokens'', json_u64 9)]),
                   (''reasoning_tokens'', json_u64 9)]\<rparr>"

lemma chat_usage_roundtrip_witness:
  "chat_parse_usage (fst (chat_usage_to_json sample_usage [])) = sample_usage"
proof -
  have "chat_usage_ok sample_usage"
    by (simp add: sample_usage_def default_usage_def chat_usage_ok_def obj_ok_def)
  then show ?thesis using chat_usage_roundtrip by blast
qed

text \<open>
  \<open>parse_role\<close> has no arm for the role user: an ordinary message of a user goes through the
  arm for unknown roles, so every such message is reported as a degradation of
  \<open>message.role\<close> (and shows in the \<open>X-NextAPI-Degraded\<close> header), while a missing role, which
  means user too, is not.
\<close>

theorem user_role_reported:
  "chat_parse_role (Some ''user'') c =
     (RoleUser, c @ [\<lparr>deg_field = ''message.role'',
                      deg_reason = ''unknown role, treated as user: user''\<rparr>])
   \<and> chat_parse_role None c = (RoleUser, c)
   \<and> degraded_header (snd (chat_parse_role (Some ''user'') [])) = Some ''message.role''"
  by (simp add: chat_parse_role_def degrade_def degraded_header_def)

text \<open>
  \<open>usage_to_json\<close> removes the two Responses-style details with a short-circuiting \<open>||\<close>:
  when both are there, only the output details are removed and the input details stay in the
  Chat usage.
\<close>

theorem usage_details_left:
  assumes "us_extra u = [(''input_tokens_details'', a), (''output_tokens_details'', b)]"
  shows "jget ''input_tokens_details'' (fst (chat_usage_to_json u c)) = Some a \<and>
    jget ''output_tokens_details'' (fst (chat_usage_to_json u c)) = None"
  using assms by (simp add: chat_usage_to_json_def obj_lookup Let_def)

lemma usage_details_left_witness:
  "jget ''input_tokens_details''
     (fst (chat_usage_to_json (default_usage
        \<lparr>us_extra := [(''input_tokens_details'', JNull), (''output_tokens_details'', JNull)]\<rparr>) [])) =
   Some JNull"
  using usage_details_left [of "default_usage
      \<lparr>us_extra := [(''input_tokens_details'', JNull), (''output_tokens_details'', JNull)]\<rparr>" JNull JNull "[]"]
  by simp

end
