(* ===== verification/Anthropic.thy ===== *)
theory Anthropic
  imports Ir
begin

text \<open>
  The Anthropic Messages adapter, \<open>src/protocol/anthropic.rs\<close>: requests and responses in both
  directions. The stream conversion is in the theory AnthropicStream. Conversions take the
  degradation log and return it with what they add; \<open>serde_json\<close>'s printer and parser are the
  argument \<open>js\<close>.
\<close>

section \<open>Requests: JSON to IR\<close>

definition anth_default_max_tokens :: u64 where
  "anth_default_max_tokens = 65536"

definition anth_known_request_fields :: "string list" where
  "anth_known_request_fields =
     [''model'', ''system'', ''messages'', ''tools'', ''tool_choice'', ''temperature'', ''top_p'',
      ''top_k'', ''stop_sequences'', ''max_tokens'', ''stream'', ''metadata'', ''thinking'']"

definition anth_known_response_fields :: "string list" where
  "anth_known_response_fields =
     [''id'', ''type'', ''role'', ''content'', ''model'', ''stop_reason'', ''stop_sequence'',
      ''usage'']"

definition parts_content :: "ir_part list \<Rightarrow> ir_content option" where
  "parts_content parts =
     (case parts of
        [] \<Rightarrow> None
      | [PartText text] \<Rightarrow> Some (ContentText text)
      | _ \<Rightarrow> Some (ContentParts parts))"

definition input_to_arguments :: "json_text \<Rightarrow> json \<Rightarrow> string" where
  "input_to_arguments js input =
     (case input of JStr s \<Rightarrow> s | JNull \<Rightarrow> [] | _ \<Rightarrow> to_text js input)"

definition tool_result_text :: "json option \<Rightarrow> string" where
  "tool_result_text content =
     (case content of
        Some (JStr s) \<Rightarrow> s
      | Some (JArr arr) \<Rightarrow> concat (List.map_filter (\<lambda>b. as_str (jidx b ''text'')) arr)
      | _ \<Rightarrow> [])"

text \<open>
  \<open>parse_system\<close>: the loop over the blocks collects the text and keeps the first
  \<open>cache_control\<close>.
\<close>

definition system_block ::
  "json \<Rightarrow> string \<times> json option \<times> conv_ctx \<Rightarrow> string \<times> json option \<times> conv_ctx" where
  "system_block block acc =
     (let (buf, cache, ctx) = acc;
          ty = str_or_empty (jidx block ''type'');
          (buf', ctx') =
            (if ty = ''text'' then (buf @ str_or_empty (jidx block ''text''), ctx)
             else (buf, degrade ''system.block.type'' (''unknown system block type: '' @ ty) ctx))
      in (buf', or_else cache (jget ''cache_control'' block), ctx'))"

definition parse_system :: "json \<Rightarrow> ir_request \<Rightarrow> conv_ctx \<Rightarrow> ir_request \<times> conv_ctx" where
  "parse_system sys req ctx =
     (let push =
        (\<lambda>text cache ctx.
           let req' = req\<lparr>req_ext := (req_ext req)\<lparr>ext_cache_control := cache\<rparr>\<rparr>
           in (if text = [] \<and> cache = None then (req', ctx)
               else (req'\<lparr>req_messages := req_messages req' @
                       [default_message\<lparr>msg_role := RoleSystem,
                                        msg_content := Some (ContentText text)\<rparr>]\<rparr>, ctx)))
      in (case sys of
            JNull \<Rightarrow> (req, ctx)
          | JStr s \<Rightarrow> push s (ext_cache_control (req_ext req)) ctx
          | JArr arr \<Rightarrow>
              (let (buf, cache, ctx') =
                 fold system_block arr ([], ext_cache_control (req_ext req), ctx)
               in push buf cache ctx')
          | _ \<Rightarrow> (req, degrade ''system'' ''system is neither a string nor an array, dropped'' ctx)))"

text \<open>What the loop over the content blocks of a message collects.\<close>

record block_acc =
  ba_parts :: "ir_part list"
  ba_tool_calls :: "ir_tool_call list"
  ba_reasoning :: "string option"
  ba_tool_msgs :: "ir_message list"
  ba_ext :: ir_ext
  ba_ctx :: conv_ctx

definition ba_degrade :: "string \<Rightarrow> string \<Rightarrow> block_acc \<Rightarrow> block_acc" where
  "ba_degrade field reason a = a\<lparr>ba_ctx := degrade field reason (ba_ctx a)\<rparr>"

definition ba_push :: "ir_part \<Rightarrow> block_acc \<Rightarrow> block_acc" where
  "ba_push p a = a\<lparr>ba_parts := ba_parts a @ [p]\<rparr>"

definition anth_tool_call :: "json_text \<Rightarrow> json \<Rightarrow> ir_tool_call" where
  "anth_tool_call js block =
     \<lparr>tc_id = str_or_empty (jidx block ''id''), tc_name = str_or_empty (jidx block ''name''),
      tc_arguments = input_to_arguments js (jidx block ''input'')\<rparr>"

definition image_block :: "json \<Rightarrow> block_acc \<Rightarrow> block_acc" where
  "image_block src a =
     (let ty = str_or_empty (jidx src ''type'')
      in if ty = ''base64'' then
           ba_push (PartImageInline (str_or_empty (jidx src ''media_type''))
                      (str_or_empty (jidx src ''data''))) a
         else if ty = ''url'' then ba_push (PartImageUrl (str_or_empty (jidx src ''url''))) a
         else ba_degrade ''content.block.image.source'' (''unknown image source: '' @ ty) a)"

definition tool_result_message :: "json \<Rightarrow> block_acc \<Rightarrow> block_acc" where
  "tool_result_message block a =
     (let a1 = (if unwrap_or False (as_bool (jidx block ''is_error''))
                then ba_degrade ''tool_result.is_error'' ''is_error has no IR slot, dropped'' a
                else a);
          a2 = (case Option.bind (jget ''content'' block) as_array of
                  None \<Rightarrow> a1
                | Some arr \<Rightarrow>
                    if list_ex (\<lambda>b. as_str (jidx b ''type'') \<noteq> Some ''text'') arr
                    then ba_degrade ''tool_result.content''
                           ''only text blocks of a tool_result are kept'' a1
                    else a1)
      in a2\<lparr>ba_tool_msgs := ba_tool_msgs a2 @
             [default_message\<lparr>msg_role := RoleTool,
                msg_tool_call_id := Some (str_or_empty (jidx block ''tool_use_id'')),
                msg_content := Some (ContentText (tool_result_text (jget ''content'' block)))\<rparr>]\<rparr>)"

definition thinking_message :: "json \<Rightarrow> block_acc \<Rightarrow> block_acc" where
  "thinking_message block a =
     (let a1 = a\<lparr>ba_reasoning := Some (str_or_empty (jidx block ''thinking''))\<rparr>
      in (case as_str (jidx block ''signature'') of
            None \<Rightarrow> a1
          | Some sig \<Rightarrow>
              a1\<lparr>ba_ext := (ba_ext a1)\<lparr>ext_extra :=
                    obj_insert ''thinking_signature'' (JStr sig) (ext_extra (ba_ext a1))\<rparr>\<rparr>))"

definition anth_block :: "json_text \<Rightarrow> json \<Rightarrow> block_acc \<Rightarrow> block_acc" where
  "anth_block js block a =
     (if \<not> is_object block then a
      else
        (let a1 = (if jget ''cache_control'' block \<noteq> None
                   then ba_degrade ''content.cache_control''
                          ''cache_control outside system not supported, dropped'' a
                   else a);
             ty = str_or_empty (jidx block ''type'')
         in if ty = ''text'' then ba_push (PartText (str_or_empty (jidx block ''text''))) a1
            else if ty = ''image'' then image_block (jidx block ''source'') a1
            else if ty = ''tool_use'' then
              a1\<lparr>ba_tool_calls := ba_tool_calls a1 @ [anth_tool_call js block]\<rparr>
            else if ty = ''tool_result'' then tool_result_message block a1
            else if ty = ''thinking'' then thinking_message block a1
            else ba_degrade ''content.block.type'' (''unknown block type: '' @ ty) a1))"

text \<open>The context of the message loop is the request's \<open>ext\<close> and the log.\<close>

definition parse_anth_message ::
  "json_text \<Rightarrow> json \<Rightarrow> ir_ext \<times> conv_ctx \<Rightarrow>
   (convert_error + ir_message list) \<times> (ir_ext \<times> conv_ctx)" where
  "parse_anth_message js msg c =
     (let (ext, ctx) = c in
      if \<not> is_object msg then (Inl (ParseError ''message is not an object''), c)
      else
        (let role = str_or_empty (jidx msg ''role'');
             (r, ctx1) =
               (if role = ''user'' then (RoleUser, ctx)
                else if role = ''assistant'' then (RoleAssistant, ctx)
                else (RoleUser,
                      degrade ''message.role'' (''unknown role, treated as user: '' @ role) ctx))
         in (case jget ''content'' msg of
               Some (JStr s) \<Rightarrow>
                 (Inr [default_message\<lparr>msg_role := r, msg_content := Some (ContentText s)\<rparr>],
                  (ext, ctx1))
             | Some (JArr arr) \<Rightarrow>
                 (let a = fold (anth_block js) arr
                        \<lparr>ba_parts = [], ba_tool_calls = [], ba_reasoning = None,
                         ba_tool_msgs = [], ba_ext = ext, ba_ctx = ctx1\<rparr>;
                      main = default_message\<lparr>msg_role := r,
                               msg_content := parts_content (ba_parts a),
                               msg_tool_calls := ba_tool_calls a,
                               msg_reasoning_content := ba_reasoning a\<rparr>;
                      keep = msg_content main \<noteq> None \<or> msg_tool_calls main \<noteq> [] \<or>
                             msg_reasoning_content main \<noteq> None
                  in (Inr ((if keep then [main] else []) @ ba_tool_msgs a),
                      (ba_ext a, ba_ctx a)))
             | _ \<Rightarrow> (Inr [default_message\<lparr>msg_role := r\<rparr>], (ext, ctx1)))))"

definition anth_parse_tool :: "json \<Rightarrow> conv_ctx \<Rightarrow> ir_tool option \<times> conv_ctx" where
  "anth_parse_tool t ctx =
     (if \<not> is_object t then (None, ctx)
      else
        (Some
           \<lparr>tool_name = str_or_empty (jidx t ''name''),
            tool_description = as_str (jidx t ''description''),
            tool_parameters = unwrap_or (JObj []) (jget ''input_schema'' t)\<rparr>,
         if jget ''cache_control'' t \<noteq> None
         then degrade ''tools.cache_control'' ''cache_control of a tool not supported, dropped'' ctx
         else ctx))"

definition anth_parse_tools ::
  "json \<Rightarrow> conv_ctx \<Rightarrow> (convert_error + ir_tool list) \<times> conv_ctx" where
  "anth_parse_tools v ctx =
     (case as_array v of
        None \<Rightarrow> (Inl (ParseError ''tools is not an array''), ctx)
      | Some arr \<Rightarrow> (let (ts, ctx') = filter_map_ctx anth_parse_tool arr ctx in (Inr ts, ctx')))"

definition anth_parse_tool_choice :: "json \<Rightarrow> json option" where
  "anth_parse_tool_choice tc =
     (if is_null tc then None
      else
        (let ty = str_or_empty (jidx tc ''type'')
         in if ty = ''auto'' then Some (JStr ''auto'')
            else if ty = ''any'' then Some (JStr ''required'')
            else if ty = ''none'' then Some (JStr ''none'')
            else if ty = ''tool'' then
              Some (json_obj
                [(''type'', JStr ''function''),
                 (''function'',
                   json_obj [(''name'', JStr (str_or_empty (jidx tc ''name'')))])])
            else Some tc))"

definition parse_stop_sequences :: "json option \<Rightarrow> string list option" where
  "parse_stop_sequences v =
     (case v of
        Some (JStr s) \<Rightarrow> Some [s]
      | Some (JArr arr) \<Rightarrow> Some (List.map_filter as_str arr)
      | _ \<Rightarrow> None)"

definition degrade_metadata :: "json \<Rightarrow> conv_ctx \<Rightarrow> conv_ctx" where
  "degrade_metadata v ctx =
     (case Option.bind (jget ''metadata'' v) as_object of
        None \<Rightarrow> ctx
      | Some md \<Rightarrow>
          fold (\<lambda>k. if k = ''user_id'' then id
                    else degrade (''metadata.'' @ k)
                           ''only user_id of metadata has an IR slot, other keys dropped'')
            (obj_keys md) ctx)"

definition parse_top_k :: "json \<Rightarrow> ir_ext \<Rightarrow> conv_ctx \<Rightarrow> ir_ext \<times> conv_ctx" where
  "parse_top_k v ext ctx =
     (case as_u64 (jidx v ''top_k'') of
        None \<Rightarrow> (ext, ctx)
      | Some k \<Rightarrow>
          (case u32_try_from k of
             Some n \<Rightarrow> (ext\<lparr>ext_top_k := Some n\<rparr>, ctx)
           | None \<Rightarrow> (ext, degrade ''top_k'' ''out of the u32 range, dropped'' ctx)))"

definition anth_request_to_ir ::
  "json_text \<Rightarrow> json \<Rightarrow> conv_ctx \<Rightarrow> (convert_error + ir_request) \<times> conv_ctx" where
  "anth_request_to_ir js v ctx =
     (case as_object v of
        None \<Rightarrow> (Inl (ParseError ''request body is not an object''), ctx)
      | Some obj \<Rightarrow>
         (let req0 = default_request\<lparr>req_model := str_or_empty (jidx v ''model'')\<rparr>;
              (req1, ctx1) =
                (case jget ''system'' v of None \<Rightarrow> (req0, ctx) | Some sys \<Rightarrow> parse_system sys req0 ctx)
          in (case (case jget ''messages'' v of
                      None \<Rightarrow> (Inr [], (req_ext req1, ctx1))
                    | Some (JArr arr) \<Rightarrow>
                        try_map_ctx (parse_anth_message js) arr (req_ext req1, ctx1)
                    | Some _ \<Rightarrow>
                        (Inl (ParseError ''messages is not an array''), (req_ext req1, ctx1))) of
                (Inl e, (ext, ctx2)) \<Rightarrow> (Inl e, ctx2)
              | (Inr msgss, (ext, ctx2)) \<Rightarrow>
                 (let (ext2, ctx3) = parse_top_k v ext ctx2
                  in (case (case jget ''tools'' v of
                              None \<Rightarrow> (Inr [], ctx3) | Some ts \<Rightarrow> anth_parse_tools ts ctx3) of
                        (Inl e, ctx4) \<Rightarrow> (Inl e, ctx4)
                      | (Inr tools, ctx4) \<Rightarrow>
                         (Inr (req1
                            \<lparr>req_messages := req_messages req1 @ concat msgss,
                             req_max_tokens := as_u64 (jidx v ''max_tokens''),
                             req_stop := parse_stop_sequences (jget ''stop_sequences'' v),
                             req_temperature := as_f64 (jidx v ''temperature''),
                             req_top_p := as_f64 (jidx v ''top_p''),
                             req_stream := unwrap_or False (as_bool (jidx v ''stream'')),
                             req_tools := tools,
                             req_tool_choice :=
                               Option.bind (jget ''tool_choice'' v) anth_parse_tool_choice,
                             req_user := as_str (jidx (jidx v ''metadata'') ''user_id''),
                             req_ext := ext2\<lparr>ext_thinking := jget ''thinking'' v\<rparr>,
                             req_extra :=
                               obj_collect (\<lambda>k. k \<notin> set anth_known_request_fields) obj []\<rparr>),
                          degrade_metadata v ctx4))))))"

section \<open>Requests: IR to JSON\<close>

definition text_block :: "string \<Rightarrow> json" where
  "text_block text = json_obj [(''type'', JStr ''text''), (''text'', JStr text)]"

definition part_to_anth_block :: "ir_part \<Rightarrow> conv_ctx \<Rightarrow> json option \<times> conv_ctx" where
  "part_to_anth_block p ctx =
     (case p of
        PartText text \<Rightarrow> (Some (text_block text), ctx)
      | PartImageUrl url \<Rightarrow>
          (Some (json_obj
             [(''type'', JStr ''image''),
              (''source'', json_obj [(''type'', JStr ''url''), (''url'', JStr url)])]), ctx)
      | PartImageInline media data \<Rightarrow>
          (Some (json_obj
             [(''type'', JStr ''image''),
              (''source'', json_obj [(''type'', JStr ''base64''), (''media_type'', JStr media),
                                     (''data'', JStr data)])]), ctx)
      | PartInputAudio _ _ \<Rightarrow>
          (None, degrade ''content.input_audio'' ''Anthropic does not support audio'' ctx)
      | PartFile _ _ _ \<Rightarrow>
          (None, degrade ''content.file'' ''Anthropic does not support files'' ctx))"

definition content_to_anthropic_blocks ::
  "ir_content \<Rightarrow> conv_ctx \<Rightarrow> json list \<times> conv_ctx" where
  "content_to_anthropic_blocks content ctx =
     (case content of
        ContentText s \<Rightarrow> ([text_block s], ctx)
      | ContentParts parts \<Rightarrow> filter_map_ctx part_to_anth_block parts ctx)"

definition content_opt_blocks ::
  "ir_content option \<Rightarrow> conv_ctx \<Rightarrow> json list \<times> conv_ctx" where
  "content_opt_blocks content ctx =
     (case content of None \<Rightarrow> ([], ctx) | Some c \<Rightarrow> content_to_anthropic_blocks c ctx)"

text \<open>The signature of all thinking blocks is the one under this key of the extra map.\<close>

definition thinking_block :: "string \<Rightarrow> jmap \<Rightarrow> json" where
  "thinking_block rc extra =
     (let b = [(''type'', JStr ''thinking''), (''thinking'', JStr rc)]
      in (case Option.bind (obj_get ''thinking_signature'' extra) as_str of
            None \<Rightarrow> json_obj b
          | Some sig \<Rightarrow> json_obj (b @ [(''signature'', JStr sig)])))"

definition tool_use_block :: "json_text \<Rightarrow> ir_tool_call \<Rightarrow> json" where
  "tool_use_block js tc =
     (let input = (case from_text js (tc_arguments tc) of
                     Inl _ \<Rightarrow> JStr (tc_arguments tc) | Inr v \<Rightarrow> v)
      in json_obj [(''type'', JStr ''tool_use''), (''id'', JStr (tc_id tc)),
                   (''name'', JStr (tc_name tc)), (''input'', input)])"

definition tool_result_block :: "ir_message \<Rightarrow> conv_ctx \<Rightarrow> json \<times> conv_ctx" where
  "tool_result_block m ctx =
     (let (content, ctx') =
        (case msg_content m of
           Some (ContentText s) \<Rightarrow> (JStr s, ctx)
         | Some (ContentParts parts) \<Rightarrow>
             (let (bs, c) = filter_map_ctx part_to_anth_block parts ctx in (JArr bs, c))
         | None \<Rightarrow> (JStr [], ctx))
      in (json_obj
            [(''type'', JStr ''tool_result''),
             (''tool_use_id'', JStr (unwrap_or [] (msg_tool_call_id m))),
             (''content'', content)],
          ctx'))"

definition system_texts :: "ir_message list \<Rightarrow> string list" where
  "system_texts ms =
     concat (map (\<lambda>m.
       if msg_role m \<noteq> RoleSystem then []
       else (case msg_content m of
               Some (ContentText s) \<Rightarrow> [s]
             | Some (ContentParts ps) \<Rightarrow>
                 List.map_filter (\<lambda>p. case p of PartText t \<Rightarrow> Some t | _ \<Rightarrow> None) ps
             | None \<Rightarrow> [])) ms)"

definition system_to_anthropic :: "ir_request \<Rightarrow> json option" where
  "system_to_anthropic req =
     (let parts = system_texts (req_messages req)
      in if parts = [] then None
         else (case ext_cache_control (req_ext req) of
                 Some cc \<Rightarrow>
                   Some (JArr [json_obj
                     [(''type'', JStr ''text''), (''text'', JStr (concat parts)),
                      (''cache_control'', cc)]])
               | None \<Rightarrow>
                   (case parts of
                      [p] \<Rightarrow> Some (JStr p)
                    | _ \<Rightarrow> Some (JArr (map text_block parts)))))"

definition role_blocks :: "string \<Rightarrow> json list \<Rightarrow> json" where
  "role_blocks role blocks = json_obj [(''role'', JStr role), (''content'', JArr blocks)]"

definition message_to_anthropic ::
  "json_text \<Rightarrow> ir_message \<Rightarrow> ir_request \<Rightarrow> conv_ctx \<Rightarrow> json \<times> conv_ctx" where
  "message_to_anthropic js m req ctx =
     (let think = (case msg_reasoning_content m of
                     None \<Rightarrow> []
                   | Some rc \<Rightarrow> [thinking_block rc (ext_extra (req_ext req))]);
          (blocks, ctx') = content_opt_blocks (msg_content m) ctx
      in (role_blocks ''assistant'' (think @ blocks @ map (tool_use_block js) (msg_tool_calls m)),
          ctx'))"

text \<open>The loop state: the messages written, and the tool results that wait for a user message.\<close>

definition anth_message_step ::
  "json_text \<Rightarrow> ir_request \<Rightarrow> ir_message \<Rightarrow> json list \<times> json list \<times> conv_ctx \<Rightarrow>
   json list \<times> json list \<times> conv_ctx" where
  "anth_message_step js req m acc =
     (let (out, pending, ctx) = acc in
      case msg_role m of
        RoleSystem \<Rightarrow> (out, pending, ctx)
      | RoleUser \<Rightarrow>
          (let (blocks, ctx') = content_opt_blocks (msg_content m) ctx
           in (out @ [role_blocks ''user'' (pending @ blocks)], [], ctx'))
      | RoleAssistant \<Rightarrow>
          (let out' = (if pending = [] then out else out @ [role_blocks ''user'' pending]);
               (a, ctx') = message_to_anthropic js m req ctx
           in (out' @ [a], [], ctx'))
      | RoleTool \<Rightarrow>
          (let (b, ctx') = tool_result_block m ctx in (out, pending @ [b], ctx')))"

definition messages_to_anthropic ::
  "json_text \<Rightarrow> ir_request \<Rightarrow> conv_ctx \<Rightarrow> json list \<times> conv_ctx" where
  "messages_to_anthropic js req ctx =
     (let (out, pending, ctx') = fold (anth_message_step js req) (req_messages req) ([], [], ctx)
      in (if pending = [] then out else out @ [role_blocks ''user'' pending], ctx'))"

definition degrade_request_ext :: "ir_request \<Rightarrow> conv_ctx \<Rightarrow> conv_ctx" where
  "degrade_request_ext req ctx =
     (let no_field = ''no such field in Anthropic'';
          note = (\<lambda>present field ctx. if present then degrade field no_field ctx else ctx)
      in fold (\<lambda>k. if k = ''thinking_signature'' then id else degrade k no_field)
           (obj_keys (ext_extra (req_ext req)))
           (note (ext_service_tier (req_ext req) \<noteq> None) ''ext.service_tier''
             (note (ext_web_search (req_ext req) \<noteq> None) ''ext.web_search''
               (note (req_n req \<noteq> None) ''n''
                 (note (req_seed req \<noteq> None) ''seed''
                   (note (req_response_format req \<noteq> None) ''response_format'' ctx))))))"

definition tool_choice_to_anthropic :: "json \<Rightarrow> json" where
  "tool_choice_to_anthropic tc =
     (case tc of
        JStr s \<Rightarrow>
          if s = ''auto'' then json_obj [(''type'', JStr ''auto'')]
          else if s = ''required'' then json_obj [(''type'', JStr ''any'')]
          else json_obj [(''type'', JStr ''auto'')]
      | JObj obj \<Rightarrow>
          if Option.bind (obj_get ''type'' obj) as_str = Some ''function''
          then json_obj
                 [(''type'', JStr ''tool''),
                  (''name'',
                    JStr (unwrap_or []
                      (Option.bind (Option.bind (obj_get ''function'' obj) (jget ''name'')) as_str)))]
          else tc
      | _ \<Rightarrow> json_obj [(''type'', JStr ''auto'')])"

definition anth_tool_to_json :: "ir_tool \<Rightarrow> json" where
  "anth_tool_to_json t =
     JObj (obj_insert ''input_schema'' (tool_parameters t)
            (obj_insert_opt ''description'' (map_option JStr (tool_description t))
              (obj_insert ''name'' (JStr (tool_name t)) [])))"

definition anth_request_fields ::
  "ir_request \<Rightarrow> u64 \<Rightarrow> json list \<Rightarrow> (string \<times> json option) list" where
  "anth_request_fields req max_tokens msgs =
     [(''model'', Some (JStr (req_model req))),
      (''system'', system_to_anthropic req),
      (''messages'', Some (JArr msgs)),
      (''max_tokens'', Some (json_u64 max_tokens)),
      (''tools'',
        if req_tools req = [] then None else Some (JArr (map anth_tool_to_json (req_tools req)))),
      (''tool_choice'', map_option tool_choice_to_anthropic (req_tool_choice req)),
      (''temperature'', map_option json_f64 (req_temperature req)),
      (''top_p'', map_option json_f64 (req_top_p req)),
      (''top_k'', map_option json_u32 (ext_top_k (req_ext req))),
      (''stop_sequences'', map_option (\<lambda>ss. JArr (map JStr ss)) (req_stop req)),
      (''stream'', Some (JBool (req_stream req))),
      (''metadata'', map_option (\<lambda>u. json_obj [(''user_id'', JStr u)]) (req_user req)),
      (''thinking'', ext_thinking (req_ext req))]"

definition anth_request_from_ir ::
  "json_text \<Rightarrow> ir_request \<Rightarrow> conv_ctx \<Rightarrow> (convert_error + json) \<times> conv_ctx" where
  "anth_request_from_ir js req ctx =
     (let ctx1 = degrade_request_ext req ctx;
          (max_tokens, ctx2) =
            (case req_max_tokens req of
               Some n \<Rightarrow> (n, ctx1)
             | None \<Rightarrow>
                 (anth_default_max_tokens,
                  degrade ''max_tokens'' ''not given, set to the default 65536'' ctx1));
          (msgs, ctx3) = messages_to_anthropic js req ctx2
      in (Inr (JObj (obj_insert_fields (anth_request_fields req max_tokens msgs) (req_extra req))),
          ctx3))"

section \<open>Responses\<close>

definition anth_usage_fields :: "string list" where
  "anth_usage_fields =
     [''input_tokens'', ''output_tokens'', ''prompt_tokens'', ''completion_tokens'',
      ''total_tokens'', ''cache_read_input_tokens'', ''cache_read_tokens'',
      ''cache_creation_input_tokens'', ''cache_creation_tokens'']"

definition anth_parse_usage :: "json \<Rightarrow> ir_usage" where
  "anth_parse_usage u =
     (let num = (\<lambda>k. as_u64 (jidx u k))
      in \<lparr>us_prompt_tokens = unwrap_or 0 (or_else (num ''input_tokens'') (num ''prompt_tokens'')),
          us_completion_tokens =
            unwrap_or 0 (or_else (num ''output_tokens'') (num ''completion_tokens'')),
          us_cache_read_tokens =
            or_else (num ''cache_read_input_tokens'') (num ''cache_read_tokens''),
          us_cache_write_tokens =
            or_else (num ''cache_creation_input_tokens'') (num ''cache_creation_tokens''),
          us_total_tokens = num ''total_tokens'',
          us_extra =
            (case as_object u of
               None \<Rightarrow> []
             | Some m \<Rightarrow>
                 fold (\<lambda>(k, v) a. if k \<notin> set anth_usage_fields then obj_or_insert k v a else a)
                   m [])\<rparr>)"

text \<open>The loop state of \<open>parse_response_content\<close>; \<open>resp.extra\<close> receives the signatures.\<close>

definition anth_response_block ::
  "json_text \<Rightarrow> json \<Rightarrow> ir_part list \<times> ir_tool_call list \<times> string option \<times> jmap \<times> conv_ctx \<Rightarrow>
   ir_part list \<times> ir_tool_call list \<times> string option \<times> jmap \<times> conv_ctx" where
  "anth_response_block js block acc =
     (let (parts, calls, reasoning, extra, ctx) = acc in
      if \<not> is_object block then acc
      else
        (let ty = str_or_empty (jidx block ''type'')
         in if ty = ''text'' then
              (parts @ [PartText (str_or_empty (jidx block ''text''))], calls, reasoning, extra, ctx)
            else if ty = ''tool_use'' then
              (parts, calls @ [anth_tool_call js block], reasoning, extra, ctx)
            else if ty = ''thinking'' then
              (parts, calls, Some (str_or_empty (jidx block ''thinking'')),
               obj_insert_opt ''thinking_signature''
                 (map_option JStr (as_str (jidx block ''signature''))) extra, ctx)
            else
              (parts, calls, reasoning, extra,
               degrade ''content.block.type'' (''unknown response block type: '' @ ty) ctx)))"

definition parse_response_content ::
  "json_text \<Rightarrow> json \<Rightarrow> jmap \<Rightarrow> conv_ctx \<Rightarrow> (convert_error + ir_message) \<times> jmap \<times> conv_ctx" where
  "parse_response_content js content extra ctx =
     (case as_array content of
        None \<Rightarrow> (Inl (ParseError ''response content is not an array''), extra, ctx)
      | Some arr \<Rightarrow>
          (let (parts, calls, reasoning, extra', ctx') =
             fold (anth_response_block js) arr ([], [], None, extra, ctx)
           in (Inr (default_message
                 \<lparr>msg_role := RoleAssistant, msg_content := parts_content parts,
                  msg_tool_calls := calls, msg_reasoning_content := reasoning\<rparr>),
               extra', ctx')))"

definition anth_response_to_ir ::
  "json_text \<Rightarrow> json \<Rightarrow> conv_ctx \<Rightarrow> (convert_error + ir_response) \<times> conv_ctx" where
  "anth_response_to_ir js v ctx =
     (case as_object v of
        None \<Rightarrow> (Inl (ParseError ''response body is not an object''), ctx)
      | Some obj \<Rightarrow>
          (let sr = as_str (jidx v ''stop_reason'');
               (choices, extra1, ctx1) =
                 (case jget ''content'' v of
                    None \<Rightarrow> ([], [], ctx)
                  | Some content \<Rightarrow>
                      (let (r, extra, c) = parse_response_content js content [] ctx;
                           (m, c') =
                             (case r of
                                Inr m \<Rightarrow> (m, c)
                              | Inl _ \<Rightarrow>
                                  (default_message,
                                   degrade ''content'' ''response content not parsed, left empty'' c))
                       in ([\<lparr>cho_index = 0, cho_message = m,
                             cho_finish_reason = map_option normalize_finish_reason sr\<rparr>],
                           extra, c')));
               extra2 = obj_insert_opt ''anthropic_stop_reason'' (map_option JStr sr) extra1
           in (Inr
                 \<lparr>rsp_id = str_or_empty (jidx v ''id''),
                  rsp_model = str_or_empty (jidx v ''model''),
                  rsp_created = unwrap_or 0 (as_i64 (jidx v ''created'')),
                  rsp_choices = choices,
                  rsp_usage = map_option anth_parse_usage (jget ''usage'' v),
                  rsp_system_fingerprint = None,
                  rsp_extra = obj_collect (\<lambda>k. k \<notin> set anth_known_response_fields) obj extra2\<rparr>,
               ctx1)))"

definition reverse_finish_reason :: "string \<Rightarrow> string" where
  "reverse_finish_reason fr =
     (if fr = ''stop'' then ''end_turn''
      else if fr = ''length'' then ''max_tokens''
      else if fr = ''tool_calls'' then ''tool_use''
      else fr)"

definition usage_to_anthropic :: "ir_usage \<Rightarrow> conv_ctx \<Rightarrow> json \<times> conv_ctx" where
  "usage_to_anthropic u ctx =
     (JObj (obj_insert_fields
        [(''input_tokens'', Some (json_u64 (us_prompt_tokens u))),
         (''output_tokens'', Some (json_u64 (us_completion_tokens u))),
         (''cache_read_input_tokens'', map_option json_u64 (us_cache_read_tokens u)),
         (''cache_creation_input_tokens'', map_option json_u64 (us_cache_write_tokens u))]
        (us_extra u)),
      if us_total_tokens u \<noteq> None
      then degrade ''usage.total_tokens'' ''Anthropic has no total_tokens'' ctx else ctx)"

definition response_blocks ::
  "json_text \<Rightarrow> ir_message \<Rightarrow> ir_response \<Rightarrow> conv_ctx \<Rightarrow> json list \<times> conv_ctx" where
  "response_blocks js msg resp ctx =
     (let think = (case msg_reasoning_content msg of
                     None \<Rightarrow> [] | Some rc \<Rightarrow> [thinking_block rc (rsp_extra resp)]);
          (blocks, ctx') = content_opt_blocks (msg_content msg) ctx
      in (think @ blocks @ map (tool_use_block js) (msg_tool_calls msg), ctx'))"

definition anth_stop_reason ::
  "ir_response \<Rightarrow> string option \<Rightarrow> conv_ctx \<Rightarrow> string option \<times> conv_ctx" where
  "anth_stop_reason resp finish_reason ctx =
     (case Option.bind (obj_get ''anthropic_stop_reason'' (rsp_extra resp)) as_str of
        Some raw \<Rightarrow>
          if raw \<noteq> [] then
            (Some raw,
             if raw = ''stop_sequence''
             then degrade ''stop_sequence'' ''stop_sequence not kept, written back as null'' ctx
             else ctx)
          else (map_option reverse_finish_reason finish_reason, ctx)
      | None \<Rightarrow> (map_option reverse_finish_reason finish_reason, ctx))"

definition anth_usage_opt :: "ir_usage option \<Rightarrow> conv_ctx \<Rightarrow> json option \<times> conv_ctx" where
  "anth_usage_opt u ctx =
     (case u of
        None \<Rightarrow> (None, ctx)
      | Some us \<Rightarrow> (let (j, ctx') = usage_to_anthropic us ctx in (Some j, ctx')))"

definition anth_response_from_ir ::
  "json_text \<Rightarrow> ir_response \<Rightarrow> conv_ctx \<Rightarrow> (convert_error + json) \<times> conv_ctx" where
  "anth_response_from_ir js resp ctx =
     (let extra = obj_remove ''thinking_signature''
                    (obj_remove ''anthropic_stop_reason'' (rsp_extra resp));
          (msg, finish_reason) =
            (case rsp_choices resp of
               c # _ \<Rightarrow> (cho_message c, cho_finish_reason c)
             | [] \<Rightarrow> (default_message, None));
          ctx1 = (if length (rsp_choices resp) > 1
                  then degrade ''choices'' ''several choices, only the first is kept'' ctx else ctx);
          (blocks, ctx2) = response_blocks js msg resp ctx1;
          (sr, ctx3) = anth_stop_reason resp finish_reason ctx2;
          (usage, ctx4) = anth_usage_opt (rsp_usage resp) ctx3
      in (Inr (JObj
            (obj_insert_fields
              [(''id'', Some (JStr (rsp_id resp))),
               (''type'', Some (JStr ''message'')),
               (''role'', Some (JStr ''assistant'')),
               (''content'', Some (JArr blocks)),
               (''model'', Some (JStr (rsp_model resp))),
               (''stop_reason'', Some (case sr of None \<Rightarrow> JNull | Some s \<Rightarrow> JStr s)),
               (''stop_sequence'', Some JNull),
               (''usage'', usage)]
              extra)),
          ctx4))"

end
