(* ===== verification/AnthropicRoundtrip.thy ===== *)
theory AnthropicRoundtrip
  imports Anthropic
begin

text \<open>
  What the Anthropic adapter reads back of what it writes (usage, responses, tool choices), and
  where the tool results of a request end up.
\<close>

section \<open>Usage\<close>

definition anth_usage_ok :: "ir_usage \<Rightarrow> bool" where
  "anth_usage_ok u \<longleftrightarrow>
     us_total_tokens u = None \<and> obj_ok (us_extra u) \<and>
     list_all (\<lambda>k. k \<notin> set anth_usage_fields) (obj_keys (us_extra u))"

lemma fold_or_insert_collect:
  "obj_ok (acc @ m) \<Longrightarrow>
   fold (\<lambda>(k, v) a. if p k then obj_or_insert k v a else a) m acc = acc @ filter (\<lambda>(k, v). p k) m"
proof (induction m arbitrary: acc)
  case (Cons kv m)
  obtain k v where kv: "kv = (k, v)" by force
  have ok: "obj_ok (acc @ m)" and last: "\<forall>j \<in> set (obj_keys acc). j < k"
    using Cons.prems by (auto simp: obj_ok_def obj_keys_def kv sorted_wrt_append)
  then have "obj_get k acc = None" by (auto simp: obj_get_None)
  then have ins: "obj_or_insert k v acc = acc @ [(k, v)]"
    by (simp add: obj_or_insert_def obj_insert_last [OF last])
  show ?case
    using Cons.IH [of acc] Cons.IH [of "acc @ [(k, v)]"] ok Cons.prems by (simp add: kv ins)
qed simp

lemma fold_or_insert_fields:
  assumes "obj_ok m" and "\<forall>k \<in> set (obj_keys m). p k" and "\<forall>k \<in> fst ` set fs. \<not> p k"
  shows "fold (\<lambda>(k, v) a. if p k then obj_or_insert k v a else a) (obj_insert_fields fs m) [] = m"
proof -
  have "obj_ok ([] @ obj_insert_fields fs m)" using assms(1) by (simp add: obj_ok_fields)
  from fold_or_insert_collect [OF this]
    obj_collect_filter [OF obj_ok_fields [OF assms(1)], of p fs] obj_collect_fields [OF assms]
  show ?thesis by simp
qed

lemma anth_usage_back:
  assumes "anth_usage_ok u" "usage_to_anthropic u c = (v, c')"
  shows "anth_parse_usage v = u" "c' = c" "v \<noteq> JNull"
proof -
  define fs where "fs =
     [(''input_tokens'', Some (json_u64 (us_prompt_tokens u))),
      (''output_tokens'', Some (json_u64 (us_completion_tokens u))),
      (''cache_read_input_tokens'', map_option json_u64 (us_cache_read_tokens u)),
      (''cache_creation_input_tokens'', map_option json_u64 (us_cache_write_tokens u))]"
  have v: "v = JObj (obj_insert_fields fs (us_extra u))" and "c' = c"
    using assms by (simp_all add: usage_to_anthropic_def fs_def anth_usage_ok_def)
  then show "c' = c" "v \<noteq> JNull" by simp_all
  have extra: "obj_ok (us_extra u)" "\<forall>k \<in> set (obj_keys (us_extra u)). k \<notin> set anth_usage_fields"
    and total: "us_total_tokens u = None"
    using assms(1) by (simp_all add: anth_usage_ok_def list_all_iff)
  have none: "obj_get k (us_extra u) = None" if "k \<in> set anth_usage_fields" for k
    using extra(2) that by (auto simp: obj_get_None)
  have get: "obj_get k (obj_insert_fields fs (us_extra u)) = Option.bind (map_of fs k) id"
    if "k \<in> set anth_usage_fields" for k
    using none [OF that] by (intro obj_get_fields_only) (simp_all add: fs_def)
  have kept: "fold (\<lambda>(k, v) a. if k \<notin> set anth_usage_fields then obj_or_insert k v a else a)
      (obj_insert_fields fs (us_extra u)) [] = us_extra u"
    using extra by (intro fold_or_insert_fields) (auto simp: fs_def anth_usage_fields_def)
  have g: "jidx v ''input_tokens'' = json_u64 (us_prompt_tokens u)"
    "jidx v ''output_tokens'' = json_u64 (us_completion_tokens u)"
    "as_u64 (jidx v ''cache_read_input_tokens'') = us_cache_read_tokens u"
    "as_u64 (jidx v ''cache_creation_input_tokens'') = us_cache_write_tokens u"
    "jidx v ''cache_read_tokens'' = JNull" "jidx v ''cache_creation_tokens'' = JNull"
    "jidx v ''total_tokens'' = JNull"
    by (cases "us_cache_read_tokens u"; cases "us_cache_write_tokens u";
        simp add: v get anth_usage_fields_def; simp add: fs_def)+
  have "or_else x None = x" for x :: "u64 option" by (cases x) simp_all
  moreover have "as_object v = Some (obj_insert_fields fs (us_extra u))" by (simp add: v)
  ultimately show "anth_parse_usage v = u"
    using total kept by (intro ir_usage.equality) (simp_all add: anth_parse_usage_def g Let_def)
qed

section \<open>Responses\<close>

definition args_ok :: "json_text \<Rightarrow> string \<Rightarrow> bool" where
  "args_ok js s \<longleftrightarrow>
     (case from_text js s of Inl _ \<Rightarrow> True | Inr v \<Rightarrow> input_to_arguments js v = s)"

fun is_text_part :: "ir_part \<Rightarrow> bool" where
  "is_text_part (PartText t) = True" | "is_text_part _ = False"

text \<open>Text as the adapter leaves it: none, one string, or at least two text parts.\<close>

definition text_content_ok :: "ir_content option \<Rightarrow> bool" where
  "text_content_ok content \<longleftrightarrow>
     (case content of
        Some (ContentParts ps) \<Rightarrow> 2 \<le> length ps \<and> list_all is_text_part ps
      | _ \<Rightarrow> True)"

lemma filter_map_texts:
  "filter_map_ctx part_to_anth_block (map PartText ts) c = (map text_block ts, c)"
  by (induction ts) (simp_all add: part_to_anth_block_def)

lemma text_content_blocks:
  assumes "text_content_ok content"
  obtains ts where "content_opt_blocks content c = (map text_block ts, c)"
    "parts_content (map PartText ts) = content"
proof (cases content)
  case None
  then show ?thesis using that [of "[]"] by (simp add: content_opt_blocks_def parts_content_def)
next
  case (Some x)
  show ?thesis
  proof (cases x)
    case (ContentText s)
    then show ?thesis
      using that [of "[s]"] Some
      by (simp add: content_opt_blocks_def content_to_anthropic_blocks_def parts_content_def)
  next
    case (ContentParts ps)
    have "\<exists>ts. ps = map PartText ts" if "list_all is_text_part ps" for ps
      using that by (induction ps) (auto elim!: is_text_part.elims intro: exI [of _ "_ # _"])
    moreover have "2 \<le> length ps" "list_all is_text_part ps"
      using assms Some ContentParts by (simp_all add: text_content_ok_def)
    ultimately obtain ts where ps: "ps = map PartText ts" "2 \<le> length ts"
      by (metis length_map)
    then have "parts_content (map PartText ts) = content"
      using Some ContentParts by (cases ts; cases "tl ts") (auto simp: parts_content_def)
    with that [of ts] ps Some ContentParts show ?thesis
      by (simp add: content_opt_blocks_def content_to_anthropic_blocks_def filter_map_texts)
  qed
qed

lemma jidx_json_obj: "jidx (json_obj kvs) k = (case map_of (rev kvs) k of None \<Rightarrow> JNull | Some v \<Rightarrow> v)"
  by (simp add: jidx_def)

lemma read_text_blocks:
  "fold (anth_response_block js) (map text_block ts) (parts, calls, r, extra, c) =
     (parts @ map PartText ts, calls, r, extra, c)"
  by (induction ts arbitrary: parts)
    (simp_all add: anth_response_block_def text_block_def jidx_json_obj Let_def)

lemma anth_tool_call_back: "args_ok js (tc_arguments tc) \<Longrightarrow> anth_tool_call js (tool_use_block js tc) = tc"
  by (cases "from_text js (tc_arguments tc)")
    (simp_all add: anth_tool_call_def tool_use_block_def jidx_json_obj args_ok_def
      input_to_arguments_def)

lemma read_tool_blocks:
  "list_all (\<lambda>tc. args_ok js (tc_arguments tc)) tcs \<Longrightarrow>
   fold (anth_response_block js) (map (tool_use_block js) tcs) (parts, calls, r, extra, c) =
     (parts, calls @ tcs, r, extra, c)"
proof (induction tcs arbitrary: calls)
  case (Cons tc tcs)
  have "is_object (tool_use_block js tc)" "jidx (tool_use_block js tc) ''type'' = JStr ''tool_use''"
    by (simp_all add: tool_use_block_def jidx_json_obj Let_def)
  then have "anth_response_block js (tool_use_block js tc) (parts, calls, r, extra, c) =
      (parts, calls @ [tc], r, extra, c)"
    using Cons.prems by (simp add: anth_response_block_def anth_tool_call_back)
  with Cons show ?case by simp
qed simp

lemma read_thinking:
  "anth_response_block js (thinking_block rc extra0) (parts, calls, r, extra, c) =
     (parts, calls, Some rc,
      obj_insert_opt ''thinking_signature''
        (map_option JStr (Option.bind (obj_get ''thinking_signature'' extra0) as_str)) extra, c)"
  by (cases "Option.bind (obj_get ''thinking_signature'' extra0) as_str")
    (simp_all add: anth_response_block_def thinking_block_def jidx_json_obj Let_def)

text \<open>
  A response that fits Anthropic: one assistant choice, text content, a finish reason that is
  the normalised form of the kept stop reason, and the signature only with a thinking text.
\<close>

definition anth_response_ok :: "json_text \<Rightarrow> ir_response \<Rightarrow> bool" where
  "anth_response_ok js r \<longleftrightarrow>
     (\<exists>content calls reasoning sr sig.
        rsp_choices r =
          [\<lparr>cho_index = 0,
            cho_message = default_message\<lparr>msg_role := RoleAssistant, msg_content := content,
              msg_tool_calls := calls, msg_reasoning_content := reasoning\<rparr>,
            cho_finish_reason = map_option normalize_finish_reason sr\<rparr>] \<and>
        text_content_ok content \<and> list_all (\<lambda>tc. args_ok js (tc_arguments tc)) calls \<and>
        obj_get ''anthropic_stop_reason'' (rsp_extra r) = map_option JStr sr \<and>
        sr \<notin> {Some [], Some ''stop_sequence''} \<and>
        obj_get ''thinking_signature'' (rsp_extra r) = map_option JStr sig \<and>
        (sig \<noteq> None \<longrightarrow> reasoning \<noteq> None)) \<and>
     rsp_created r = 0 \<and> rsp_system_fingerprint r = None \<and>
     (case rsp_usage r of None \<Rightarrow> True | Some u \<Rightarrow> anth_usage_ok u) \<and>
     obj_ok (rsp_extra r) \<and>
     list_all (\<lambda>k. k \<notin> set anth_known_response_fields \<and> k \<noteq> ''created'') (obj_keys (rsp_extra r))"

lemma anth_usage_opt_back:
  assumes "case u of None \<Rightarrow> True | Some us \<Rightarrow> anth_usage_ok us" "anth_usage_opt u c = (j, c')"
  shows "map_option anth_parse_usage j = u" "c' = c"
  using assms
  by (cases u; auto simp: anth_usage_opt_def dest: anth_usage_back split: prod.splits)+

lemma response_content_back:
  assumes "text_content_ok content" "list_all (\<lambda>tc. args_ok js (tc_arguments tc)) calls"
    and "response_blocks js (default_message\<lparr>msg_role := RoleAssistant, msg_content := content,
           msg_tool_calls := calls, msg_reasoning_content := reasoning\<rparr>) resp ctx = (blocks, ctx')"
  shows "ctx' = ctx"
    "parse_response_content js (JArr blocks) [] c =
       (Inr (default_message\<lparr>msg_role := RoleAssistant, msg_content := content,
           msg_tool_calls := calls, msg_reasoning_content := reasoning\<rparr>),
        (if reasoning = None then []
         else obj_insert_opt ''thinking_signature''
           (map_option JStr (Option.bind (obj_get ''thinking_signature'' (rsp_extra resp)) as_str)) []),
        c)"
proof -
  obtain ts where ts: "content_opt_blocks content ctx = (map text_block ts, ctx)"
    "parts_content (map PartText ts) = content"
    by (rule text_content_blocks [OF assms(1)])
  have blocks: "blocks = (case reasoning of None \<Rightarrow> [] | Some rc \<Rightarrow> [thinking_block rc (rsp_extra resp)]) @
      map text_block ts @ map (tool_use_block js) calls" and "ctx' = ctx"
    using assms(3) ts(1) by (auto simp: response_blocks_def default_message_def)
  then show "ctx' = ctx" by simp
  show "parse_response_content js (JArr blocks) [] c =
       (Inr (default_message\<lparr>msg_role := RoleAssistant, msg_content := content,
           msg_tool_calls := calls, msg_reasoning_content := reasoning\<rparr>),
        (if reasoning = None then []
         else obj_insert_opt ''thinking_signature''
           (map_option JStr (Option.bind (obj_get ''thinking_signature'' (rsp_extra resp)) as_str)) []),
        c)"
    using assms(2)
    by (cases reasoning)
      (simp_all add: parse_response_content_def blocks read_thinking read_text_blocks
        read_tool_blocks ts(2))
qed

lemma anth_response_back:
  assumes ok: "anth_response_ok js r" and json: "anth_response_from_ir js r ctx = (Inr v, ctx')"
  shows "anth_response_to_ir js v c = (Inr r, c)" "ctx' = ctx"
proof -
  obtain content calls reasoning sr sig where
    cho: "rsp_choices r =
        [\<lparr>cho_index = 0,
          cho_message = default_message\<lparr>msg_role := RoleAssistant, msg_content := content,
            msg_tool_calls := calls, msg_reasoning_content := reasoning\<rparr>,
          cho_finish_reason = map_option normalize_finish_reason sr\<rparr>]" and
    msg: "text_content_ok content" "list_all (\<lambda>tc. args_ok js (tc_arguments tc)) calls" and
    sr: "obj_get ''anthropic_stop_reason'' (rsp_extra r) = map_option JStr sr"
        "sr \<noteq> Some []" "sr \<noteq> Some ''stop_sequence''" and
    sig: "obj_get ''thinking_signature'' (rsp_extra r) = map_option JStr sig"
        "sig \<noteq> None \<longrightarrow> reasoning \<noteq> None"
    using ok unfolding anth_response_ok_def by blast
  have usage_ok: "case rsp_usage r of None \<Rightarrow> True | Some u \<Rightarrow> anth_usage_ok u"
    and plain: "rsp_created r = 0" "rsp_system_fingerprint r = None" and extra: "obj_ok (rsp_extra r)"
      "list_all (\<lambda>k. k \<notin> set anth_known_response_fields \<and> k \<noteq> ''created'') (obj_keys (rsp_extra r))"
    using ok by (simp_all add: anth_response_ok_def)
  let ?m = "default_message\<lparr>msg_role := RoleAssistant, msg_content := content,
            msg_tool_calls := calls, msg_reasoning_content := reasoning\<rparr>"
  obtain blocks ctx2 where blocks: "response_blocks js ?m r ctx = (blocks, ctx2)" by force
  note content = response_content_back [OF msg blocks]
  have reason: "anth_stop_reason r (map_option normalize_finish_reason sr) ctx = (sr, ctx)"
    using sr by (cases sr) (simp_all add: anth_stop_reason_def)
  obtain usage ctx4 where u: "anth_usage_opt (rsp_usage r) ctx = (usage, ctx4)" by force
  note usage = anth_usage_opt_back [OF usage_ok u]
  define base where "base = obj_remove ''thinking_signature''
    (obj_remove ''anthropic_stop_reason'' (rsp_extra r))"
  define fs where "fs =
     [(''id'', Some (JStr (rsp_id r))), (''type'', Some (JStr ''message'')),
      (''role'', Some (JStr ''assistant'')), (''content'', Some (JArr blocks)),
      (''model'', Some (JStr (rsp_model r))),
      (''stop_reason'', Some (case sr of None \<Rightarrow> JNull | Some s \<Rightarrow> JStr s)),
      (''stop_sequence'', Some JNull), (''usage'', usage)]"
  let ?o = "obj_insert_fields fs base"
  have v: "v = JObj ?o" and "ctx' = ctx"
    using json blocks content(1) reason u usage(2)
    by (simp_all add: anth_response_from_ir_def cho base_def fs_def)
  then show "ctx' = ctx" by simp
  have base_ok: "obj_ok base" using extra(1) by (simp add: base_def obj_ok_remove)
  have base_keys: "set (obj_keys base) \<subseteq> set (obj_keys (rsp_extra r))"
    unfolding base_def using set_keys_remove by blast
  have "extra_keys": "k \<notin> set anth_known_response_fields \<and> k \<noteq> ''created''" if "k \<in> set (obj_keys base)" for k
    using base_keys extra(2) that by (auto simp: list_all_iff)
  have none: "obj_get k base = None" if "k \<in> set anth_known_response_fields \<or> k = ''created''" for k
    using extra_keys that by (auto simp: obj_get_None)
  have get: "obj_get k ?o = Option.bind (map_of fs k) id"
    if "k \<in> set anth_known_response_fields \<or> k = ''created''" for k
    using none [OF that] by (intro obj_get_fields_only) (simp_all add: fs_def)
  have g: "obj_get ''id'' ?o = Some (JStr (rsp_id r))" "obj_get ''model'' ?o = Some (JStr (rsp_model r))"
    "obj_get ''content'' ?o = Some (JArr blocks)" "obj_get ''usage'' ?o = usage"
    "obj_get ''created'' ?o = None"
    "obj_get ''stop_reason'' ?o = Some (case sr of None \<Rightarrow> JNull | Some s \<Rightarrow> JStr s)"
    by (simp_all add: get anth_known_response_fields_def) (simp_all add: fs_def)
  have as_sr: "as_str (case sr of None \<Rightarrow> JNull | Some s \<Rightarrow> JStr s) = sr" by (cases sr) simp_all
  define ex where "ex = obj_insert_opt ''anthropic_stop_reason'' (map_option JStr sr)
    (obj_insert_opt ''thinking_signature'' (map_option JStr sig) [])"
  have ex: "(if reasoning = None then []
       else obj_insert_opt ''thinking_signature''
         (map_option JStr (Option.bind (obj_get ''thinking_signature'' (rsp_extra r)) as_str)) []) =
     obj_insert_opt ''thinking_signature'' (map_option JStr sig) []"
    using sig by (cases sig) (auto simp: obj_insert_opt_def)
  have collect: "obj_collect (\<lambda>k. k \<notin> set anth_known_response_fields) ?o ex = rsp_extra r"
  proof (rule obj_ext)
    have o_ok: "obj_ok ?o" using base_ok by (rule obj_ok_fields)
    have ex_ok: "obj_ok ex" by (simp add: ex_def obj_ok_insert_opt)
    show "obj_ok (obj_collect (\<lambda>k. k \<notin> set anth_known_response_fields) ?o ex)"
      using ex_ok by (rule obj_ok_collect)
    show "obj_ok (rsp_extra r)" by fact
    fix k
    have known: "obj_get k (rsp_extra r) = None" if "k \<in> set anth_known_response_fields"
      using extra(2) that by (auto simp: obj_get_None list_all_iff)
    have other: "obj_get k ?o = obj_get k base" if "k \<notin> set anth_known_response_fields"
    proof -
      have "map_of fs k = None"
        using that by (auto simp: fs_def map_of_eq_None_iff anth_known_response_fields_def)
      moreover have "distinct (map fst fs)" by (simp add: fs_def)
      ultimately show ?thesis by (simp add: obj_get_fields)
    qed
    have base: "obj_get k base = (if k = ''thinking_signature'' \<or> k = ''anthropic_stop_reason'' then None
        else obj_get k (rsp_extra r))"
      using extra(1) by (auto simp: base_def obj_get_remove obj_ok_remove)
    have ex_get: "obj_get k ex = (if k = ''thinking_signature'' \<or> k = ''anthropic_stop_reason''
        then obj_get k (rsp_extra r) else None)"
      using sr(1) sig(1) by (cases sr; cases sig) (auto simp: ex_def obj_get_insert_opt)
    show "obj_get k (obj_collect (\<lambda>k. k \<notin> set anth_known_response_fields) ?o ex) = obj_get k (rsp_extra r)"
    proof (cases "k \<in> set anth_known_response_fields")
      case True
      then have "k \<noteq> ''thinking_signature''" "k \<noteq> ''anthropic_stop_reason''"
        by (auto simp: anth_known_response_fields_def)
      with True known show ?thesis by (simp add: obj_get_collect [OF o_ok] ex_get)
    next
      case False
      then show ?thesis by (simp add: obj_get_collect [OF o_ok] other base ex_get)
    qed
  qed
  show "anth_response_to_ir js v c = (Inr r, c)"
    using plain usage(1) cho
    by (intro prod_eqI)
      (simp_all add: v anth_response_to_ir_def g as_sr content(2) ex ex_def [symmetric] collect)
qed

section \<open>Tool results and assistant turns\<close>

text \<open>
  The tool results and assistant messages of a request in their order: as the IR has them, and
  as a reader of the Anthropic messages finds them.
\<close>

datatype turn = AssistantTurn json | ToolResult json

definition is_tool_result :: "json \<Rightarrow> bool" where
  "is_tool_result b \<longleftrightarrow> as_str (jidx b ''type'') = Some ''tool_result''"

definition json_turns :: "json list \<Rightarrow> turn list" where
  "json_turns ms =
     concat (map (\<lambda>m.
       if as_str (jidx m ''role'') = Some ''assistant'' then [AssistantTurn m]
       else map ToolResult (filter is_tool_result (unwrap_or [] (as_array (jidx m ''content''))))) ms)"

definition ir_turns :: "json_text \<Rightarrow> ir_request \<Rightarrow> ir_message list \<Rightarrow> turn list" where
  "ir_turns js req ms =
     concat (map (\<lambda>m.
       case msg_role m of
         RoleTool \<Rightarrow> [ToolResult (fst (tool_result_block m []))]
       | RoleAssistant \<Rightarrow> [AssistantTurn (fst (message_to_anthropic js m req []))]
       | _ \<Rightarrow> []) ms)"

lemma part_block_ctx: "fst (part_to_anth_block p c) = fst (part_to_anth_block p d)"
  by (cases p) (simp_all add: part_to_anth_block_def)

lemma filter_map_ctx_fst:
  "(\<And>x c d. fst (f x c) = fst (f x d)) \<Longrightarrow> fst (filter_map_ctx f xs c) = fst (filter_map_ctx f xs d)"
proof (induction xs arbitrary: c d)
  case (Cons x xs)
  obtain y c1 z d1 where y: "f x c = (y, c1)" "f x d = (z, d1)" by (metis surj_pair)
  have "z = y" using Cons.prems [of x c d] by (simp add: y)
  moreover have "fst (filter_map_ctx f xs c1) = fst (filter_map_ctx f xs d1)"
    by (rule Cons.IH [OF Cons.prems])
  ultimately show ?case by (auto simp: y split: prod.splits)
qed simp

lemma blocks_ctx: "fst (content_opt_blocks content c) = fst (content_opt_blocks content d)"
  using filter_map_ctx_fst [of part_to_anth_block, OF part_block_ctx]
  by (auto simp: content_opt_blocks_def content_to_anthropic_blocks_def
      split: option.splits ir_content.splits)

lemma tool_result_ctx: "fst (tool_result_block m c) = fst (tool_result_block m [])"
proof -
  have "fst (filter_map_ctx part_to_anth_block ps c) = fst (filter_map_ctx part_to_anth_block ps [])" for ps
    by (rule filter_map_ctx_fst) (rule part_block_ctx)
  then show ?thesis
    by (auto simp: tool_result_block_def split: option.splits ir_content.splits prod.splits)
      (metis fst_conv)
qed

lemma assistant_ctx: "fst (message_to_anthropic js m req c) = fst (message_to_anthropic js m req [])"
  using blocks_ctx [of "msg_content m" c "[]"]
  by (auto simp: message_to_anthropic_def Let_def split: prod.splits)

lemma content_no_result: "list_all (\<lambda>b. \<not> is_tool_result b) (fst (content_opt_blocks content c))"
proof -
  have plain: "\<not> is_tool_result (text_block t)" for t
    by (simp add: is_tool_result_def text_block_def jidx_json_obj)
  have part: "fst (part_to_anth_block p c) = Some b \<Longrightarrow> \<not> is_tool_result b" for p c b
    by (cases p) (use plain in \<open>auto simp: part_to_anth_block_def is_tool_result_def text_block_def jidx_json_obj\<close>)
  have "list_all (\<lambda>b. \<not> is_tool_result b) (fst (filter_map_ctx part_to_anth_block ps c))" for ps c
  proof (induction ps arbitrary: c)
    case (Cons p ps)
    obtain y c1 where y: "part_to_anth_block p c = (y, c1)" by force
    then show ?case using Cons [of c1] part [of p c] by (auto simp: y split: prod.splits option.splits)
  qed simp
  then show ?thesis
    by (auto simp: content_opt_blocks_def content_to_anthropic_blocks_def plain
        split: option.splits ir_content.splits)
qed

lemma role_blocks_fields [simp]:
  "as_str (jidx (role_blocks role bs) ''role'') = Some role"
  "as_array (jidx (role_blocks role bs) ''content'') = Some bs"
  by (simp_all add: role_blocks_def jidx_json_obj)

lemma json_turns_simps [simp]:
  "json_turns [] = []" "json_turns (ms @ ms') = json_turns ms @ json_turns ms'"
  "json_turns [m, m'] = json_turns [m] @ json_turns [m']"
  "json_turns [role_blocks ''user'' bs] = map ToolResult (filter is_tool_result bs)"
  by (simp_all add: json_turns_def)

lemma assistant_turn [simp]: "json_turns [fst (message_to_anthropic js m req c)] =
    [AssistantTurn (fst (message_to_anthropic js m req c))]"
  by (auto simp: json_turns_def message_to_anthropic_def Let_def split: prod.splits)

lemma tool_result_is: "is_tool_result (fst (tool_result_block m c))"
  by (auto simp: is_tool_result_def tool_result_block_def jidx_json_obj split: prod.splits)

lemma filter_results: "list_all is_tool_result bs \<Longrightarrow> filter is_tool_result bs = bs"
  by (simp add: list_all_iff)

text \<open>The loop: what is written and what is pending are the turns so far.\<close>

lemma message_step_turns:
  assumes "list_all is_tool_result pending" "anth_message_step js req m (out, pending, c) = (out', pending', c')"
  shows "list_all is_tool_result pending'"
    "json_turns out' @ map ToolResult pending' =
       json_turns out @ map ToolResult pending @ ir_turns js req [m]"
proof -
  have user: "filter is_tool_result bs = []" if "content_opt_blocks content c = (bs, d)" for content bs d
    using content_no_result [of content c] that by (simp add: list_all_iff)
  have asst: "a = fst (message_to_anthropic js m req [])" "json_turns [a] = [AssistantTurn a]"
    if "message_to_anthropic js m req c = (a, d)" for a d
    using assistant_ctx [of js m req c] assistant_turn [of js m req c] that by simp_all
  have tool: "b = fst (tool_result_block m [])" "is_tool_result b" if "tool_result_block m c = (b, d)" for b d
    using tool_result_ctx [of m c] tool_result_is [of m c] that by simp_all
  show "list_all is_tool_result pending'"
    using assms tool
    by (cases "msg_role m") (auto simp: anth_message_step_def split: prod.splits if_splits)
  show "json_turns out' @ map ToolResult pending' =
      json_turns out @ map ToolResult pending @ ir_turns js req [m]"
    using assms user asst tool
    by (cases "msg_role m")
      (auto simp: anth_message_step_def ir_turns_def filter_results split: prod.splits if_splits)
qed

lemma messages_turns:
  "list_all is_tool_result pending \<Longrightarrow>
   fold (anth_message_step js req) ms (out, pending, c) = (out', pending', c') \<Longrightarrow>
   list_all is_tool_result pending' \<and>
   json_turns out' @ map ToolResult pending' =
     json_turns out @ map ToolResult pending @ ir_turns js req ms"
proof (induction ms arbitrary: out pending c)
  case Nil
  then show ?case by (simp add: ir_turns_def)
next
  case (Cons m ms)
  obtain out1 pending1 c1 where step: "anth_message_step js req m (out, pending, c) = (out1, pending1, c1)"
    by (metis prod_cases3)
  note one = message_step_turns [OF Cons.prems(1) step]
  have "fold (anth_message_step js req) ms (out1, pending1, c1) = (out', pending', c')"
    using Cons.prems(2) step by simp
  from Cons.IH [OF one(1) this] one(2) show ?case by (auto simp: ir_turns_def)
qed

lemma messages_to_anthropic_turns:
  "json_turns (fst (messages_to_anthropic js req c)) = ir_turns js req (req_messages req)"
proof -
  obtain out pending d where loop:
    "fold (anth_message_step js req) (req_messages req) ([], [], c) = (out, pending, d)"
    by (metis prod_cases3)
  from messages_turns [OF _ loop] have "list_all is_tool_result pending"
    "json_turns out @ map ToolResult pending = ir_turns js req (req_messages req)" by simp_all
  then show ?thesis by (auto simp: messages_to_anthropic_def loop filter_results)
qed

section \<open>Tool choices and stop reasons\<close>

lemma finish_reason_back:
  "fr \<in> {''stop'', ''length'', ''tool_calls'', ''content_filter''} \<Longrightarrow>
   normalize_finish_reason (reverse_finish_reason fr) = fr"
  by (elim insertE emptyE; simp add: reverse_finish_reason_def normalize_finish_reason_def
      to_ascii_lowercase_def ascii_lower_def Let_def)

section \<open>Properties\<close>

text \<open>
  C23: a response that fits Anthropic (\<open>anth_response_ok\<close>) is written and read back unchanged:
  the text content, the thinking text with its signature, the tool calls (when the JSON library
  prints an argument object as it was), the usage, the stop reason with its raw form, and the
  unknown fields.
\<close>

theorem anth_response_roundtrip:
  assumes "anth_response_ok js r"
  shows "\<exists>v. anth_response_from_ir js r ctx = (Inr v, ctx) \<and> anth_response_to_ir js v c = (Inr r, c)"
proof -
  have "\<exists>v ctx'. anth_response_from_ir js r ctx = (Inr v, ctx')"
    by (auto simp: anth_response_from_ir_def Let_def split: prod.splits)
  then obtain v ctx' where v: "anth_response_from_ir js r ctx = (Inr v, ctx')" by blast
  from anth_response_back [OF assms v] v show ?thesis by auto
qed

definition sample_anth_response :: ir_response where
  "sample_anth_response = default_response
     \<lparr>rsp_id := ''r'', rsp_model := ''m'',
      rsp_choices := [\<lparr>cho_index = 0,
        cho_message = default_message\<lparr>msg_role := RoleAssistant,
          msg_content := Some (ContentText ''hi''),
          msg_tool_calls := [\<lparr>tc_id = ''t'', tc_name = ''f'', tc_arguments = ''x''\<rparr>],
          msg_reasoning_content := Some ''hm''\<rparr>,
        cho_finish_reason = Some ''stop''\<rparr>],
      rsp_usage := Some (default_usage\<lparr>us_cache_write_tokens := Some 4\<rparr>),
      rsp_extra := [(''anthropic_stop_reason'', JStr ''end_turn''), (''thinking_signature'', JStr ''sig'')]\<rparr>"

lemma anth_response_roundtrip_witness:
  "\<exists>v. anth_response_from_ir \<lparr>to_text = (\<lambda>_. []), from_text = (\<lambda>_. Inl ''no JSON'')\<rparr> sample_anth_response [] =
       (Inr v, []) \<and>
     anth_response_to_ir \<lparr>to_text = (\<lambda>_. []), from_text = (\<lambda>_. Inl ''no JSON'')\<rparr> v [] =
       (Inr sample_anth_response, [])"
proof (rule anth_response_roundtrip)
  have "normalize_finish_reason ''end_turn'' = ''stop''"
    by (simp add: normalize_finish_reason_def to_ascii_lowercase_def ascii_lower_def Let_def)
  then show "anth_response_ok \<lparr>to_text = (\<lambda>_. []), from_text = (\<lambda>_. Inl ''no JSON'')\<rparr> sample_anth_response"
    unfolding anth_response_ok_def
    by (intro conjI exI [of _ "Some (ContentText ''hi'')"] exI [of _ "Some ''hm''"]
        exI [of _ "[\<lparr>tc_id = ''t'', tc_name = ''f'', tc_arguments = ''x''\<rparr>]"]
        exI [of _ "Some ''end_turn''"] exI [of _ "Some ''sig''"])
      (simp_all add: sample_anth_response_def default_response_def default_usage_def
        text_content_ok_def args_ok_def anth_usage_ok_def anth_usage_fields_def
        anth_known_response_fields_def obj_ok_def)
qed

text \<open>
  \<open>messages_to_anthropic\<close> keeps the conversation: reading the produced messages, the tool
  results (which the code merges into user messages) and the assistant messages come in exactly
  the order of the request's Tool and Assistant messages, none lost and none repeated. System
  messages take no part: the code moves them to the top-level field.
\<close>

theorem anth_turns_kept:
  "json_turns (fst (messages_to_anthropic js req c)) = ir_turns js req (req_messages req)"
  by (rule messages_to_anthropic_turns)

text \<open>
  The Anthropic usage is read back as it was written: prompt tokens without the cached
  ones, both cache counters, and unknown fields (a total is dropped, so there must be none).
\<close>

theorem anth_usage_roundtrip:
  assumes "anth_usage_ok u"
  shows "anth_parse_usage (fst (usage_to_anthropic u c)) = u \<and> snd (usage_to_anthropic u c) = c"
proof -
  obtain v c' where "usage_to_anthropic u c = (v, c')" by force
  with anth_usage_back [OF assms this] show ?thesis by simp
qed

lemma anth_usage_roundtrip_witness:
  "anth_parse_usage (fst (usage_to_anthropic
     (default_usage\<lparr>us_prompt_tokens := 7, us_cache_read_tokens := Some 2\<rparr>) [])) =
   default_usage\<lparr>us_prompt_tokens := 7, us_cache_read_tokens := Some 2\<rparr>"
proof -
  have "anth_usage_ok (default_usage\<lparr>us_prompt_tokens := 7, us_cache_read_tokens := Some 2\<rparr>)"
    by (simp add: anth_usage_ok_def default_usage_def)
  then show ?thesis using anth_usage_roundtrip by blast
qed

definition relay_choice :: "json \<Rightarrow> json option" where
  "relay_choice v = map_option tool_choice_to_anthropic (anth_parse_tool_choice v)"

definition plain_choice :: "string \<Rightarrow> json" where
  "plain_choice t = json_obj [(''type'', JStr t)]"

definition named_choice :: "string \<Rightarrow> json" where
  "named_choice n = json_obj [(''type'', JStr ''tool''), (''name'', JStr n)]"

text \<open>
  A tool choice read from Anthropic is written back as it was for auto, any and a named
  tool, but none becomes auto: a request that forbids tools is sent on as one that allows them.
\<close>

theorem tool_choice_none_lost:
  "relay_choice (plain_choice ''auto'') = Some (plain_choice ''auto'')
   \<and> relay_choice (plain_choice ''any'') = Some (plain_choice ''any'')
   \<and> relay_choice (named_choice n) = Some (named_choice n)
   \<and> relay_choice (plain_choice ''none'') = Some (plain_choice ''auto'')"
  by (simp add: relay_choice_def plain_choice_def named_choice_def anth_parse_tool_choice_def
      jidx_json_obj tool_choice_to_anthropic_def Let_def json_obj_def)

end
