(* ===== verification/Responses.thy ===== *)
theory Responses
  imports Chat
begin

text \<open>
  The adapter of the OpenAI Responses protocol, \<open>src/protocol/responses.rs\<close>: requests, responses
  and usage in both directions. The stream is in the theory \<open>ResponsesStream\<close>. As in the other
  adapters, a function that logs degradations takes the log and returns it; the reasons are short
  ASCII texts.
\<close>

definition resp_known_request_fields :: "string list" where
  "resp_known_request_fields =
     [''model'', ''instructions'', ''input'', ''max_output_tokens'', ''temperature'', ''top_p'', ''text'',
      ''tools'', ''tool_choice'', ''stream'']"

definition resp_known_response_fields :: "string list" where
  "resp_known_response_fields =
     [''id'', ''object'', ''created_at'', ''status'', ''model'', ''output'', ''usage'']"

section \<open>Requests: JSON to IR\<close>

fun role_to_response_str :: "ir_role \<Rightarrow> string" where
  "role_to_response_str RoleSystem = ''system''"
| "role_to_response_str RoleUser = ''user''"
| "role_to_response_str RoleAssistant = ''assistant''"
| "role_to_response_str RoleTool = ''tool''"

definition parse_response_role :: "string option \<Rightarrow> conv_ctx \<Rightarrow> ir_role \<times> conv_ctx" where
  "parse_response_role role ctx =
     (case role of
        Some r \<Rightarrow>
          if r = ''user'' then (RoleUser, ctx)
          else if r = ''assistant'' then (RoleAssistant, ctx)
          else if r = ''system'' \<or> r = ''developer'' then (RoleSystem, ctx)
          else (RoleUser, degrade ''input.message.role'' (''unknown role, treated as user: '' @ r) ctx)
      | None \<Rightarrow> (RoleUser, ctx))"

definition parse_arguments_any :: "json_text \<Rightarrow> json \<Rightarrow> string" where
  "parse_arguments_any js v = (case v of JStr s \<Rightarrow> s | JNull \<Rightarrow> [] | _ \<Rightarrow> to_text js v)"

definition resp_split_data_url :: "string \<Rightarrow> string \<times> string" where
  "resp_split_data_url rest =
     (case split_at_char (CHR '';'') rest of
        Some (media, after) \<Rightarrow>
          (case split_at_char (CHR '','') after of
             Some (_, data) \<Rightarrow> (media, data) | None \<Rightarrow> (media, after))
      | None \<Rightarrow>
          (case split_at_char (CHR '','') rest of
             Some (_, data) \<Rightarrow> (''application/octet-stream'', data)
           | None \<Rightarrow> (''application/octet-stream'', rest)))"

definition parse_input_image :: "json \<Rightarrow> conv_ctx \<Rightarrow> ir_part option \<times> conv_ctx" where
  "parse_input_image p ctx =
     (let ctx1 = (if has_value ''detail'' p
                  then degrade ''input_image.detail'' ''image detail not supported, dropped'' ctx else ctx);
          url = (case jidx p ''image_url'' of
                   JStr s \<Rightarrow> s
                 | JObj o' \<Rightarrow> unwrap_or [] (Option.bind (obj_get ''url'' o') as_str)
                 | _ \<Rightarrow> [])
      in if url = [] then
           (None,
            if Option.bind (jget ''file_id'' p) as_str \<noteq> None
            then degrade ''input_image.file_id'' ''image by file_id not supported, dropped'' ctx1
            else degrade ''input.image_url'' ''input_image without url'' ctx1)
         else (case strip_prefix ''data:'' url of
                 Some rest \<Rightarrow>
                   (let (media, data) = resp_split_data_url rest
                    in (Some (PartImageInline media data), ctx1))
               | None \<Rightarrow> (Some (PartImageUrl url), ctx1)))"

definition parse_input_file :: "json \<Rightarrow> conv_ctx \<Rightarrow> ir_part option \<times> conv_ctx" where
  "parse_input_file p ctx =
     (let name = unwrap_or [] (or_else (as_str (jidx p ''filename'')) (as_str (jidx p ''file_id'')));
          url = or_else (as_str (jidx p ''file_url'')) (as_str (jidx p ''url''));
          data = or_else (as_str (jidx p ''file_data'')) (as_str (jidx p ''data''))
      in if name = [] \<and> url = None \<and> data = None
         then (None, degrade ''input.file'' ''input_file without content'' ctx)
         else (Some (PartFile name url data), ctx))"

definition parse_input_content_part :: "json \<Rightarrow> conv_ctx \<Rightarrow> ir_part option \<times> conv_ctx" where
  "parse_input_content_part p ctx =
     (if \<not> is_object p
      then (None, degrade ''input.content.part'' ''content part is not an object'' ctx)
      else
        (let ty = str_or_empty (jidx p ''type'')
         in if ty = ''input_text'' then (Some (PartText (str_or_empty (jidx p ''text''))), ctx)
            else if ty = ''input_image'' then parse_input_image p ctx
            else if ty = ''input_file'' then parse_input_file p ctx
            else (case Option.bind (jget ''text'' p) as_str of
                    Some t \<Rightarrow>
                      (Some (PartText t),
                       degrade ''input.content.part.type''
                         (''missing or unknown part type, read as text: '' @ ty) ctx)
                  | None \<Rightarrow>
                      (None, degrade ''input.content.part.type'' (''unknown part type: '' @ ty) ctx))))"

definition parse_message_item :: "json \<Rightarrow> conv_ctx \<Rightarrow> ir_message \<times> conv_ctx" where
  "parse_message_item item ctx =
     (let (role, ctx1) = parse_response_role (as_str (jidx item ''role'')) ctx;
          msg = default_message\<lparr>msg_role := role\<rparr>
      in (case jget ''content'' item of
            Some (JArr content) \<Rightarrow>
              (let (parts, ctx2) = filter_map_ctx parse_input_content_part content ctx1
               in (if parts = [] then msg else msg\<lparr>msg_content := Some (ContentParts parts)\<rparr>, ctx2))
          | Some (JStr s) \<Rightarrow> (msg\<lparr>msg_content := Some (ContentText s)\<rparr>, ctx1)
          | _ \<Rightarrow> (msg, ctx1)))"

definition input_function_call :: "json_text \<Rightarrow> json \<Rightarrow> ir_tool_call" where
  "input_function_call js item =
     \<lparr>tc_id = unwrap_or [] (or_else (as_str (jidx item ''call_id'')) (as_str (jidx item ''id''))),
      tc_name = str_or_empty (jidx item ''name''),
      tc_arguments = parse_arguments_any js (jidx item ''arguments'')\<rparr>"

definition input_call_output :: "json_text \<Rightarrow> json \<Rightarrow> conv_ctx \<Rightarrow> ir_message \<times> conv_ctx" where
  "input_call_output js item ctx =
     (let call_id = str_or_empty (jidx item ''call_id'');
          ctx1 = (if call_id = []
                  then degrade ''function_call_output.call_id'' ''no call_id, calls cannot be paired'' ctx
                  else ctx);
          (output, ctx2) =
            (case jidx item ''output'' of
               JStr s \<Rightarrow> (s, ctx1)
             | JNull \<Rightarrow> ([], ctx1)
             | other \<Rightarrow>
                 (to_text js other,
                  degrade ''function_call_output.output'' ''output is not a string, carried as JSON'' ctx1))
      in (default_message\<lparr>msg_role := RoleTool, msg_tool_call_id := Some call_id,
                          msg_content := Some (ContentText output)\<rparr>, ctx2))"

text \<open>The code's result type has an error that no branch returns.\<close>

definition parse_input_item :: "json_text \<Rightarrow> json \<Rightarrow> conv_ctx \<Rightarrow> ir_message option \<times> conv_ctx" where
  "parse_input_item js item ctx =
     (if \<not> is_object item then (None, degrade ''input.item'' ''input item is not an object'' ctx)
      else
        (let typ = str_or_empty (jidx item ''type'');
             as_message = (\<lambda>ctx. let (m, ctx') = parse_message_item item ctx in (Some m, ctx'))
         in if typ = ''message'' then as_message ctx
            else if typ = ''function_call'' then
              (Some (default_message\<lparr>msg_role := RoleAssistant,
                                     msg_tool_calls := [input_function_call js item]\<rparr>), ctx)
            else if typ = ''function_call_output'' then
              (let (m, ctx') = input_call_output js item ctx in (Some m, ctx'))
            else if typ = ''reasoning'' then
              (None, degrade ''input.reasoning'' ''reasoning item cannot be replayed, ignored'' ctx)
            else if jget ''role'' item \<noteq> None \<or> jget ''content'' item \<noteq> None then
              as_message
                (degrade ''input.item.type'' (''missing or unknown item type, read as message: '' @ typ) ctx)
            else (None, degrade ''input.item.type'' (''unknown item type, ignored: '' @ typ) ctx)))"

text \<open>Calls in a row join one assistant message.\<close>

definition push_message :: "ir_message list \<Rightarrow> ir_message \<Rightarrow> ir_message list" where
  "push_message messages msg =
     (if msg_role msg = RoleAssistant \<and> msg_tool_calls msg \<noteq> [] \<and>
         messages \<noteq> [] \<and> msg_role (last messages) = RoleAssistant
      then butlast messages @
             [(last messages)\<lparr>msg_tool_calls := msg_tool_calls (last messages) @ msg_tool_calls msg\<rparr>]
      else messages @ [msg])"

definition input_item_step ::
  "json_text \<Rightarrow> json \<Rightarrow> ir_message list \<times> conv_ctx \<Rightarrow> ir_message list \<times> conv_ctx" where
  "input_item_step js item acc =
     (let (msgs, ctx) = acc; (m, ctx') = parse_input_item js item ctx
      in (case m of None \<Rightarrow> msgs | Some msg \<Rightarrow> push_message msgs msg, ctx'))"

definition parse_response_tool :: "json \<Rightarrow> conv_ctx \<Rightarrow> ir_tool option \<times> conv_ctx" where
  "parse_response_tool t ctx =
     (if str_or_empty (jidx t ''type'') \<noteq> ''function'' then
        (None,
         degrade ''tools''
           (''tool definition that is not a function, dropped: '' @ str_or_empty (jidx t ''type'')) ctx)
      else
        (let f = (if jget ''function'' t \<noteq> None then jidx t ''function'' else t);
             name = str_or_empty (jidx f ''name'')
         in if name = [] then (None, degrade ''tools'' ''function tool without name'' ctx)
            else (Some
                    \<lparr>tool_name = name, tool_description = as_str (jidx f ''description''),
                     tool_parameters = unwrap_or (JObj []) (jget ''parameters'' f)\<rparr>, ctx)))"

definition parse_response_tools ::
  "json \<Rightarrow> conv_ctx \<Rightarrow> (convert_error + ir_tool list) \<times> conv_ctx" where
  "parse_response_tools v ctx =
     (case as_array v of
        None \<Rightarrow> (Inl (ParseError ''tools is not an array''), ctx)
      | Some arr \<Rightarrow> (let (ts, ctx') = filter_map_ctx parse_response_tool arr ctx in (Inr ts, ctx')))"

definition text_message :: "ir_role \<Rightarrow> string \<Rightarrow> ir_message" where
  "text_message role s = default_message\<lparr>msg_role := role, msg_content := Some (ContentText s)\<rparr>"

definition parse_input ::
  "json_text \<Rightarrow> json option \<Rightarrow> ir_message list \<Rightarrow> conv_ctx \<Rightarrow> ir_message list \<times> conv_ctx" where
  "parse_input js input msgs ctx =
     (case input of
        None \<Rightarrow> (msgs, ctx)
      | Some (JStr s) \<Rightarrow> (msgs @ [text_message RoleUser s], ctx)
      | Some (JArr arr) \<Rightarrow> fold (input_item_step js) arr (msgs, ctx)
      | Some (JObj o') \<Rightarrow> input_item_step js (JObj o') (msgs, ctx)
      | Some _ \<Rightarrow> (msgs, degrade ''input'' ''input is no string, array or object, ignored'' ctx))"

definition degrade_stateful :: "json \<Rightarrow> conv_ctx \<Rightarrow> conv_ctx" where
  "degrade_stateful v ctx =
     fold (\<lambda>f ctx. if jget f v \<noteq> None then degrade f ''stateful field, kept in extra only'' ctx else ctx)
       [''previous_response_id'', ''store'', ''include'', ''background''] ctx"

definition resp_request_to_ir ::
  "json_text \<Rightarrow> json \<Rightarrow> conv_ctx \<Rightarrow> (convert_error + ir_request) \<times> conv_ctx" where
  "resp_request_to_ir js v ctx =
     (case as_object v of
        None \<Rightarrow> (Inl (ParseError ''request body is not an object''), ctx)
      | Some obj \<Rightarrow>
         (let system = (case Option.bind (jget ''instructions'' v) as_str of
                          Some instr \<Rightarrow> if instr \<noteq> [] then [text_message RoleSystem instr] else []
                        | None \<Rightarrow> []);
              (msgs, ctx1) = parse_input js (jget ''input'' v) system ctx;
              text = Option.bind (jget ''text'' v) as_object;
              ctx2 = (if Option.bind text (obj_get ''verbosity'') \<noteq> None
                      then degrade ''text.verbosity'' ''Responses only, no mapping'' ctx1 else ctx1)
          in (case (case jget ''tools'' v of
                      None \<Rightarrow> (Inr [], ctx2) | Some tools \<Rightarrow> parse_response_tools tools ctx2) of
                (Inl e, ctx3) \<Rightarrow> (Inl e, ctx3)
              | (Inr tools, ctx3) \<Rightarrow>
                 (Inr (default_request
                    \<lparr>req_model := str_or_empty (jidx v ''model''),
                     req_messages := msgs,
                     req_tools := tools,
                     req_tool_choice := jget ''tool_choice'' v,
                     req_temperature := as_f64 (jidx v ''temperature''),
                     req_top_p := as_f64 (jidx v ''top_p''),
                     req_max_tokens := Option.bind (jget ''max_output_tokens'' v) as_u64,
                     req_stream := unwrap_or False (as_bool (jidx v ''stream'')),
                     req_response_format := Option.bind text (obj_get ''format''),
                     req_extra := obj_collect (\<lambda>k. k \<notin> set resp_known_request_fields) obj []\<rparr>),
                  degrade_stateful v ctx3))))"

section \<open>Requests: IR to JSON\<close>

fun part_texts :: "ir_part list \<Rightarrow> string" where
  "part_texts [] = []"
| "part_texts (PartText t # ps) = t @ part_texts ps"
| "part_texts (_ # ps) = part_texts ps"

definition content_as_text :: "ir_content option \<Rightarrow> string" where
  "content_as_text content =
     (case content of
        Some (ContentText s) \<Rightarrow> s | Some (ContentParts ps) \<Rightarrow> part_texts ps | None \<Rightarrow> [])"

fun ir_part_to_input_part :: "string \<Rightarrow> ir_part \<Rightarrow> conv_ctx \<Rightarrow> json \<times> conv_ctx" where
  "ir_part_to_input_part ty (PartText t) ctx = (json_obj [(''type'', JStr ty), (''text'', JStr t)], ctx)"
| "ir_part_to_input_part ty (PartImageUrl url) ctx =
     (json_obj [(''type'', JStr ''input_image''), (''image_url'', JStr url)], ctx)"
| "ir_part_to_input_part ty (PartImageInline media data) ctx =
     (json_obj [(''type'', JStr ''input_image''),
                (''image_url'', JStr (''data:'' @ media @ '';base64,'' @ data))], ctx)"
| "ir_part_to_input_part ty (PartInputAudio data format) ctx =
     (json_obj [(''type'', JStr ty), (''text'', JStr [])],
      degrade ''content.input_audio'' ''no input_audio in Responses, dropped'' ctx)"
| "ir_part_to_input_part ty (PartFile name url data) ctx =
     (JObj
       (obj_insert_opt ''file_data'' (map_option JStr data)
         (obj_insert_opt ''file_url'' (map_option JStr url)
           (obj_insert_opt ''filename'' (if name = [] then None else Some (JStr name))
             (obj_insert ''type'' (JStr ''input_file'') [])))), ctx)"

definition request_message_item :: "ir_role \<Rightarrow> ir_content \<Rightarrow> conv_ctx \<Rightarrow> json \<times> conv_ctx" where
  "request_message_item role content ctx =
     (let (role_str, text_type) =
            (if role = RoleAssistant then (''assistant'', ''output_text'') else (''user'', ''input_text''));
          (parts, ctx') =
            (case content of
               ContentText s \<Rightarrow> ([json_obj [(''type'', JStr text_type), (''text'', JStr s)]], ctx)
             | ContentParts ps \<Rightarrow> map_ctx (ir_part_to_input_part text_type) ps ctx)
      in (json_obj [(''type'', JStr ''message''), (''role'', JStr role_str), (''content'', JArr parts)],
          ctx'))"

definition function_call_input_item :: "ir_tool_call \<Rightarrow> json" where
  "function_call_input_item tc =
     json_obj [(''type'', JStr ''function_call''), (''call_id'', JStr (tc_id tc)),
               (''name'', JStr (tc_name tc)), (''arguments'', JStr (tc_arguments tc))]"

definition call_output_item :: "ir_message \<Rightarrow> json" where
  "call_output_item m =
     json_obj [(''type'', JStr ''function_call_output''),
               (''call_id'', JStr (unwrap_or [] (msg_tool_call_id m))),
               (''output'', JStr (content_as_text (msg_content m)))]"

definition response_tool_from_ir :: "ir_tool \<Rightarrow> json" where
  "response_tool_from_ir t =
     JObj
       (obj_insert ''parameters'' (tool_parameters t)
         (obj_insert_opt ''description'' (map_option JStr (tool_description t))
           (obj_insert ''name'' (JStr (tool_name t))
             (obj_insert ''type'' (JStr ''function'') []))))"

definition resp_degrade_ext :: "ir_ext \<Rightarrow> conv_ctx \<Rightarrow> conv_ctx" where
  "resp_degrade_ext e ctx =
     (let no_field = ''no such field in a Responses request'';
          note = (\<lambda>present field ctx. if present then degrade field no_field ctx else ctx)
      in fold (\<lambda>k. degrade k no_field) (obj_keys (ext_extra e))
           (note (ext_service_tier e \<noteq> None) ''ext.service_tier''
             (note (ext_top_k e \<noteq> None) ''ext.top_k''
               (note (ext_cache_control e \<noteq> None) ''ext.cache_control''
                 (note (ext_web_search e \<noteq> None) ''ext.web_search''
                   (note (ext_thinking e \<noteq> None) ''ext.thinking'' ctx))))))"

text \<open>One message of the loop: the instructions so far, the items so far, the log.\<close>

definition join_instructions :: "string \<Rightarrow> string \<Rightarrow> string" where
  "join_instructions instructions text =
     (if text = [] then instructions
      else if instructions = [] then text else instructions @ [CHR 0x0A] @ text)"

definition resp_message_step ::
  "ir_message \<Rightarrow> string \<times> json list \<times> conv_ctx \<Rightarrow> string \<times> json list \<times> conv_ctx" where
  "resp_message_step m acc =
     (let (instructions, items, ctx) = acc
      in case msg_role m of
           RoleSystem \<Rightarrow>
             (join_instructions instructions (content_as_text (msg_content m)), items, ctx)
         | RoleTool \<Rightarrow> (instructions, items @ [call_output_item m], ctx)
         | _ \<Rightarrow>
             (let (item, ctx') =
                (case msg_content m of
                   None \<Rightarrow> ([], ctx)
                 | Some c \<Rightarrow> (let (i, c') = request_message_item (msg_role m) c ctx in ([i], c')))
              in (instructions, items @ item @ map function_call_input_item (msg_tool_calls m), ctx')))"

text \<open>The nested form of a function choice is flattened; every other choice is copied.\<close>

definition resp_tool_choice :: "json \<Rightarrow> json" where
  "resp_tool_choice tc =
     (if is_object tc \<and> Option.bind (jget ''type'' tc) as_str = Some ''function'' \<and>
         jget ''name'' tc = None \<and> Option.bind (jget ''function'' tc) (jget ''name'') \<noteq> None
      then json_obj [(''type'', JStr ''function''), (''name'', jidx (jidx tc ''function'') ''name'')]
      else tc)"

definition resp_request_from_ir ::
  "ir_request \<Rightarrow> conv_ctx \<Rightarrow> (convert_error + json) \<times> conv_ctx" where
  "resp_request_from_ir req ctx =
     (let (instructions, items, ctx1) =
            fold resp_message_step (req_messages req) ([], [], resp_degrade_ext (req_ext req) ctx);
          note = (\<lambda>present field ctx.
                    if present then degrade field (''no '' @ field @ '' in Responses, ignored'') ctx else ctx)
      in (Inr (JObj
            (obj_insert_fields
              [(''model'', Some (JStr (req_model req))),
               (''instructions'', if instructions = [] then None else Some (JStr instructions)),
               (''input'', Some (JArr items)),
               (''tools'', if req_tools req = [] then None
                           else Some (JArr (map response_tool_from_ir (req_tools req)))),
               (''tool_choice'', map_option resp_tool_choice (req_tool_choice req)),
               (''temperature'', map_option json_f64 (req_temperature req)),
               (''top_p'', map_option json_f64 (req_top_p req)),
               (''max_output_tokens'', map_option json_u64 (req_max_tokens req)),
               (''user'', map_option JStr (req_user req)),
               (''text'', map_option (\<lambda>rf. json_obj [(''format'', rf)]) (req_response_format req)),
               (''stream'', Some (JBool (req_stream req)))]
              (req_extra req))),
          note (req_n req \<noteq> None) ''n''
            (note (req_stop req \<noteq> None) ''stop'' (note (req_seed req \<noteq> None) ''seed'' ctx1))))"

section \<open>Usage\<close>

definition resp_usage_fields :: "string list" where
  "resp_usage_fields =
     [''input_tokens'', ''output_tokens'', ''total_tokens'', ''input_tokens_details'',
      ''output_tokens_details'']"

text \<open>The entries of a details object but one, or nothing when that leaves none.\<close>

definition details_rest :: "string \<Rightarrow> jmap \<Rightarrow> json option" where
  "details_rest key details =
     (let rest = obj_collect (\<lambda>k. k \<noteq> key) details [] in if rest = [] then None else Some (JObj rest))"

definition parse_responses_usage :: "json \<Rightarrow> ir_usage" where
  "parse_responses_usage u =
     (let input = Option.bind (jget ''input_tokens_details'' u) as_object;
          output = Option.bind (jget ''output_tokens_details'' u) as_object;
          cached = Option.bind (Option.bind input (obj_get ''cached_tokens'')) as_u64;
          reasoning = Option.bind (Option.bind output (obj_get ''reasoning_tokens'')) as_u64;
          extra = obj_insert_opt ''output_tokens_details'' (Option.bind output (details_rest ''reasoning_tokens''))
                    (obj_insert_opt ''reasoning_tokens'' (map_option json_u64 reasoning)
                      (obj_insert_opt ''input_tokens_details'' (Option.bind input (details_rest ''cached_tokens'')) []))
      in \<lparr>us_prompt_tokens =
            saturating_sub (unwrap_or 0 (as_u64 (jidx u ''input_tokens''))) (unwrap_or 0 cached),
          us_completion_tokens = unwrap_or 0 (as_u64 (jidx u ''output_tokens'')),
          us_cache_read_tokens = cached,
          us_cache_write_tokens = None,
          us_total_tokens = as_u64 (jidx u ''total_tokens''),
          us_extra =
            (case as_object u of
               None \<Rightarrow> extra
             | Some m \<Rightarrow> obj_collect (\<lambda>k. k \<notin> set resp_usage_fields) m extra)\<rparr>)"

definition resp_own_details :: "string list" where
  "resp_own_details =
     [''reasoning_tokens'', ''output_tokens_details'', ''input_tokens_details'',
      ''completion_tokens_details'']"

definition merge_details :: "json option \<Rightarrow> jmap \<Rightarrow> jmap" where
  "merge_details d acc =
     (case Option.bind d as_object of
        None \<Rightarrow> acc | Some m \<Rightarrow> fold (\<lambda>(k, v). obj_or_insert k v) m acc)"

definition details_field :: "jmap \<Rightarrow> json option" where
  "details_field m = (if m = [] then None else Some (JObj m))"

definition usage_from_ir :: "ir_usage \<Rightarrow> conv_ctx \<Rightarrow> json \<times> conv_ctx" where
  "usage_from_ir u ctx =
     (let extra = us_extra u;
          input = merge_details (obj_get ''input_tokens_details'' extra)
                    (obj_insert_opt ''cached_tokens'' (map_option json_u64 (us_cache_read_tokens u)) []);
          output = merge_details (obj_get ''output_tokens_details'' extra)
                     (merge_details (obj_get ''completion_tokens_details'' extra)
                       (obj_insert_opt ''reasoning_tokens'' (obj_get ''reasoning_tokens'' extra) []));
          out = obj_insert_opt ''output_tokens_details'' (details_field output)
                  (obj_insert_opt ''input_tokens_details'' (details_field input)
                    (obj_insert_opt ''total_tokens'' (map_option json_u64 (us_total_tokens u))
                      (obj_insert ''output_tokens'' (json_u64 (us_completion_tokens u))
                        (obj_insert ''input_tokens''
                          (json_u64
                            (saturating_add (us_prompt_tokens u) (unwrap_or 0 (us_cache_read_tokens u))))
                          []))))
      in (JObj (obj_collect (\<lambda>k. k \<notin> set resp_own_details) extra out),
          if us_cache_write_tokens u \<noteq> None
          then degrade ''usage.cache_write_tokens'' ''no cache_write_tokens in Responses'' ctx else ctx))"

section \<open>Responses\<close>

definition append_message_text :: "string \<Rightarrow> ir_message \<Rightarrow> ir_message" where
  "append_message_text text msg =
     (if text = [] then msg
      else msg\<lparr>msg_content := Some
        (case msg_content msg of
           Some (ContentText s) \<Rightarrow> ContentText (s @ text)
         | Some (ContentParts ps) \<Rightarrow>
             (case (ps, last ps) of
                (_ # _, PartText t) \<Rightarrow> ContentParts (butlast ps @ [PartText (t @ text)])
              | _ \<Rightarrow> ContentParts (ps @ [PartText text]))
         | None \<Rightarrow> ContentText text)\<rparr>)"

definition output_part_step :: "json \<Rightarrow> string \<times> conv_ctx \<Rightarrow> string \<times> conv_ctx" where
  "output_part_step part acc =
     (let (text, ctx) = acc
      in case as_str (jidx part ''text'') of
           Some t \<Rightarrow> (text @ t, ctx)
         | None \<Rightarrow> (text, degrade ''output.message.content.part'' ''unknown content part, ignored'' ctx))"

definition summary_text :: "json list \<Rightarrow> string" where
  "summary_text summary = concat (List.map_filter (\<lambda>s. as_str (jidx s ''text'')) summary)"

definition output_item_step ::
  "json_text \<Rightarrow> json \<Rightarrow> ir_message \<times> conv_ctx \<Rightarrow> ir_message \<times> conv_ctx" where
  "output_item_step js item acc =
     (let (msg, ctx) = acc; ty = str_or_empty (jidx item ''type'')
      in if ty = ''message'' then
           (case Option.bind (jget ''content'' item) as_array of
              None \<Rightarrow> (msg, ctx)
            | Some content \<Rightarrow>
                (let (text, ctx') = fold output_part_step content ([], ctx)
                 in (append_message_text text msg, ctx')))
         else if ty = ''function_call'' then
           (msg\<lparr>msg_tool_calls := msg_tool_calls msg @ [input_function_call js item]\<rparr>, ctx)
         else if ty = ''reasoning'' then
           (case Option.bind (jget ''summary'' item) as_array of
              None \<Rightarrow> (msg, ctx)
            | Some summary \<Rightarrow>
                (let texts = summary_text summary
                 in (if texts = [] then msg
                     else msg\<lparr>msg_reasoning_content :=
                            Some (unwrap_or [] (msg_reasoning_content msg) @ texts)\<rparr>, ctx)))
         else (msg, degrade ''output.item.type'' (''unknown output item type: '' @ ty) ctx))"

definition resp_response_to_ir ::
  "json_text \<Rightarrow> json \<Rightarrow> conv_ctx \<Rightarrow> (convert_error + ir_response) \<times> conv_ctx" where
  "resp_response_to_ir js v ctx =
     (case as_object v of
        None \<Rightarrow> (Inl (ParseError ''response body is not an object''), ctx)
      | Some obj \<Rightarrow>
         (let (msg, ctx1) =
                fold (output_item_step js)
                  (unwrap_or [] (Option.bind (jget ''output'' v) as_array))
                  (default_message\<lparr>msg_role := RoleAssistant\<rparr>, ctx);
              status = as_str (jidx v ''status'')
          in (Inr
                \<lparr>rsp_id = str_or_empty (jidx v ''id''),
                 rsp_model = str_or_empty (jidx v ''model''),
                 rsp_created = unwrap_or 0 (as_i64 (jidx v ''created_at'')),
                 rsp_choices =
                   [\<lparr>cho_index = 0, cho_message = msg,
                     cho_finish_reason = map_option normalize_finish_reason status\<rparr>],
                 rsp_usage = map_option parse_responses_usage (jget ''usage'' v),
                 rsp_system_fingerprint = None,
                 rsp_extra =
                   obj_collect (\<lambda>k. k \<notin> set resp_known_response_fields) obj
                     (obj_insert_opt ''incomplete_details''
                       (if status = Some ''incomplete'' then jget ''incomplete_details'' v else None) [])\<rparr>,
              ctx1)))"

text \<open>
  \<open>rand_suffix\<close>: the nanoseconds of the clock and a process-wide counter, both in hexadecimal.
  \<open>clock\<close> is what the clock says at each count; the counter is threaded through.
\<close>

fun lower_hex :: "nat \<Rightarrow> string" where
  "lower_hex n =
     (let d = (\<lambda>k. char_of (if k < 10 then 48 + k else 87 + k))
      in if n < 16 then [d n] else lower_hex (n div 16) @ [d (n mod 16)])"

declare lower_hex.simps [simp del]

definition rand_suffix :: "(u64 \<Rightarrow> nat) \<Rightarrow> u64 \<Rightarrow> string \<times> u64" where
  "rand_suffix clock seq = (lower_hex (clock seq) @ lower_hex (unat seq), seq + 1)"

definition output_message_item :: "ir_role \<Rightarrow> string \<Rightarrow> string \<Rightarrow> json" where
  "output_message_item role text uid =
     json_obj
       [(''id'', JStr uid), (''type'', JStr ''message''), (''status'', JStr ''completed''),
        (''role'', JStr (role_to_response_str role)),
        (''content'', JArr (if text = [] then []
           else [json_obj [(''type'', JStr ''output_text''), (''text'', JStr text)]]))]"

definition output_call_item :: "string \<Rightarrow> string \<Rightarrow> string \<Rightarrow> string \<Rightarrow> json" where
  "output_call_item uid call_id name arguments =
     json_obj
       [(''id'', JStr uid), (''type'', JStr ''function_call''), (''status'', JStr ''completed''),
        (''call_id'', JStr call_id), (''name'', JStr name), (''arguments'', JStr arguments)]"

definition output_reasoning_item :: "string \<Rightarrow> string \<Rightarrow> json" where
  "output_reasoning_item text uid =
     json_obj
       [(''id'', JStr uid), (''type'', JStr ''reasoning''), (''status'', JStr ''completed''),
        (''summary'', JArr (if text = [] then []
           else [json_obj [(''type'', JStr ''summary_text''), (''text'', JStr text)]]))]"

definition output_function_call_item ::
  "(u64 \<Rightarrow> nat) \<Rightarrow> ir_tool_call \<Rightarrow> u64 \<Rightarrow> json \<times> u64" where
  "output_function_call_item clock tc seq =
     (let (s, seq') = rand_suffix clock seq
      in (output_call_item (''fc_'' @ s) (tc_id tc) (tc_name tc) (tc_arguments tc), seq'))"

definition choice_output :: "(u64 \<Rightarrow> nat) \<Rightarrow> ir_choice \<Rightarrow> u64 \<Rightarrow> json list \<times> u64" where
  "choice_output clock ch seq =
     (let msg = cho_message ch;
          (text, seq1) =
            (case msg_content msg of
               None \<Rightarrow> ([], seq)
             | Some c \<Rightarrow>
                 (let (s, seq') = rand_suffix clock seq
                  in ([output_message_item (msg_role msg) (content_as_text (Some c)) (''msg_'' @ s)], seq')));
          (calls, seq2) = map_ctx (output_function_call_item clock) (msg_tool_calls msg) seq1;
          (think, seq3) =
            (case msg_reasoning_content msg of
               None \<Rightarrow> ([], seq2)
             | Some rc \<Rightarrow>
                 (let (s, seq') = rand_suffix clock seq2
                  in ([output_reasoning_item rc (''rs_'' @ s)], seq')))
      in (text @ calls @ think, seq3))"

definition resp_status :: "ir_response \<Rightarrow> string" where
  "resp_status resp =
     (let finish = (case rsp_choices resp of [] \<Rightarrow> None | c # _ \<Rightarrow> cho_finish_reason c)
      in if finish = Some ''length'' then ''incomplete''
         else if finish = Some ''failed'' then ''failed''
         else if obj_get ''incomplete_details'' (rsp_extra resp) \<noteq> None then ''incomplete''
         else ''completed'')"

definition max_tokens_details :: json where
  "max_tokens_details = json_obj [(''reason'', JStr ''max_output_tokens'')]"

text \<open>The message of a failed response, in its UTF-8 bytes.\<close>

definition failed_message :: string where
  "failed_message =
     map char_of
       [228, 184, 138, 230, 184, 184, 229, 147, 141, 229, 186, 148, 229, 164, 177, 232, 180, 165 :: nat]"

definition server_error_json :: json where
  "server_error_json =
     json_obj [(''code'', JStr ''server_error''), (''message'', JStr failed_message)]"

definition resp_usage_opt :: "ir_usage option \<Rightarrow> conv_ctx \<Rightarrow> json option \<times> conv_ctx" where
  "resp_usage_opt u ctx =
     (case u of None \<Rightarrow> (None, ctx) | Some us \<Rightarrow> (let (j, ctx') = usage_from_ir us ctx in (Some j, ctx')))"

definition resp_response_from_ir ::
  "(u64 \<Rightarrow> nat) \<Rightarrow> ir_response \<Rightarrow> u64 \<Rightarrow> conv_ctx \<Rightarrow> (convert_error + json) \<times> u64 \<times> conv_ctx" where
  "resp_response_from_ir clock resp seq ctx =
     (let status = resp_status resp;
          details = obj_get ''incomplete_details'' (rsp_extra resp);
          ctx1 = (if 1 < length (rsp_choices resp)
                  then degrade ''choices'' ''several choices put into one output'' ctx else ctx);
          (outputs, seq') = map_ctx (choice_output clock) (rsp_choices resp) seq;
          (usage, ctx2) = resp_usage_opt (rsp_usage resp) ctx1
      in (Inr (JObj
            (obj_insert_fields
              [(''id'', Some (JStr (rsp_id resp))),
               (''object'', Some (JStr ''response'')),
               (''created_at'', Some (json_i64 (rsp_created resp))),
               (''model'', Some (JStr (rsp_model resp))),
               (''status'', Some (JStr status)),
               (''incomplete_details'',
                 if details \<noteq> None then details
                 else if status = ''incomplete'' then Some max_tokens_details else None),
               (''error'', if status = ''failed'' then Some server_error_json else None),
               (''output'', Some (JArr (concat outputs))),
               (''usage'', usage)]
              (rsp_extra resp))),
          seq', ctx2))"

end
