(* ===== verification/Channels.thy ===== *)
theory Channels
  imports Ir
begin

text \<open>
  What the outbound side of every protocol is driven with: a list of IR chunks, in which the
  upstream may break off. The three channels of a stream, and what a chunk says on each of them.
\<close>

text \<open>The first choice's delta and finish reason, and what they carry.\<close>

definition chunk_choice :: "ir_chunk \<Rightarrow> ir_delta \<times> string option" where
  "chunk_choice chunk =
     (case chk_choices chunk of
        c # _ \<Rightarrow> (cc_delta c, cc_finish_reason c) | [] \<Rightarrow> (default_delta, None))"

text \<open>The calls a stream makes: chunks, and \<open>mark_failed\<close> when the upstream breaks off.\<close>

datatype stream_op = OutChunk ir_chunk | MarkFailed

definition quiet :: "ir_chunk \<Rightarrow> bool" where
  "quiet chunk \<longleftrightarrow>
     (let (delta, fr) = chunk_choice chunk
      in dl_content delta = None \<and> dl_reasoning_content delta = None \<and> dl_tool_calls delta = [] \<and>
         fr = None)"

text \<open>After the chunk with the finish reason come only quiet ones (the usage tail).\<close>

fun finish_last :: "ir_chunk list \<Rightarrow> bool" where
  "finish_last [] = True"
| "finish_last (c # cs) =
     (if snd (chunk_choice c) \<noteq> None then list_all quiet cs else finish_last cs)"

section \<open>Channels\<close>

datatype channel = TextChannel | ThinkingChannel | ToolChannel

fun delta_says :: "channel \<Rightarrow> ir_delta \<Rightarrow> string" where
  "delta_says TextChannel d = unwrap_or [] (dl_content d)"
| "delta_says ThinkingChannel d = unwrap_or [] (dl_reasoning_content d)"
| "delta_says ToolChannel d = concat (map (\<lambda>tc. unwrap_or [] (tcd_arguments tc)) (dl_tool_calls d))"

definition chunk_says :: "channel \<Rightarrow> ir_chunk \<Rightarrow> string" where
  "chunk_says ch chunk = delta_says ch (fst (chunk_choice chunk))"

fun op_says :: "channel \<Rightarrow> stream_op \<Rightarrow> string" where
  "op_says ch (OutChunk chunk) = chunk_says ch chunk"
| "op_says ch MarkFailed = []"

lemma default_delta_says [simp]: "delta_says ch default_delta = []"
  by (cases ch) (simp_all add: default_delta_def)

section \<open>Reading a stream\<close>

text \<open>
  The inbound side turns one event at a time into at most one chunk. Its contract: of the events
  that a client of the protocol accepts, it reads on each channel what they say, as long as the
  items the client knows are registered.
\<close>

definition read_says :: "channel \<Rightarrow> convert_error + ir_chunk option \<Rightarrow> string" where
  "read_says ch r = (case r of Inr (Some chunk) \<Rightarrow> chunk_says ch chunk | _ \<Rightarrow> [])"

fun read_all ::
  "(json \<Rightarrow> 's \<Rightarrow> conv_ctx \<Rightarrow> (convert_error + ir_chunk option) \<times> 's \<times> conv_ctx) \<Rightarrow> json list \<Rightarrow>
   's \<times> conv_ctx \<Rightarrow> ir_chunk list" where
  "read_all f [] c = []"
| "read_all f (v # vs) (st, ctx) =
     (let (r, st', ctx') = f v st ctx
      in (case r of Inr (Some chunk) \<Rightarrow> [chunk] | _ \<Rightarrow> []) @ read_all f vs (st', ctx'))"

locale event_reader =
  fixes reads :: "json \<Rightarrow> 's \<Rightarrow> conv_ctx \<Rightarrow> (convert_error + ir_chunk option) \<times> 's \<times> conv_ctx"
    and accept :: "json \<Rightarrow> 'c \<Rightarrow> 'c option"
    and registered :: "'c \<Rightarrow> 's \<Rightarrow> bool"
    and says :: "channel \<Rightarrow> json \<Rightarrow> string"
  assumes read_says_event:
    "accept v c = Some c' \<Longrightarrow> registered c st \<Longrightarrow> reads v st ctx = (r, st', ctx') \<Longrightarrow>
     registered c' st' \<and> read_says ch r = says ch v"
begin

lemma read_all_says:
  "accepts accept vs c = Some c' \<Longrightarrow> registered c st \<Longrightarrow>
   concat (map (chunk_says ch) (read_all reads vs (st, ctx))) = concat (map (says ch) vs)"
proof (induction vs arbitrary: c st ctx)
  case (Cons v vs)
  obtain c1 where c1: "accept v c = Some c1" "accepts accept vs c1 = Some c'"
    using Cons.prems(1) by (auto split: Option.bind_splits)
  obtain r st1 ctx1 where r: "reads v st ctx = (r, st1, ctx1)" by (metis prod_cases3)
  from read_says_event [OF c1(1) Cons.prems(2) r]
  have "registered c1 st1" "read_says ch r = says ch v" by auto
  with Cons.IH [OF c1(2)] show ?case
    by (auto simp: r read_says_def split: sum.splits option.splits)
qed simp

end

end
