(* ===== verification/ResponsesStream.thy ===== *)
theory ResponsesStream
  imports Responses Channels "HOL-Library.AList"
begin

text \<open>
  The stream half of \<open>src/protocol/responses.rs\<close>: Responses events to IR chunks
  (\<open>resp_chunk_to_ir\<close>) and IR chunks to Responses events (\<open>resp_chunk_from_ir\<close>, \<open>resp_stream_end\<close>,
  \<open>mark_failed\<close>). The two halves use separate fields of one state.
\<close>

section \<open>State\<close>

record fn_item =
  fi_output_index :: u32
  fi_item_id :: string
  fi_call_id :: string
  fi_name :: string
  fi_arguments :: string

text \<open>The map of tool items is kept in the order of insertion; the code sorts it by output index.\<close>

record resp_stream =
  rs_id :: string
  rs_model :: string
  rs_created_at :: i64
  rs_item_to_index :: "string \<Rightarrow> u32 option"
  rs_fn_meta :: "u32 \<Rightarrow> (string \<times> string) option"
  rs_fn_index_counter :: u32
  rs_created :: bool
  rs_completed :: bool
  rs_next_output_index :: u32
  rs_message_added :: bool
  rs_message_id :: string
  rs_message_index :: u32
  rs_message_text :: string
  rs_reasoning_added :: bool
  rs_reasoning_id :: string
  rs_reasoning_index :: u32
  rs_reasoning_text :: string
  rs_tool_items :: "(u32 \<times> fn_item) list"
  rs_last_usage :: "ir_usage option"
  rs_pending_finish :: "string option"

definition resp_stream_new :: resp_stream where
  "resp_stream_new =
     \<lparr>rs_id = [], rs_model = [], rs_created_at = 0, rs_item_to_index = (\<lambda>_. None),
      rs_fn_meta = (\<lambda>_. None), rs_fn_index_counter = 0, rs_created = False, rs_completed = False,
      rs_next_output_index = 0, rs_message_added = False, rs_message_id = [], rs_message_index = 0,
      rs_message_text = [], rs_reasoning_added = False, rs_reasoning_id = [],
      rs_reasoning_index = 0, rs_reasoning_text = [], rs_tool_items = [], rs_last_usage = None,
      rs_pending_finish = None\<rparr>"

section \<open>Responses events to IR chunks\<close>

text \<open>\<open>base_chunk\<close> with one choice.\<close>

definition resp_chunk :: "resp_stream \<Rightarrow> ir_delta \<Rightarrow> string option \<Rightarrow> ir_usage option \<Rightarrow> ir_chunk" where
  "resp_chunk st delta fr usage =
     default_chunk\<lparr>chk_id := rs_id st, chk_model := rs_model st, chk_created := rs_created_at st,
       chk_choices := [\<lparr>cc_index = 0, cc_delta = delta, cc_finish_reason = fr\<rparr>],
       chk_usage := usage\<rparr>"

type_synonym resp_in = "(convert_error + ir_chunk option) \<times> resp_stream \<times> conv_ctx"

definition in_created :: "json \<Rightarrow> resp_stream \<Rightarrow> conv_ctx \<Rightarrow> resp_in" where
  "in_created v st ctx =
     (let resp = jidx v ''response''
      in (Inr None,
          st\<lparr>rs_id := str_or_empty (jidx resp ''id''), rs_model := str_or_empty (jidx resp ''model''),
             rs_created_at := unwrap_or 0 (as_i64 (jidx resp ''created_at''))\<rparr>, ctx))"

text \<open>\<open>call_id\<close> where it is not empty, else the item's own id.\<close>

definition call_id_of :: "json \<Rightarrow> string" where
  "call_id_of item =
     (case as_str (jidx item ''call_id'') of
        Some s \<Rightarrow> if s \<noteq> [] then s else str_or_empty (jidx item ''id'')
      | None \<Rightarrow> str_or_empty (jidx item ''id''))"

definition in_item_added :: "json \<Rightarrow> resp_stream \<Rightarrow> conv_ctx \<Rightarrow> resp_in" where
  "in_item_added v st ctx =
     (let item = jidx v ''item''
      in (Inr None,
          if as_str (jidx item ''type'') = Some ''function_call'' then
            (let idx = rs_fn_index_counter st
             in st\<lparr>rs_fn_index_counter := idx + 1,
                   rs_item_to_index := (rs_item_to_index st)(str_or_empty (jidx item ''id'') \<mapsto> idx),
                   rs_fn_meta := (rs_fn_meta st)
                     (idx \<mapsto> (call_id_of item, str_or_empty (jidx item ''name'')))\<rparr>)
          else st, ctx))"

definition in_item_done :: "json \<Rightarrow> resp_stream \<Rightarrow> conv_ctx \<Rightarrow> resp_in" where
  "in_item_done v st ctx =
     (let item = jidx v ''item''
      in (Inr None,
          if as_str (jidx item ''type'') = Some ''function_call'' then
            (case rs_item_to_index st (str_or_empty (jidx item ''id'')) of
               None \<Rightarrow> st
             | Some idx \<Rightarrow>
                 (let (cid, name) = unwrap_or ([], []) (rs_fn_meta st idx)
                  in st\<lparr>rs_fn_meta := (rs_fn_meta st)
                       (idx \<mapsto> (if cid = [] then call_id_of item else cid,
                                if name = [] then str_or_empty (jidx item ''name'') else name))\<rparr>))
          else st, ctx))"

definition in_text_delta :: "json \<Rightarrow> resp_stream \<Rightarrow> conv_ctx \<Rightarrow> resp_in" where
  "in_text_delta v st ctx =
     (let text = str_or_empty (jidx v ''delta'')
      in (Inr (if text = [] then None
               else Some (resp_chunk st (default_delta\<lparr>dl_content := Some text\<rparr>) None None)), st, ctx))"

definition in_reasoning_delta :: "json \<Rightarrow> resp_stream \<Rightarrow> conv_ctx \<Rightarrow> resp_in" where
  "in_reasoning_delta v st ctx =
     (let text = str_or_empty (jidx v ''delta'')
      in (Inr (if text = [] then None
               else Some (resp_chunk st (default_delta\<lparr>dl_reasoning_content := Some text\<rparr>) None None)),
          st, ctx))"

definition some_nonempty :: "string \<Rightarrow> string option" where
  "some_nonempty s = (if s = [] then None else Some s)"

definition in_arguments_delta :: "json \<Rightarrow> resp_stream \<Rightarrow> conv_ctx \<Rightarrow> resp_in" where
  "in_arguments_delta v st ctx =
     (let item_id = str_or_empty (jidx v ''item_id''); text = str_or_empty (jidx v ''delta'')
      in if text = [] then (Inr None, st, ctx)
         else (case rs_item_to_index st item_id of
                 None \<Rightarrow>
                   (Inr None, st,
                    degrade ''stream.function_call_arguments.delta''
                      (''unknown item_id, arguments dropped: '' @ item_id) ctx)
               | Some index \<Rightarrow>
                   (let (call_id, name) = unwrap_or ([], []) (rs_fn_meta st index)
                    in (Inr (Some (resp_chunk st
                          (default_delta\<lparr>dl_tool_calls :=
                             [\<lparr>tcd_index = index, tcd_id = some_nonempty call_id,
                               tcd_name = some_nonempty name, tcd_arguments = Some text\<rparr>]\<rparr>)
                          None None)), st, ctx))))"

definition in_finished :: "string \<Rightarrow> json \<Rightarrow> resp_stream \<Rightarrow> conv_ctx \<Rightarrow> resp_in" where
  "in_finished etype v st ctx =
     (let finish = (if etype = ''response.completed'' then ''completed'' else ''incomplete'')
      in (Inr (Some (resp_chunk st default_delta (Some (normalize_finish_reason finish))
               (map_option parse_responses_usage (jget ''usage'' (jidx v ''response''))))), st, ctx))"

definition in_failed :: "json \<Rightarrow> resp_stream \<Rightarrow> conv_ctx \<Rightarrow> resp_in" where
  "in_failed v st ctx =
     (let resp = jidx v ''response'';
          msg = unwrap_or ''unknown error'' (as_str (jidx (jidx resp ''error'') ''message''))
      in (Inr (Some (resp_chunk st default_delta (Some ''failed'')
               (map_option parse_responses_usage (jget ''usage'' resp)))), st,
          degrade ''stream.response.failed'' (''upstream response failed: '' @ msg) ctx))"

definition in_stream_error :: "json \<Rightarrow> resp_stream \<Rightarrow> conv_ctx \<Rightarrow> resp_in" where
  "in_stream_error v st ctx =
     (Inr (Some (resp_chunk st default_delta (Some ''failed'') None)), st,
      degrade ''stream.error''
        (''upstream error event: '' @ unwrap_or ''unknown error'' (as_str (jidx v ''message''))) ctx)"

definition silent_events :: "string list" where
  "silent_events =
     [''response.in_progress'', ''response.queued'', ''response.output_text.done'',
      ''response.content_part.added'', ''response.content_part.done'',
      ''response.function_call_arguments.done'', ''response.reasoning_summary_part.added'',
      ''response.reasoning_summary_part.done'', ''response.reasoning_summary_text.done'',
      ''response.output_text.annotation.added'', ''response.refusal.delta'', ''response.refusal.done'']"

definition resp_event_to_ir :: "json \<Rightarrow> resp_stream \<Rightarrow> conv_ctx \<Rightarrow> resp_in" where
  "resp_event_to_ir v st ctx =
     (if \<not> is_object v then (Inl (ParseError ''chunk is not an object''), st, ctx)
      else
        (let etype = str_or_empty (jidx v ''type'')
         in if etype = ''response.created'' then in_created v st ctx
            else if etype = ''response.output_item.added'' then in_item_added v st ctx
            else if etype = ''response.output_item.done'' then in_item_done v st ctx
            else if etype = ''response.output_text.delta'' then in_text_delta v st ctx
            else if etype = ''response.reasoning_summary_text.delta'' then in_reasoning_delta v st ctx
            else if etype = ''response.function_call_arguments.delta'' then in_arguments_delta v st ctx
            else if etype = ''response.completed'' \<or> etype = ''response.incomplete''
              then in_finished etype v st ctx
            else if etype = ''response.failed'' then in_failed v st ctx
            else if etype = ''error'' then in_stream_error v st ctx
            else if etype \<in> set silent_events then (Inr None, st, ctx)
            else (Inr None, st, degrade ''stream.event.type'' (''unknown event, ignored: '' @ etype) ctx)))"

definition resp_chunk_to_ir :: "json_text \<Rightarrow> string \<Rightarrow> resp_stream \<Rightarrow> conv_ctx \<Rightarrow> resp_in" where
  "resp_chunk_to_ir js data st ctx =
     (case from_text js data of
        Inl e \<Rightarrow> (Inl (ParseError e), st, ctx)
      | Inr v \<Rightarrow> resp_event_to_ir v st ctx)"

section \<open>IR chunks to Responses events\<close>

definition response_created_event :: "resp_stream \<Rightarrow> json" where
  "response_created_event st =
     json_obj
       [(''type'', JStr ''response.created''),
        (''response'', json_obj
           [(''id'', JStr (rs_id st)), (''object'', JStr ''response''),
            (''created_at'', json_i64 (rs_created_at st)), (''status'', JStr ''in_progress''),
            (''model'', JStr (rs_model st)), (''output'', JArr []), (''usage'', JNull)])]"

definition item_added_event :: "u32 \<Rightarrow> (string \<times> json) list \<Rightarrow> json" where
  "item_added_event index item =
     json_obj [(''type'', JStr ''response.output_item.added''), (''output_index'', json_u32 index),
               (''item'', json_obj item)]"

definition message_added_event :: "resp_stream \<Rightarrow> json" where
  "message_added_event st =
     item_added_event (rs_message_index st)
       [(''id'', JStr (rs_message_id st)), (''type'', JStr ''message''),
        (''status'', JStr ''in_progress''), (''role'', JStr ''assistant''), (''content'', JArr [])]"

definition output_text_delta_event :: "resp_stream \<Rightarrow> string \<Rightarrow> json" where
  "output_text_delta_event st text =
     json_obj
       [(''type'', JStr ''response.output_text.delta''), (''item_id'', JStr (rs_message_id st)),
        (''output_index'', json_u32 (rs_message_index st)), (''content_index'', json_u64 0),
        (''delta'', JStr text)]"

definition reasoning_added_event :: "resp_stream \<Rightarrow> json" where
  "reasoning_added_event st =
     item_added_event (rs_reasoning_index st)
       [(''id'', JStr (rs_reasoning_id st)), (''type'', JStr ''reasoning''),
        (''status'', JStr ''in_progress''),
        (''summary'', JArr [json_obj [(''type'', JStr ''summary_text''), (''text'', JStr [])]])]"

definition reasoning_delta_event :: "resp_stream \<Rightarrow> string \<Rightarrow> json" where
  "reasoning_delta_event st text =
     json_obj
       [(''type'', JStr ''response.reasoning_summary_text.delta''),
        (''item_id'', JStr (rs_reasoning_id st)),
        (''output_index'', json_u32 (rs_reasoning_index st)), (''summary_index'', json_u64 0),
        (''delta'', JStr text)]"

text \<open>The two events of a tool item take the item itself; the code looks it up by its index.\<close>

definition call_added_event :: "fn_item \<Rightarrow> json" where
  "call_added_event item =
     item_added_event (fi_output_index item)
       [(''id'', JStr (fi_item_id item)), (''type'', JStr ''function_call''),
        (''status'', JStr ''in_progress''), (''call_id'', JStr (fi_call_id item)),
        (''name'', JStr (fi_name item)), (''arguments'', JStr (fi_arguments item))]"

definition arguments_delta_event :: "fn_item \<Rightarrow> string \<Rightarrow> json" where
  "arguments_delta_event item text =
     json_obj
       [(''type'', JStr ''response.function_call_arguments.delta''),
        (''item_id'', JStr (fi_item_id item)), (''output_index'', json_u32 (fi_output_index item)),
        (''delta'', JStr text)]"

definition call_item_from_state :: "fn_item \<Rightarrow> json" where
  "call_item_from_state item =
     output_call_item (fi_item_id item) (fi_call_id item) (fi_name item) (fi_arguments item)"

definition final_output :: "resp_stream \<Rightarrow> json list" where
  "final_output st =
     (if rs_message_added st
      then [output_message_item RoleAssistant (rs_message_text st) (rs_message_id st)] else []) @
     (if rs_reasoning_added st
      then [output_reasoning_item (rs_reasoning_text st) (rs_reasoning_id st)] else []) @
     map call_item_from_state (sort_key fi_output_index (map snd (rs_tool_items st)))"

definition build_final_response ::
  "resp_stream \<Rightarrow> ir_usage option \<Rightarrow> conv_ctx \<Rightarrow> string \<Rightarrow> json \<times> conv_ctx" where
  "build_final_response st usage ctx status =
     (let (usage_val, ctx') = resp_usage_opt usage ctx
      in (JObj (obj_insert_fields
            [(''id'', Some (JStr (rs_id st))), (''object'', Some (JStr ''response'')),
             (''created_at'', Some (json_i64 (rs_created_at st))), (''status'', Some (JStr status)),
             (''incomplete_details'', if status = ''incomplete'' then Some max_tokens_details else None),
             (''error'', if status = ''failed'' then Some server_error_json else None),
             (''model'', Some (JStr (rs_model st))),
             (''output'', Some (JArr (final_output st))),
             (''usage'', Some (unwrap_or JNull usage_val))] []), ctx'))"

text \<open>\<open>encode_response_finished\<close>: completed, incomplete or failed, by the finish reason.\<close>

definition finish_status :: "string option \<Rightarrow> string" where
  "finish_status finish =
     (if finish = Some ''failed'' then ''failed''
      else if finish = Some ''length'' then ''incomplete'' else ''completed'')"

definition response_finished_event ::
  "resp_stream \<Rightarrow> string option \<Rightarrow> conv_ctx \<Rightarrow> json \<times> conv_ctx" where
  "response_finished_event st finish ctx =
     (let status = finish_status finish;
          (resp, ctx') = build_final_response st (rs_last_usage st) ctx status
      in (json_obj [(''type'', JStr (''response.'' @ status)), (''response'', resp)], ctx'))"

text \<open>The steps of \<open>chunk_from_ir\<close>. \<open>(st, seq)\<close> is the stream with the counter of \<open>rand_suffix\<close>.\<close>

definition resp_out_start :: "ir_chunk \<Rightarrow> resp_stream \<Rightarrow> json list \<times> resp_stream" where
  "resp_out_start chunk st =
     (if rs_created st then ([], st)
      else
        (let st1 = st\<lparr>rs_created := True, rs_id := chk_id chunk, rs_model := chk_model chunk,
                      rs_created_at := chk_created chunk\<rparr>
         in ([response_created_event st1], st1)))"

definition resp_out_text ::
  "(u64 \<Rightarrow> nat) \<Rightarrow> string option \<Rightarrow> resp_stream \<times> u64 \<Rightarrow> json list \<times> resp_stream \<times> u64" where
  "resp_out_text clock content s =
     (let (st, seq) = s; text = unwrap_or [] content
      in if text = [] then ([], st, seq)
         else
           (let (evs, st1, seq1) =
              (if rs_message_added st then ([], st, seq)
               else
                 (let (sfx, seq') = rand_suffix clock seq;
                      st' = st\<lparr>rs_message_added := True,
                               rs_message_index := rs_next_output_index st,
                               rs_next_output_index := rs_next_output_index st + 1,
                               rs_message_id := ''msg_'' @ sfx\<rparr>
                  in ([message_added_event st'], st', seq')));
                st2 = st1\<lparr>rs_message_text := rs_message_text st1 @ text\<rparr>
            in (evs @ [output_text_delta_event st2 text], st2, seq1)))"

definition resp_out_reasoning ::
  "(u64 \<Rightarrow> nat) \<Rightarrow> string option \<Rightarrow> resp_stream \<times> u64 \<Rightarrow> json list \<times> resp_stream \<times> u64" where
  "resp_out_reasoning clock content s =
     (let (st, seq) = s; text = unwrap_or [] content
      in if text = [] then ([], st, seq)
         else
           (let (evs, st1, seq1) =
              (if rs_reasoning_added st then ([], st, seq)
               else
                 (let (sfx, seq') = rand_suffix clock seq;
                      st' = st\<lparr>rs_reasoning_added := True,
                               rs_reasoning_index := rs_next_output_index st,
                               rs_next_output_index := rs_next_output_index st + 1,
                               rs_reasoning_id := ''rs_'' @ sfx\<rparr>
                  in ([reasoning_added_event st'], st', seq')));
                st2 = st1\<lparr>rs_reasoning_text := rs_reasoning_text st1 @ text\<rparr>
            in (evs @ [reasoning_delta_event st2 text], st2, seq1)))"

definition resp_open_tool ::
  "(u64 \<Rightarrow> nat) \<Rightarrow> ir_tool_call_delta \<Rightarrow> resp_stream \<times> u64 \<Rightarrow> json list \<times> resp_stream \<times> u64" where
  "resp_open_tool clock tc s =
     (let (st, seq) = s
      in case map_of (rs_tool_items st) (tcd_index tc) of
           Some item \<Rightarrow> ([], st, seq)
         | None \<Rightarrow>
             (let (sfx, seq') = rand_suffix clock seq;
                  item = \<lparr>fi_output_index = rs_next_output_index st, fi_item_id = ''fc_'' @ sfx,
                          fi_call_id = unwrap_or [] (tcd_id tc), fi_name = unwrap_or [] (tcd_name tc),
                          fi_arguments = []\<rparr>
              in ([call_added_event item],
                  st\<lparr>rs_next_output_index := rs_next_output_index st + 1,
                     rs_tool_items := rs_tool_items st @ [(tcd_index tc, item)]\<rparr>, seq')))"

definition resp_out_tool ::
  "(u64 \<Rightarrow> nat) \<Rightarrow> ir_tool_call_delta \<Rightarrow> resp_stream \<times> u64 \<Rightarrow> json list \<times> resp_stream \<times> u64" where
  "resp_out_tool clock tc s =
     (let (evs, st, seq) = resp_open_tool clock tc s
      in case (tcd_arguments tc, map_of (rs_tool_items st) (tcd_index tc)) of
           (Some args, Some item) \<Rightarrow>
             (let item' = item\<lparr>fi_arguments := fi_arguments item @ args\<rparr>
              in (evs @ [arguments_delta_event item' args],
                  st\<lparr>rs_tool_items := AList.update (tcd_index tc) item' (rs_tool_items st)\<rparr>, seq))
         | _ \<Rightarrow> (evs, st, seq))"

text \<open>The latest usage and the latest finish reason are kept, then the end is looked at.\<close>

definition resp_note_end :: "string option \<Rightarrow> ir_usage option \<Rightarrow> resp_stream \<Rightarrow> resp_stream" where
  "resp_note_end finish usage st =
     (let st1 = (if usage \<noteq> None then st\<lparr>rs_last_usage := usage\<rparr> else st)
      in if finish \<noteq> None then st1\<lparr>rs_pending_finish := finish\<rparr> else st1)"

definition resp_out_finish ::
  "string option \<Rightarrow> ir_usage option \<Rightarrow> resp_stream \<Rightarrow> conv_ctx \<Rightarrow>
   json list \<times> resp_stream \<times> conv_ctx" where
  "resp_out_finish finish usage st ctx =
     (let st1 = resp_note_end finish usage st; pending = rs_pending_finish st1
      in if \<not> rs_completed st1 \<and> pending \<noteq> None \<and>
            (pending = Some ''failed'' \<or> rs_last_usage st1 \<noteq> None)
         then
           (let st2 = st1\<lparr>rs_completed := True, rs_pending_finish := None\<rparr>;
                (ev, ctx') = response_finished_event st2 pending ctx
            in ([ev], st2, ctx'))
         else ([], st1, ctx))"

definition resp_chunk_events ::
  "(u64 \<Rightarrow> nat) \<Rightarrow> ir_chunk \<Rightarrow> resp_stream \<Rightarrow> u64 \<Rightarrow> conv_ctx \<Rightarrow>
   json list \<times> resp_stream \<times> u64 \<times> conv_ctx" where
  "resp_chunk_events clock chunk st seq ctx =
     (let (evs0, st0) = resp_out_start chunk st;
          (delta, finish) = chunk_choice chunk;
          (evs1, s1) = resp_out_text clock (dl_content delta) (st0, seq);
          (evs2, s2) = resp_out_reasoning clock (dl_reasoning_content delta) s1;
          (evs3, st3, seq3) = emit_all (resp_out_tool clock) (dl_tool_calls delta) s2;
          (evs4, st4, ctx') = resp_out_finish finish (chk_usage chunk) st3 ctx
      in (evs0 @ evs1 @ evs2 @ evs3 @ evs4, st4, seq3, ctx'))"

definition resp_chunk_from_ir ::
  "json_text \<Rightarrow> (u64 \<Rightarrow> nat) \<Rightarrow> ir_chunk \<Rightarrow> resp_stream \<Rightarrow> u64 \<Rightarrow> conv_ctx \<Rightarrow>
   (convert_error + string list) \<times> resp_stream \<times> u64 \<times> conv_ctx" where
  "resp_chunk_from_ir js clock chunk st seq ctx =
     (let (evs, st', seq', ctx') = resp_chunk_events clock chunk st seq ctx
      in (Inr (map (to_text js) evs), st', seq', ctx'))"

definition resp_mark_failed :: "resp_stream \<Rightarrow> resp_stream" where
  "resp_mark_failed st =
     (if rs_completed st then st else st\<lparr>rs_pending_finish := Some ''failed''\<rparr>)"

definition resp_end_events :: "resp_stream \<Rightarrow> conv_ctx \<Rightarrow> json list \<times> resp_stream \<times> conv_ctx" where
  "resp_end_events st ctx =
     (if rs_completed st then ([], st, ctx)
      else
        (let st1 = st\<lparr>rs_completed := True, rs_pending_finish := None\<rparr>;
             (ev, ctx') = response_finished_event st1 (rs_pending_finish st) ctx
         in ([ev], st1, ctx')))"

definition resp_stream_end ::
  "json_text \<Rightarrow> resp_stream \<Rightarrow> conv_ctx \<Rightarrow> (convert_error + string list) \<times> resp_stream \<times> conv_ctx" where
  "resp_stream_end js st ctx =
     (let (evs, st', ctx') = resp_end_events st ctx in (Inr (map (to_text js) evs), st', ctx'))"

end
