(* ===== verification/ResponsesClient.thy ===== *)
theory ResponsesClient
  imports ResponsesStream
begin

text \<open>
  What a client of the Responses stream relies on, as an automaton over the JSON events, and the
  proof that the events of \<open>chunk_from_ir\<close> and \<open>stream_end\<close> are accepted: \<open>response.created\<close> comes
  first, output items are numbered 0, 1, 2, \<dots>, every delta belongs to an item that was added,
  by its index, its id and its type, and there is exactly one terminal event.
\<close>

section \<open>The client\<close>

record rclient =
  rc_created :: bool
  rc_finished :: bool
  rc_next :: u32
  rc_items :: "(u32 \<times> string \<times> string) set" \<comment> \<open>output index, item id, type\<close>

definition rclient_new :: rclient where
  "rclient_new = \<lparr>rc_created = False, rc_finished = False, rc_next = 0, rc_items = {}\<rparr>"

definition output_index_of :: "json \<Rightarrow> u32 option" where
  "output_index_of v = Option.bind (as_u64 (jidx v ''output_index'')) u32_try_from"

definition terminal_types :: "string set" where
  "terminal_types = {''response.completed'', ''response.incomplete'', ''response.failed''}"

definition item_type_of :: "string \<Rightarrow> string option" where
  "item_type_of delta_type =
     (if delta_type = ''response.output_text.delta'' then Some ''message''
      else if delta_type = ''response.reasoning_summary_text.delta'' then Some ''reasoning''
      else if delta_type = ''response.function_call_arguments.delta'' then Some ''function_call''
      else None)"

text \<open>With \<open>strict\<close>, the terminal event needs \<open>response.created\<close> before it and nothing follows it.\<close>

definition rclient_step :: "bool \<Rightarrow> json \<Rightarrow> rclient \<Rightarrow> rclient option" where
  "rclient_step strict v c =
     (let ty = str_or_empty (jidx v ''type'');
          live = (rc_created c \<and> (strict \<longrightarrow> \<not> rc_finished c));
          item = jidx v ''item''
      in if ty = ''response.created'' then
           (if rc_created c \<or> rc_finished c then None else Some (c\<lparr>rc_created := True\<rparr>))
         else if ty = ''response.output_item.added'' then
           (if live \<and> output_index_of v = Some (rc_next c)
            then Some (c\<lparr>rc_next := rc_next c + 1,
                         rc_items := insert (rc_next c, str_or_empty (jidx item ''id''),
                                             str_or_empty (jidx item ''type'')) (rc_items c)\<rparr>)
            else None)
         else if ty \<in> terminal_types then
           (if rc_finished c \<or> (strict \<and> \<not> rc_created c) then None else Some (c\<lparr>rc_finished := True\<rparr>))
         else (case (item_type_of ty, output_index_of v) of
                 (Some kind, Some idx) \<Rightarrow>
                   if live \<and> (idx, str_or_empty (jidx v ''item_id''), kind) \<in> rc_items c then Some c
                   else None
               | _ \<Rightarrow> None))"

section \<open>What the client makes of each event\<close>

lemma json_u32_back [simp]: "Option.bind (as_u64 (json_u32 i)) u32_try_from = Some i"
  by simp

lemma client_created [simp]:
  "rclient_step s (response_created_event st) c =
     (if rc_created c \<or> rc_finished c then None else Some (c\<lparr>rc_created := True\<rparr>))"
  by (simp add: rclient_step_def response_created_event_def jidx_def)

lemma client_added:
  "rc_created c \<Longrightarrow> s \<longrightarrow> \<not> rc_finished c \<Longrightarrow> i = rc_next c \<Longrightarrow>
   rclient_step s (item_added_event i ((''id'', JStr uid) # (''type'', JStr ty) # kvs)) c =
     Some (c\<lparr>rc_next := i + 1,
             rc_items := insert (i,
               str_or_empty (jidx (json_obj ((''id'', JStr uid) # (''type'', JStr ty) # kvs)) ''id''),
               str_or_empty (jidx (json_obj ((''id'', JStr uid) # (''type'', JStr ty) # kvs)) ''type'')) (rc_items c)\<rparr>)"
  by (auto simp: rclient_step_def item_added_event_def output_index_of_def jidx_def)

lemma client_message_added:
  "rc_created c \<Longrightarrow> s \<longrightarrow> \<not> rc_finished c \<Longrightarrow> rs_message_index st = rc_next c \<Longrightarrow>
   rclient_step s (message_added_event st) c =
     Some (c\<lparr>rc_next := rc_next c + 1,
             rc_items := insert (rs_message_index st, rs_message_id st, ''message'') (rc_items c)\<rparr>)"
  by (simp add: message_added_event_def client_added) (simp add: jidx_def)

lemma client_reasoning_added:
  "rc_created c \<Longrightarrow> s \<longrightarrow> \<not> rc_finished c \<Longrightarrow> rs_reasoning_index st = rc_next c \<Longrightarrow>
   rclient_step s (reasoning_added_event st) c =
     Some (c\<lparr>rc_next := rc_next c + 1,
             rc_items := insert (rs_reasoning_index st, rs_reasoning_id st, ''reasoning'') (rc_items c)\<rparr>)"
  by (simp add: reasoning_added_event_def client_added) (simp add: jidx_def)

lemma client_call_added:
  "rc_created c \<Longrightarrow> s \<longrightarrow> \<not> rc_finished c \<Longrightarrow> fi_output_index item = rc_next c \<Longrightarrow>
   rclient_step s (call_added_event item) c =
     Some (c\<lparr>rc_next := rc_next c + 1,
             rc_items := insert (fi_output_index item, fi_item_id item, ''function_call'') (rc_items c)\<rparr>)"
  by (simp add: call_added_event_def client_added) (simp add: jidx_def)

lemma client_delta:
  assumes "rc_created c" "s \<longrightarrow> \<not> rc_finished c"
  shows "(rs_message_index st, rs_message_id st, ''message'') \<in> rc_items c \<Longrightarrow>
      rclient_step s (output_text_delta_event st t) c = Some c"
    "(rs_reasoning_index st, rs_reasoning_id st, ''reasoning'') \<in> rc_items c \<Longrightarrow>
      rclient_step s (reasoning_delta_event st t) c = Some c"
    "(fi_output_index item, fi_item_id item, ''function_call'') \<in> rc_items c \<Longrightarrow>
      rclient_step s (arguments_delta_event item t) c = Some c"
  using assms
  by (simp_all add: rclient_step_def output_text_delta_event_def reasoning_delta_event_def
      arguments_delta_event_def output_index_of_def jidx_def terminal_types_def item_type_of_def)

lemma finish_status_cases: "finish_status fr \<in> {''completed'', ''incomplete'', ''failed''}"
  by (simp add: finish_status_def)

lemma finished_event_type:
  "response_finished_event st fr ctx = (ev, ctx') \<Longrightarrow>
   as_str (jidx ev ''type'') = Some (''response.'' @ finish_status fr)"
  by (auto simp: response_finished_event_def Let_def jidx_def split: prod.splits)

lemma client_finished:
  assumes "response_finished_event st fr ctx = (ev, ctx')" "\<not> rc_finished c" "s \<longrightarrow> rc_created c"
  shows "rclient_step s ev c = Some (c\<lparr>rc_finished := True\<rparr>)"
  using finished_event_type [OF assms(1)] finish_status_cases [of fr] assms(2,3)
  by (auto simp: rclient_step_def str_or_empty_def terminal_types_def)

section \<open>The simulation\<close>

definition item_key :: "fn_item \<Rightarrow> u32 \<times> string \<times> string" where
  "item_key item = (fi_output_index item, fi_item_id item, ''function_call'')"

definition rclient_of :: "resp_stream \<Rightarrow> rclient" where
  "rclient_of st =
     \<lparr>rc_created = rs_created st, rc_finished = rs_completed st, rc_next = rs_next_output_index st,
      rc_items =
        (if rs_message_added st then {(rs_message_index st, rs_message_id st, ''message'')} else {}) \<union>
        (if rs_reasoning_added st then {(rs_reasoning_index st, rs_reasoning_id st, ''reasoning'')} else {}) \<union>
        item_key ` snd ` set (rs_tool_items st)\<rparr>"

lemma rclient_of_simps [simp]:
  "rc_created (rclient_of st) = rs_created st" "rc_finished (rclient_of st) = rs_completed st"
  "rc_next (rclient_of st) = rs_next_output_index st"
  "rclient_of (st\<lparr>rs_message_text := t\<rparr>) = rclient_of st"
  "rclient_of (st\<lparr>rs_reasoning_text := t\<rparr>) = rclient_of st"
  "rclient_of (st\<lparr>rs_last_usage := u\<rparr>) = rclient_of st"
  "rclient_of (st\<lparr>rs_pending_finish := f\<rparr>) = rclient_of st"
  by (simp_all add: rclient_of_def)

text \<open>The content steps leave alone what decides the end of the stream.\<close>

definition ending :: "resp_stream \<Rightarrow> bool \<times> bool \<times> ir_usage option \<times> string option" where
  "ending st = (rs_created st, rs_completed st, rs_last_usage st, rs_pending_finish st)"

definition talking :: "bool \<Rightarrow> resp_stream \<Rightarrow> bool" where
  "talking s st \<longleftrightarrow> rs_created st \<and> (s \<longrightarrow> \<not> rs_completed st)"

definition content_step :: "bool \<Rightarrow> resp_stream \<Rightarrow> json list \<Rightarrow> resp_stream \<Rightarrow> bool" where
  "content_step s st evs st' \<longleftrightarrow>
     accepts (rclient_step s) evs (rclient_of st) = Some (rclient_of st') \<and> ending st' = ending st"

lemma content_step_refl [simp]: "content_step s st [] st"
  by (simp add: content_step_def)

lemma content_step_trans:
  "content_step s st evs st1 \<Longrightarrow> content_step s st1 evs' st' \<Longrightarrow> content_step s st (evs @ evs') st'"
  by (simp add: content_step_def accepts_append)

lemma content_step_talking: "content_step s st evs st' \<Longrightarrow> talking s st \<Longrightarrow> talking s st'"
  by (simp add: content_step_def talking_def ending_def)

lemma out_text_step:
  assumes "talking s st" "resp_out_text clock content (st, seq) = (evs, st', seq')"
  shows "content_step s st evs st'"
  using assms
  by (auto simp: resp_out_text_def content_step_def talking_def ending_def client_message_added
      client_delta rclient_of_def insert_commute Let_def split: if_splits prod.splits)

lemma out_reasoning_step:
  assumes "talking s st" "resp_out_reasoning clock content (st, seq) = (evs, st', seq')"
  shows "content_step s st evs st'"
  using assms
  by (auto simp: resp_out_reasoning_def content_step_def talking_def ending_def client_reasoning_added
      client_delta rclient_of_def insert_commute Let_def split: if_splits prod.splits)

lemma open_tool_step:
  assumes "talking s st" "resp_open_tool clock tc (st, seq) = (evs, st', seq')"
  shows "content_step s st evs st'" "map_of (rs_tool_items st') (tcd_index tc) \<noteq> None"
  using assms
  by (auto simp: resp_open_tool_def content_step_def talking_def ending_def client_call_added
      rclient_of_def item_key_def map_add_def Let_def split: option.splits prod.splits)

lemma update_same_key:
  "map_of xs k = Some w \<Longrightarrow> f v = f w \<Longrightarrow> map (f \<circ> snd) (AList.update k v xs) = map (f \<circ> snd) xs"
  by (induction xs) (auto split: if_splits)

lemma rclient_of_update:
  assumes "map_of (rs_tool_items st) k = Some w" "item_key v = item_key w"
  shows "rclient_of (st\<lparr>rs_tool_items := AList.update k v (rs_tool_items st)\<rparr>) = rclient_of st"
proof -
  have "item_key ` snd ` set (AList.update k v (rs_tool_items st)) = item_key ` snd ` set (rs_tool_items st)"
    using arg_cong [OF update_same_key [OF assms], of set] by (simp add: image_comp)
  then show ?thesis by (simp add: rclient_of_def)
qed

lemma out_tool_step:
  assumes "talking s st" "resp_out_tool clock tc (st, seq) = (evs, st', seq')"
  shows "content_step s st evs st'"
proof -
  obtain evs1 st1 seq1 where opened: "resp_open_tool clock tc (st, seq) = (evs1, st1, seq1)"
    by (metis prod_cases3)
  note step = open_tool_step [OF assms(1) opened]
  from step(2) obtain item where item: "map_of (rs_tool_items st1) (tcd_index tc) = Some item" by blast
  show ?thesis
  proof (cases "tcd_arguments tc")
    case None
    then show ?thesis using assms(2) step(1) by (simp add: resp_out_tool_def opened)
  next
    case (Some args)
    define item' where "item' = item\<lparr>fi_arguments := fi_arguments item @ args\<rparr>"
    define st2 where "st2 = st1\<lparr>rs_tool_items := AList.update (tcd_index tc) item' (rs_tool_items st1)\<rparr>"
    have out: "evs = evs1 @ [arguments_delta_event item' args]" "st' = st2"
      using assms(2) by (simp_all add: resp_out_tool_def opened Some item item'_def st2_def Let_def)
    have key: "item_key item' = item_key item" by (simp add: item_key_def item'_def)
    have same: "rclient_of st2 = rclient_of st1" unfolding st2_def by (rule rclient_of_update [OF item key])
    have "item_key item' \<in> rc_items (rclient_of st1)"
      using map_of_SomeD [OF item] by (force simp: rclient_of_def key)
    then have "rclient_step s (arguments_delta_event item' args) (rclient_of st1) = Some (rclient_of st1)"
      using content_step_talking [OF step(1) assms(1)]
      by (intro client_delta) (simp_all add: talking_def item_key_def)
    then have "content_step s st1 [arguments_delta_event item' args] st2"
      by (simp add: content_step_def same) (simp add: st2_def ending_def)
    from content_step_trans [OF step(1) this] show ?thesis by (simp add: out)
  qed
qed

lemma out_tools_step:
  "talking s st \<Longrightarrow> emit_all (resp_out_tool clock) tcs (st, seq) = (evs, st', seq') \<Longrightarrow>
   content_step s st evs st'"
proof (induction tcs arbitrary: st seq evs)
  case (Cons tc tcs)
  obtain evs1 st1 seq1 evs2 where step: "resp_out_tool clock tc (st, seq) = (evs1, st1, seq1)"
    "emit_all (resp_out_tool clock) tcs (st1, seq1) = (evs2, st', seq')" and evs: "evs = evs1 @ evs2"
    using Cons.prems(2) by (auto split: prod.splits)
  note one = out_tool_step [OF Cons.prems(1) step(1)]
  from Cons.IH [OF content_step_talking [OF one Cons.prems(1)] step(2)] one show ?case
    by (simp add: evs content_step_trans)
qed simp

text \<open>Everything a chunk emits before the end is looked at.\<close>

definition resp_content ::
  "(u64 \<Rightarrow> nat) \<Rightarrow> ir_delta \<Rightarrow> resp_stream \<times> u64 \<Rightarrow> json list \<times> resp_stream \<times> u64" where
  "resp_content clock delta s =
     (let (evs1, s1) = resp_out_text clock (dl_content delta) s;
          (evs2, s2) = resp_out_reasoning clock (dl_reasoning_content delta) s1;
          (evs3, s3) = emit_all (resp_out_tool clock) (dl_tool_calls delta) s2
      in (evs1 @ evs2 @ evs3, s3))"

lemma resp_chunk_split:
  "resp_chunk_events clock chunk st seq ctx =
     (let (evs0, st0) = resp_out_start chunk st;
          (evs1, st1, seq1) = resp_content clock (fst (chunk_choice chunk)) (st0, seq);
          (evs2, st2, ctx') = resp_out_finish (snd (chunk_choice chunk)) (chk_usage chunk) st1 ctx
      in (evs0 @ evs1 @ evs2, st2, seq1, ctx'))"
  by (simp add: resp_chunk_events_def resp_content_def Let_def split: prod.splits)

lemma resp_content_step:
  assumes "talking s st" "resp_content clock delta (st, seq) = (evs, st', seq')"
  shows "content_step s st evs st'"
proof -
  obtain evs1 st1 seq1 where s1: "resp_out_text clock (dl_content delta) (st, seq) = (evs1, st1, seq1)"
    by (metis prod_cases3)
  obtain evs2 st2 seq2 where
    s2: "resp_out_reasoning clock (dl_reasoning_content delta) (st1, seq1) = (evs2, st2, seq2)"
    by (metis prod_cases3)
  obtain evs3 st3 seq3 where
    s3: "emit_all (resp_out_tool clock) (dl_tool_calls delta) (st2, seq2) = (evs3, st3, seq3)"
    by (metis prod_cases3)
  note one = out_text_step [OF assms(1) s1]
  note two = out_reasoning_step [OF content_step_talking [OF one assms(1)] s2]
  have "talking s st2" using content_step_talking one two assms(1) by blast
  note three = out_tools_step [OF this s3]
  have "evs = evs1 @ evs2 @ evs3" "st' = st3"
    using assms(2) by (simp_all add: resp_content_def s1 s2 s3)
  with one two three show ?thesis by (metis content_step_trans)
qed

section \<open>The start and the end\<close>

lemma out_start_step:
  assumes "resp_out_start chunk st = (evs, st')" "rs_created st \<or> \<not> rs_completed st"
  shows "accepts (rclient_step s) evs (rclient_of st) = Some (rclient_of st')"
    "rs_created st'" "rs_completed st' = rs_completed st" "rs_last_usage st' = rs_last_usage st"
    "rs_pending_finish st' = rs_pending_finish st"
  using assms
  by (auto simp: resp_out_start_def rclient_of_def Let_def split: if_splits)

text \<open>What the end of a chunk does to the flags.\<close>

definition will_finish :: "string option \<Rightarrow> ir_usage option \<Rightarrow> bool" where
  "will_finish pending usage \<longleftrightarrow> pending \<noteq> None \<and> (pending = Some ''failed'' \<or> usage \<noteq> None)"

lemma out_finish_step:
  assumes "resp_out_finish finish usage st ctx = (evs, st', ctx')" "rs_created st"
  shows "accepts (rclient_step s) evs (rclient_of st) = Some (rclient_of st')"
    "rs_created st'"
    "rs_completed st' \<longleftrightarrow> rs_completed st \<or>
       will_finish (or_else finish (rs_pending_finish st)) (or_else usage (rs_last_usage st))"
    "rs_completed st \<Longrightarrow> evs = []"
    "\<not> rs_completed st' \<Longrightarrow> rs_pending_finish st' = or_else finish (rs_pending_finish st)"
proof -
  define st2 where "st2 = resp_note_end finish usage st"
  have st2: "rclient_of st2 = rclient_of st" "rs_created st2" "rs_completed st2 = rs_completed st"
    "rs_pending_finish st2 = or_else finish (rs_pending_finish st)"
    "rs_last_usage st2 = or_else usage (rs_last_usage st)"
    using assms(2) by (auto simp: st2_def resp_note_end_def Let_def or_else_def split: option.splits)
  define fin where "fin \<longleftrightarrow> \<not> rs_completed st2 \<and> will_finish (rs_pending_finish st2) (rs_last_usage st2)"
  define st3 where "st3 = st2\<lparr>rs_completed := True, rs_pending_finish := None\<rparr>"
  obtain ev ctx1 where ev: "response_finished_event st3 (rs_pending_finish st2) ctx = (ev, ctx1)" by force
  have out: "(evs, st') = (if fin then ([ev], st3) else ([], st2))"
    using assms(1) ev
    by (auto simp: resp_out_finish_def fin_def will_finish_def st3_def st2_def [symmetric] Let_def
        split: if_splits)
  have done3: "rclient_of st3 = (rclient_of st2)\<lparr>rc_finished := True\<rparr>"
    by (simp add: st3_def rclient_of_def)
  show "accepts (rclient_step s) evs (rclient_of st) = Some (rclient_of st')"
  proof (cases fin)
    case True
    then have "rclient_step s ev (rclient_of st2) = Some ((rclient_of st2)\<lparr>rc_finished := True\<rparr>)"
      using client_finished [OF ev, of "rclient_of st2" s] st2 assms(2) by (simp add: fin_def)
    with True out st2(1) show ?thesis by (simp add: done3)
  qed (use out st2(1) in simp)
  show "rs_created st'" "rs_completed st \<Longrightarrow> evs = []"
    "rs_completed st' \<longleftrightarrow> rs_completed st \<or>
       will_finish (or_else finish (rs_pending_finish st)) (or_else usage (rs_last_usage st))"
    "\<not> rs_completed st' \<Longrightarrow> rs_pending_finish st' = or_else finish (rs_pending_finish st)"
    using out st2 by (auto simp: fin_def st3_def split: if_splits)
qed

section \<open>Whole streams\<close>

fun resp_emit ::
  "(u64 \<Rightarrow> nat) \<Rightarrow> stream_op \<Rightarrow> resp_stream \<times> u64 \<times> conv_ctx \<Rightarrow>
   json list \<times> resp_stream \<times> u64 \<times> conv_ctx" where
  "resp_emit clock (OutChunk chunk) (st, seq, ctx) = resp_chunk_events clock chunk st seq ctx"
| "resp_emit clock MarkFailed (st, seq, ctx) = ([], resp_mark_failed st, seq, ctx)"

definition resp_stream_events :: "(u64 \<Rightarrow> nat) \<Rightarrow> u64 \<Rightarrow> stream_op list \<Rightarrow> json list" where
  "resp_stream_events clock seq ops =
     (let (evs, st, seq', ctx) = emit_all (resp_emit clock) ops (resp_stream_new, seq, []);
          (evs', st', ctx') = resp_end_events st ctx
      in evs @ evs')"

definition resp_live :: "resp_stream \<Rightarrow> bool" where
  "resp_live st \<longleftrightarrow> rs_created st \<or> \<not> rs_completed st"

lemma resp_mark_failed_simps [simp]:
  "rclient_of (resp_mark_failed st) = rclient_of st" "resp_live (resp_mark_failed st) = resp_live st"
  "rs_completed (resp_mark_failed st) = rs_completed st"
  by (simp_all add: resp_mark_failed_def resp_live_def)

text \<open>A chunk: its start and content are accepted, and its end decides the flags.\<close>

lemma resp_chunk_body:
  assumes "resp_live st" "s \<longrightarrow> \<not> rs_completed st"
    and "resp_chunk_events clock chunk st seq ctx = (evs, st', seq', ctx')"
  obtains evs1 st1 evs2 where
    "accepts (rclient_step s) evs1 (rclient_of st) = Some (rclient_of st1)"
    "rs_created st1" "rs_completed st1 = rs_completed st" "rs_pending_finish st1 = rs_pending_finish st"
    "resp_out_finish (snd (chunk_choice chunk)) (chk_usage chunk) st1 ctx = (evs2, st', ctx')"
    "evs = evs1 @ evs2"
proof -
  obtain evs0 st0 where s0: "resp_out_start chunk st = (evs0, st0)" by force
  obtain evs1 st1 seq1 where
    s1: "resp_content clock (fst (chunk_choice chunk)) (st0, seq) = (evs1, st1, seq1)"
    by (metis prod_cases3)
  obtain evs2 st2 ctx2 where
    s2: "resp_out_finish (snd (chunk_choice chunk)) (chk_usage chunk) st1 ctx = (evs2, st2, ctx2)"
    by (metis prod_cases3)
  have result: "evs = (evs0 @ evs1) @ evs2" "st' = st2" "ctx' = ctx2"
    using assms(3) by (simp_all add: resp_chunk_split s0 s1 s2)
  note start = out_start_step [OF s0 assms(1) [unfolded resp_live_def]]
  have "talking s st0" using start assms(2) by (simp add: talking_def)
  note content = resp_content_step [OF this s1]
  from that [of "evs0 @ evs1" st1 evs2] show ?thesis
    using start content s2 by (simp add: result accepts_append content_step_def ending_def)
qed

lemma resp_chunk_accepted:
  assumes "resp_live st" "resp_chunk_events clock chunk st seq ctx = (evs, st', seq', ctx')"
  shows "accepts (rclient_step False) evs (rclient_of st) = Some (rclient_of st') \<and> resp_live st'"
proof -
  obtain evs1 st1 evs2 where body:
    "accepts (rclient_step False) evs1 (rclient_of st) = Some (rclient_of st1)" "rs_created st1"
    "resp_out_finish (snd (chunk_choice chunk)) (chk_usage chunk) st1 ctx = (evs2, st', ctx')"
    "evs = evs1 @ evs2"
    using resp_chunk_body [OF assms(1) _ assms(2), of False] by metis
  from out_finish_step [OF body(3,2)] body(1) show ?thesis
    by (simp add: body(4) accepts_append resp_live_def)
qed

interpretation resp: event_source "resp_emit clock" "rclient_step False" "rclient_of \<circ> fst" "resp_live \<circ> fst"
  for clock
proof unfold_locales
  fix i s es s'
  assume "(resp_live \<circ> fst) s" "resp_emit clock i s = (es, s')"
  then show "accepts (rclient_step False) es ((rclient_of \<circ> fst) s) = Some ((rclient_of \<circ> fst) s') \<and>
    (resp_live \<circ> fst) s'"
    by (cases i; cases s; cases s') (auto dest: resp_chunk_accepted)
qed

lemma resp_end_accepted:
  assumes "resp_end_events st ctx = (evs, st', ctx')" "s \<longrightarrow> rs_created st"
  shows "accepts (rclient_step s) evs (rclient_of st) = Some (rclient_of st') \<and> rs_completed st'"
proof (cases "rs_completed st")
  case False
  define st1 where "st1 = st\<lparr>rs_completed := True, rs_pending_finish := None\<rparr>"
  obtain ev ctx1 where ev: "response_finished_event st1 (rs_pending_finish st) ctx = (ev, ctx1)" by force
  have out: "evs = [ev]" "st' = st1"
    using assms(1) False ev by (simp_all add: resp_end_events_def st1_def Let_def)
  have "rclient_step s ev (rclient_of st) = Some ((rclient_of st)\<lparr>rc_finished := True\<rparr>)"
    using client_finished [OF ev, of "rclient_of st" s] False assms(2) by simp
  moreover have "rclient_of st1 = (rclient_of st)\<lparr>rc_finished := True\<rparr>"
    by (simp add: st1_def rclient_of_def)
  ultimately show ?thesis by (simp add: out) (simp add: st1_def)
qed (use assms in \<open>simp add: resp_end_events_def\<close>)

lemma resp_new_simps [simp]:
  "rclient_of resp_stream_new = rclient_new" "resp_live resp_stream_new"
  "\<not> rs_completed resp_stream_new" "rs_pending_finish resp_stream_new = None"
  by (simp_all add: rclient_of_def rclient_new_def resp_stream_new_def resp_live_def)

lemma resp_any_accepted:
  "\<exists>c. accepts (rclient_step False) (resp_stream_events clock seq ops) rclient_new = Some c \<and> rc_finished c"
proof -
  obtain evs st seq' ctx where run:
    "emit_all (resp_emit clock) ops (resp_stream_new, seq, []) = (evs, st, seq', ctx)"
    by (metis prod_cases4)
  obtain evs' st' ctx' where fin: "resp_end_events st ctx = (evs', st', ctx')" by (metis prod_cases3)
  have "accepts (rclient_step False) evs rclient_new = Some (rclient_of st)"
    using resp.emit_all_accepted [OF _ run] by simp
  with resp_end_accepted [OF fin, of False] show ?thesis
    by (simp add: resp_stream_events_def run fin accepts_append)
qed

subsection \<open>Streams whose content comes before the finish\<close>

definition resp_done :: "resp_stream \<Rightarrow> bool" where
  "resp_done st \<longleftrightarrow> rs_created st \<and> (rs_completed st \<or> rs_pending_finish st \<noteq> None)"

definition resp_open :: "resp_stream \<Rightarrow> bool" where
  "resp_open st \<longleftrightarrow> \<not> rs_completed st \<and> rs_pending_finish st = None"

lemma resp_quiet_content:
  "quiet chunk \<Longrightarrow> resp_content clock (fst (chunk_choice chunk)) s = ([], s)"
  by (cases s) (auto simp: quiet_def resp_content_def resp_out_text_def resp_out_reasoning_def
      split: prod.splits)

lemma resp_quiet_finish:
  assumes "resp_done st" "quiet chunk" "resp_chunk_events clock chunk st seq ctx = (evs, st', seq', ctx')"
  shows "resp_out_finish None (chk_usage chunk) st ctx = (evs, st', ctx')"
  using assms resp_quiet_content [OF assms(2), of clock]
  by (auto simp: resp_chunk_split resp_out_start_def resp_done_def quiet_def split: prod.splits)

lemma resp_quiet_accepted:
  assumes "resp_done st" "quiet chunk" "resp_chunk_events clock chunk st seq ctx = (evs, st', seq', ctx')"
  shows "accepts (rclient_step True) evs (rclient_of st) = Some (rclient_of st') \<and> resp_done st'"
proof -
  have "rs_created st" using assms(1) by (simp add: resp_done_def)
  from out_finish_step [OF resp_quiet_finish [OF assms] this] assms(1) show ?thesis
    by (auto simp: resp_done_def)
qed

lemma resp_quiet_all:
  "resp_done st \<Longrightarrow> list_all quiet cs \<Longrightarrow>
   emit_all (resp_emit clock) (map OutChunk cs) (st, seq, ctx) = (evs, st', seq', ctx') \<Longrightarrow>
   accepts (rclient_step True) evs (rclient_of st) = Some (rclient_of st') \<and> resp_done st'"
proof (induction cs arbitrary: st seq ctx evs)
  case (Cons c cs)
  obtain evs1 st1 seq1 ctx1 evs2 where step: "resp_chunk_events clock c st seq ctx = (evs1, st1, seq1, ctx1)"
    "emit_all (resp_emit clock) (map OutChunk cs) (st1, seq1, ctx1) = (evs2, st', seq', ctx')"
    and evs: "evs = evs1 @ evs2"
    using Cons.prems(3) by (auto split: prod.splits)
  have "accepts (rclient_step True) evs1 (rclient_of st) = Some (rclient_of st1) \<and> resp_done st1"
    using resp_quiet_accepted [OF Cons.prems(1) _ step(1)] Cons.prems(2) by simp
  with Cons.IH [OF _ _ step(2)] Cons.prems(2) show ?case by (simp add: evs accepts_append)
qed simp

lemma resp_ordered_chunk:
  assumes "resp_open st" "resp_chunk_events clock chunk st seq ctx = (evs, st', seq', ctx')"
  shows "accepts (rclient_step True) evs (rclient_of st) = Some (rclient_of st')"
    "if snd (chunk_choice chunk) \<noteq> None then resp_done st' else resp_open st'" "rs_created st'"
proof -
  have live: "resp_live st" "True \<longrightarrow> \<not> rs_completed st"
    using assms(1) by (simp_all add: resp_open_def resp_live_def)
  obtain evs1 st1 evs2 where body:
    "accepts (rclient_step True) evs1 (rclient_of st) = Some (rclient_of st1)"
    "rs_created st1" "rs_completed st1 = rs_completed st" "rs_pending_finish st1 = rs_pending_finish st"
    "resp_out_finish (snd (chunk_choice chunk)) (chk_usage chunk) st1 ctx = (evs2, st', ctx')"
    "evs = evs1 @ evs2"
    using resp_chunk_body [OF live assms(2)] by metis
  note fin = out_finish_step [OF body(5,2)]
  show "accepts (rclient_step True) evs (rclient_of st) = Some (rclient_of st')" "rs_created st'"
    using fin(1,2) body(1) by (simp_all add: body(6) accepts_append)
  show "if snd (chunk_choice chunk) \<noteq> None then resp_done st' else resp_open st'"
    using fin(2,3,5) body(3,4) assms(1)
    by (auto simp: resp_done_def resp_open_def will_finish_def)
qed

lemma resp_ordered_all:
  "resp_open st \<Longrightarrow> finish_last cs \<Longrightarrow>
   emit_all (resp_emit clock) (map OutChunk cs) (st, seq, ctx) = (evs, st', seq', ctx') \<Longrightarrow>
   accepts (rclient_step True) evs (rclient_of st) = Some (rclient_of st') \<and>
   (cs \<noteq> [] \<longrightarrow> rs_created st')"
proof (induction cs arbitrary: st seq ctx evs)
  case (Cons c cs)
  obtain evs1 st1 seq1 ctx1 evs2 where step: "resp_chunk_events clock c st seq ctx = (evs1, st1, seq1, ctx1)"
    "emit_all (resp_emit clock) (map OutChunk cs) (st1, seq1, ctx1) = (evs2, st', seq', ctx')"
    and evs: "evs = evs1 @ evs2"
    using Cons.prems(3) by (auto split: prod.splits)
  note one = resp_ordered_chunk [OF Cons.prems(1) step(1)]
  show ?case
  proof (cases "snd (chunk_choice c) = None")
    case True
    with one Cons.prems(2) have "resp_open st1" "finish_last cs" by auto
    from Cons.IH [OF this step(2)] one(1,3) step(2) show ?thesis
      by (cases cs) (simp_all add: evs accepts_append)
  next
    case False
    with one Cons.prems(2) have "resp_done st1" "list_all quiet cs" by auto
    from resp_quiet_all [OF this step(2)] one(1) show ?thesis
      by (simp add: evs accepts_append resp_done_def)
  qed
qed simp

lemma resp_ordered_accepted:
  assumes "finish_last cs" "cs \<noteq> []"
  shows "\<exists>c. accepts (rclient_step True)
      (resp_stream_events clock seq (map OutChunk cs @ (if failed then [MarkFailed] else []))) rclient_new = Some c \<and>
    rc_finished c"
proof -
  obtain evs st seq' ctx where run:
    "emit_all (resp_emit clock) (map OutChunk cs) (resp_stream_new, seq, []) = (evs, st, seq', ctx)"
    by (metis prod_cases4)
  define st1 where "st1 = (if failed then resp_mark_failed st else st)"
  obtain evs' st' ctx' where fin: "resp_end_events st1 ctx = (evs', st', ctx')" by (metis prod_cases3)
  have events: "resp_stream_events clock seq (map OutChunk cs @ (if failed then [MarkFailed] else [])) = evs @ evs'"
    using fin by (cases failed) (simp_all add: resp_stream_events_def emit_all_append run st1_def)
  have "resp_open resp_stream_new" by (simp add: resp_open_def)
  from resp_ordered_all [OF this assms(1) run] assms(2)
  have ok: "accepts (rclient_step True) evs rclient_new = Some (rclient_of st)" "rs_created st" by simp_all
  have "rclient_of st1 = rclient_of st" "rs_created st1"
    using ok(2) by (simp_all add: st1_def resp_mark_failed_def)
  with resp_end_accepted [OF fin, of True] ok(1) show ?thesis
    by (simp add: events accepts_append)
qed

section \<open>Nothing is lost and nothing is said twice\<close>

fun delta_event_type :: "channel \<Rightarrow> string" where
  "delta_event_type TextChannel = ''response.output_text.delta''"
| "delta_event_type ThinkingChannel = ''response.reasoning_summary_text.delta''"
| "delta_event_type ToolChannel = ''response.function_call_arguments.delta''"

definition resp_event_says :: "channel \<Rightarrow> json \<Rightarrow> string" where
  "resp_event_says ch v =
     (if as_str (jidx v ''type'') = Some (delta_event_type ch) then str_or_empty (jidx v ''delta'') else [])"

definition resp_events_say :: "channel \<Rightarrow> json list \<Rightarrow> string" where
  "resp_events_say ch evs = concat (map (resp_event_says ch) evs)"

lemma resp_events_say_simps [simp]:
  "resp_events_say ch [] = []"
  "resp_events_say ch (e # es) = resp_event_says ch e @ resp_events_say ch es"
  "resp_events_say ch (es @ es') = resp_events_say ch es @ resp_events_say ch es'"
  by (simp_all add: resp_events_say_def)

lemma resp_event_says_simps [simp]:
  "resp_event_says ch (response_created_event st) = []"
  "resp_event_says ch (message_added_event st) = []"
  "resp_event_says ch (reasoning_added_event st) = []"
  "resp_event_says ch (call_added_event item) = []"
  "resp_event_says ch (output_text_delta_event st t) = (if ch = TextChannel then t else [])"
  "resp_event_says ch (reasoning_delta_event st t) = (if ch = ThinkingChannel then t else [])"
  "resp_event_says ch (arguments_delta_event item t) = (if ch = ToolChannel then t else [])"
  by (cases ch; simp add: resp_event_says_def response_created_event_def message_added_event_def
      reasoning_added_event_def call_added_event_def item_added_event_def output_text_delta_event_def
      reasoning_delta_event_def arguments_delta_event_def jidx_def)+

lemma finished_says: "response_finished_event st fr ctx = (ev, ctx') \<Longrightarrow> resp_event_says ch ev = []"
  using finish_status_cases [of fr] by (cases ch) (auto simp: resp_event_says_def dest: finished_event_type)

lemma resp_out_text_says:
  "resp_out_text clock content s = (evs, s') \<Longrightarrow>
   resp_events_say ch evs = (if ch = TextChannel then unwrap_or [] content else [])"
  by (auto simp: resp_out_text_def Let_def split: prod.splits if_splits)

lemma resp_out_reasoning_says:
  "resp_out_reasoning clock content s = (evs, s') \<Longrightarrow>
   resp_events_say ch evs = (if ch = ThinkingChannel then unwrap_or [] content else [])"
  by (auto simp: resp_out_reasoning_def Let_def split: prod.splits if_splits)

lemma resp_open_tool_says:
  "resp_open_tool clock tc s = (evs, s') \<Longrightarrow> resp_events_say ch evs = []"
  by (auto simp: resp_open_tool_def Let_def split: prod.splits option.splits)

lemma resp_open_tool_there:
  "resp_open_tool clock tc s = (evs, st, seq) \<Longrightarrow> map_of (rs_tool_items st) (tcd_index tc) \<noteq> None"
  by (auto simp: resp_open_tool_def map_add_def Let_def split: prod.splits option.splits)

lemma resp_out_tool_says:
  assumes "resp_out_tool clock tc s = (evs, s')"
  shows "resp_events_say ch evs = (if ch = ToolChannel then unwrap_or [] (tcd_arguments tc) else [])"
proof -
  obtain evs1 st1 seq1 where opened: "resp_open_tool clock tc s = (evs1, st1, seq1)"
    by (metis prod_cases3)
  note said = resp_open_tool_says [OF opened] resp_open_tool_there [OF opened]
  show ?thesis
    using assms said
    by (auto simp: resp_out_tool_def opened Let_def split: option.splits)
qed

lemma resp_out_tools_says:
  "emit_all (resp_out_tool clock) tcs s = (evs, s') \<Longrightarrow>
   resp_events_say ch evs =
     (if ch = ToolChannel then concat (map (\<lambda>tc. unwrap_or [] (tcd_arguments tc)) tcs) else [])"
proof (induction tcs arbitrary: s evs)
  case (Cons tc tcs)
  then show ?case by (auto simp: resp_out_tool_says split: prod.splits)
qed simp

lemma resp_out_finish_says:
  "resp_out_finish fr usage st ctx = (evs, st', ctx') \<Longrightarrow> resp_events_say ch evs = []"
  by (auto simp: resp_out_finish_def finished_says Let_def split: if_splits prod.splits)

lemma resp_chunk_events_say:
  assumes "resp_chunk_events clock chunk st seq ctx = (evs, st', seq', ctx')"
  shows "resp_events_say ch evs = chunk_says ch chunk"
  using assms
  by (cases ch)
    (auto simp: resp_chunk_events_def chunk_says_def resp_out_start_def resp_out_text_says
      resp_out_reasoning_says resp_out_tools_says resp_out_finish_says Let_def
      split: prod.splits if_splits)

lemma resp_emit_all_say:
  "emit_all (resp_emit clock) ops s = (evs, s') \<Longrightarrow> resp_events_say ch evs = concat (map (op_says ch) ops)"
proof (induction ops arbitrary: s evs)
  case (Cons op ops)
  obtain evs1 s1 evs2 where step: "resp_emit clock op s = (evs1, s1)"
    "emit_all (resp_emit clock) ops s1 = (evs2, s')" and evs: "evs = evs1 @ evs2"
    using Cons.prems by (auto split: prod.splits)
  have "resp_events_say ch evs1 = op_says ch op"
    using step(1) by (cases op; cases s; cases s1) (auto simp: resp_chunk_events_say)
  with Cons.IH [OF step(2)] show ?case by (simp add: evs)
qed simp

lemma resp_end_says:
  "resp_end_events st ctx = (evs, st', ctx') \<Longrightarrow> resp_events_say ch evs = []"
  by (auto simp: resp_end_events_def finished_says Let_def split: if_splits prod.splits)

lemma resp_stream_says:
  "resp_events_say ch (resp_stream_events clock seq ops) = concat (map (op_says ch) ops)"
  by (auto simp: resp_stream_events_def resp_emit_all_say resp_end_says Let_def split: prod.splits)

end
