(* ===== verification/ResponsesReader.thy ===== *)
theory ResponsesReader
  imports ResponsesClient
begin

text \<open>
  The other end of a Responses stream: what \<open>chunk_to_ir\<close> reads of the events that a client
  accepts, what the terminal event's response reports, and the properties of the Responses stream.
\<close>

section \<open>Reading a stream back\<close>

text \<open>The function calls that the client knows are registered with the reader.\<close>

definition items_registered :: "rclient \<Rightarrow> resp_stream \<Rightarrow> bool" where
  "items_registered c st \<longleftrightarrow>
     (\<forall>(i, uid, kind) \<in> rc_items c. kind = ''function_call'' \<longrightarrow> rs_item_to_index st uid \<noteq> None)"

lemma resp_chunk_says [simp]: "chunk_says ch (resp_chunk st d fr u) = delta_says ch d"
  by (simp add: chunk_says_def chunk_choice_def resp_chunk_def default_chunk_def)

lemma registered_added:
  assumes "items_registered c st" "in_item_added v st ctx = (r, st', ctx')"
    and "c' = c\<lparr>rc_next := n, rc_items := insert (i, str_or_empty (jidx (jidx v ''item'') ''id''),
               str_or_empty (jidx (jidx v ''item'') ''type'')) (rc_items c)\<rparr>"
  shows "items_registered c' st'" "r = Inr None"
  using assms
  by (auto simp: items_registered_def in_item_added_def str_or_empty_def Let_def
      split: if_splits option.splits)

lemma is_object_of_type: "as_str (jidx v k) \<noteq> None \<Longrightarrow> is_object v"
  by (cases v) (simp_all add: jidx_def)

text \<open>The three readers of deltas, each with the channel its event type stands for.\<close>

lemma in_text_delta_reads:
  assumes "in_text_delta v st ctx = (r, st', ctx')"
  shows "st' = st" "read_says ch r = (if ch = TextChannel then str_or_empty (jidx v ''delta'') else [])"
  using assms by (cases ch; auto simp: in_text_delta_def read_says_def default_delta_def Let_def)+

lemma in_reasoning_delta_reads:
  assumes "in_reasoning_delta v st ctx = (r, st', ctx')"
  shows "st' = st" "read_says ch r = (if ch = ThinkingChannel then str_or_empty (jidx v ''delta'') else [])"
  using assms by (cases ch; auto simp: in_reasoning_delta_def read_says_def default_delta_def Let_def)+

lemma in_arguments_delta_reads:
  assumes "in_arguments_delta v st ctx = (r, st', ctx')"
    and "rs_item_to_index st (str_or_empty (jidx v ''item_id'')) \<noteq> None"
  shows "st' = st" "read_says ch r = (if ch = ToolChannel then str_or_empty (jidx v ''delta'') else [])"
  using assms
  by (cases ch; auto simp: in_arguments_delta_def read_says_def default_delta_def Let_def
      split: if_splits prod.splits)+

lemma read_resp_delta:
  assumes "items_registered c st" "item_type_of ty = Some kind" "as_str (jidx v ''type'') = Some ty"
    and "(i, str_or_empty (jidx v ''item_id''), kind) \<in> rc_items c"
    and "resp_event_to_ir v st ctx = (r, st', ctx')"
  shows "st' = st" "read_says ch r = resp_event_says ch v"
proof -
  have obj: "is_object v" and ty: "str_or_empty (jidx v ''type'') = ty"
    using assms(3) is_object_of_type [of v "''type''"] by (auto simp: str_or_empty_def)
  have says: "resp_event_says ch v = (if ty = delta_event_type ch then str_or_empty (jidx v ''delta'') else [])" for ch
    by (simp add: resp_event_says_def assms(3))
  have index: "kind = ''function_call'' \<Longrightarrow> rs_item_to_index st (str_or_empty (jidx v ''item_id'')) \<noteq> None"
    using assms(1,4) by (fastforce simp: items_registered_def)
  consider "ty = ''response.output_text.delta''" | "ty = ''response.reasoning_summary_text.delta''"
    | "ty = ''response.function_call_arguments.delta''" "kind = ''function_call''"
    using assms(2) by (auto simp: item_type_of_def split: if_splits)
  then have "st' = st \<and> read_says ch r = resp_event_says ch v"
  proof cases
    case 1
    have "in_text_delta v st ctx = (r, st', ctx')"
      using assms(5) obj by (simp add: resp_event_to_ir_def ty 1)
    from in_text_delta_reads [OF this] show ?thesis by (cases ch) (simp_all add: says 1)
  next
    case 2
    have "in_reasoning_delta v st ctx = (r, st', ctx')"
      using assms(5) obj by (simp add: resp_event_to_ir_def ty 2)
    from in_reasoning_delta_reads [OF this] show ?thesis by (cases ch) (simp_all add: says 2)
  next
    case 3
    have "in_arguments_delta v st ctx = (r, st', ctx')"
      using assms(5) obj by (simp add: resp_event_to_ir_def ty 3)
    from in_arguments_delta_reads [OF this index [OF 3(2)]] show ?thesis by (cases ch) (simp_all add: says 3)
  qed
  then show "st' = st" "read_says ch r = resp_event_says ch v" by auto
qed

lemma rclient_step_delta:
  assumes "rclient_step s v c = Some c'" "str_or_empty (jidx v ''type'') = ty" "item_type_of ty = Some kind"
  shows "c' = c \<and> (\<exists>i. (i, str_or_empty (jidx v ''item_id''), kind) \<in> rc_items c)"
proof -
  have other: "ty \<notin> terminal_types" "ty \<noteq> ''response.created''" "ty \<noteq> ''response.output_item.added''"
    using assms(3) by (auto simp: item_type_of_def terminal_types_def split: if_splits)
  obtain idx where "output_index_of v = Some idx"
    using assms(1) unfolding rclient_step_def Let_def assms(2)
    by (simp only: other assms(3) if_False) (cases "output_index_of v"; simp)
  with assms(1) show ?thesis
    unfolding rclient_step_def Let_def assms(2)
    by (simp only: other assms(3) if_False) (auto split: if_splits)
qed

lemma read_resp_event:
  assumes "rclient_step s v c = Some c'" "items_registered c st"
    and "resp_event_to_ir v st ctx = (r, st', ctx')"
  shows "items_registered c' st' \<and> read_says ch r = resp_event_says ch v"
proof -
  define ty where "ty = str_or_empty (jidx v ''type'')"
  have ty: "as_str (jidx v ''type'') = Some ty" if "ty \<noteq> []"
    using that by (auto simp: ty_def str_or_empty_def split: option.splits)
  consider "ty = ''response.created''" | "ty = ''response.output_item.added''"
    | "ty \<in> terminal_types" | kind where "item_type_of ty = Some kind"
    using assms(1)
    by (auto simp: rclient_step_def ty_def [symmetric] Let_def split: if_splits option.splits)
  then show ?thesis
  proof cases
    case 1
    with ty is_object_of_type [of v "''type''"] have obj: "is_object v" by simp
    have "in_created v st ctx = (r, st', ctx')"
      using assms(3) obj by (simp add: resp_event_to_ir_def ty_def [symmetric] 1)
    moreover have "c' = c\<lparr>rc_created := True\<rparr>"
      using assms(1) by (simp add: rclient_step_def ty_def [symmetric] 1 split: if_splits)
    moreover have "resp_event_says ch v = []" using ty 1 by (cases ch) (simp_all add: resp_event_says_def)
    ultimately show ?thesis
      using assms(2) by (auto simp: in_created_def items_registered_def read_says_def Let_def)
  next
    case 2
    with ty is_object_of_type [of v "''type''"] have obj: "is_object v" by simp
    have added: "in_item_added v st ctx = (r, st', ctx')"
      using assms(3) obj by (simp add: resp_event_to_ir_def ty_def [symmetric] 2)
    have c': "c' = c\<lparr>rc_next := rc_next c + 1, rc_items := insert (rc_next c,
        str_or_empty (jidx (jidx v ''item'') ''id''), str_or_empty (jidx (jidx v ''item'') ''type'')) (rc_items c)\<rparr>"
      using assms(1) by (simp add: rclient_step_def ty_def [symmetric] 2 Let_def split: if_splits)
    have "resp_event_says ch v = []" using ty 2 by (cases ch) (simp_all add: resp_event_says_def)
    with registered_added [OF assms(2) added c'] show ?thesis by (simp add: read_says_def)
  next
    case 3
    then have "ty \<noteq> []" by (auto simp: terminal_types_def)
    with ty is_object_of_type [of v "''type''"] have obj: "is_object v" by simp
    have c': "c' = c\<lparr>rc_finished := True\<rparr>"
      using assms(1) 3 by (auto simp: rclient_step_def ty_def [symmetric] terminal_types_def split: if_splits)
    have "st' = st \<and> read_says ch r = []"
      using assms(3) obj 3
      by (auto simp: resp_event_to_ir_def ty_def [symmetric] terminal_types_def in_finished_def in_failed_def
          read_says_def Let_def)
    moreover have "resp_event_says ch v = []"
      using ty [OF \<open>ty \<noteq> []\<close>] 3 by (cases ch) (auto simp: resp_event_says_def terminal_types_def)
    ultimately show ?thesis using assms(2) by (simp add: c' items_registered_def)
  next
    case 4
    then have "ty \<noteq> []" by (auto simp: item_type_of_def)
    from rclient_step_delta [OF assms(1) _ 4] obtain i where
      "(i, str_or_empty (jidx v ''item_id''), kind) \<in> rc_items c" "c' = c"
      by (auto simp: ty_def)
    with read_resp_delta [OF assms(2) 4 ty [OF \<open>ty \<noteq> []\<close>] _ assms(3)] assms(2) show ?thesis by blast
  qed
qed

interpretation resp_reader: event_reader resp_event_to_ir "rclient_step s" items_registered resp_event_says
  for s
  by unfold_locales (rule read_resp_event)

lemma items_registered_new [simp]: "items_registered rclient_new st"
  by (simp add: items_registered_def rclient_new_def)

section \<open>The terminal event\<close>

text \<open>What a terminal event reports: the text and the thinking kept in the state it was built from.\<close>

definition resp_kept :: "resp_stream \<Rightarrow> (bool \<times> string) \<times> bool \<times> string" where
  "resp_kept st = ((rs_message_added st, rs_message_text st), rs_reasoning_added st, rs_reasoning_text st)"

definition resp_reports :: "resp_stream \<Rightarrow> json \<Rightarrow> bool" where
  "resp_reports st ev \<longleftrightarrow>
     (\<exists>st0 fr ctx ctx'. response_finished_event st0 fr ctx = (ev, ctx') \<and> resp_kept st0 = resp_kept st)"

lemma resp_reportsI: "response_finished_event st fr ctx = (ev, ctx') \<Longrightarrow> resp_reports st ev"
  by (auto simp: resp_reports_def)

definition texts_added :: "resp_stream \<Rightarrow> bool" where
  "texts_added st \<longleftrightarrow> (rs_message_text st \<noteq> [] \<longrightarrow> rs_message_added st) \<and>
     (rs_reasoning_text st \<noteq> [] \<longrightarrow> rs_reasoning_added st)"

definition resp_same :: "resp_stream \<Rightarrow> resp_stream \<Rightarrow> bool" where
  "resp_same st st' \<longleftrightarrow> resp_kept st' = resp_kept st \<and> rs_completed st' = rs_completed st"

lemma resp_open_tool_keeps:
  "resp_open_tool clock tc (st, seq) = (evs, st', seq') \<Longrightarrow> resp_same st st'"
  by (auto simp: resp_open_tool_def resp_same_def resp_kept_def Let_def split: option.splits prod.splits)

lemma resp_out_tool_keeps:
  assumes "resp_out_tool clock tc (st, seq) = (evs, st', seq')"
  shows "resp_same st st'"
proof -
  obtain evs1 st1 seq1 where opened: "resp_open_tool clock tc (st, seq) = (evs1, st1, seq1)"
    by (metis prod_cases3)
  have "resp_same st1 st'"
    using assms by (auto simp: resp_out_tool_def opened resp_same_def resp_kept_def Let_def split: option.splits)
  with resp_open_tool_keeps [OF opened] show ?thesis by (simp add: resp_same_def)
qed

lemma resp_out_tools_keep:
  "emit_all (resp_out_tool clock) tcs (st, seq) = (evs, st', seq') \<Longrightarrow> resp_same st st'"
proof (induction tcs arbitrary: st seq evs)
  case (Cons tc tcs)
  obtain evs1 st1 seq1 evs2 where step: "resp_out_tool clock tc (st, seq) = (evs1, st1, seq1)"
    "emit_all (resp_out_tool clock) tcs (st1, seq1) = (evs2, st', seq')"
    using Cons.prems by (auto split: prod.splits)
  from resp_out_tool_keeps [OF step(1)] Cons.IH [OF step(2)] show ?case by (simp add: resp_same_def)
qed (simp add: resp_same_def)

definition kept_adds :: "resp_stream \<Rightarrow> resp_stream \<Rightarrow> string \<Rightarrow> string \<Rightarrow> bool" where
  "kept_adds st st' t r \<longleftrightarrow> rs_message_text st' = rs_message_text st @ t \<and>
     rs_reasoning_text st' = rs_reasoning_text st @ r \<and> (texts_added st \<longrightarrow> texts_added st') \<and>
     rs_completed st' = rs_completed st"

lemma kept_adds_trans:
  "kept_adds st st1 t r \<Longrightarrow> kept_adds st1 st' t' r' \<Longrightarrow> kept_adds st st' (t @ t') (r @ r')"
  by (simp add: kept_adds_def)

lemma kept_adds_same: "resp_same st st' \<Longrightarrow> kept_adds st st' [] []"
  by (simp add: resp_same_def kept_adds_def resp_kept_def texts_added_def)

lemma resp_out_text_keeps:
  "resp_out_text clock content (st, seq) = (evs, st', seq') \<Longrightarrow> kept_adds st st' (unwrap_or [] content) []"
  by (auto simp: resp_out_text_def kept_adds_def texts_added_def Let_def split: if_splits prod.splits)

lemma resp_out_reasoning_keeps:
  "resp_out_reasoning clock content (st, seq) = (evs, st', seq') \<Longrightarrow>
   kept_adds st st' [] (unwrap_or [] content)"
  by (auto simp: resp_out_reasoning_def kept_adds_def texts_added_def Let_def split: if_splits prod.splits)

lemma resp_content_keeps:
  assumes "resp_content clock delta (st, seq) = (evs, st', seq')"
  shows "kept_adds st st' (delta_says TextChannel delta) (delta_says ThinkingChannel delta)"
proof -
  obtain evs1 st1 seq1 where s1: "resp_out_text clock (dl_content delta) (st, seq) = (evs1, st1, seq1)"
    by (metis prod_cases3)
  obtain evs2 st2 seq2 where
    s2: "resp_out_reasoning clock (dl_reasoning_content delta) (st1, seq1) = (evs2, st2, seq2)"
    by (metis prod_cases3)
  obtain evs3 where s3: "emit_all (resp_out_tool clock) (dl_tool_calls delta) (st2, seq2) = (evs3, st', seq')"
    using assms by (auto simp: resp_content_def s1 s2 split: prod.splits)
  have tools: "kept_adds st2 st' [] []" by (rule kept_adds_same) (rule resp_out_tools_keep [OF s3])
  from kept_adds_trans [OF kept_adds_trans [OF resp_out_text_keeps [OF s1] resp_out_reasoning_keeps [OF s2]] tools]
  show ?thesis by simp
qed

lemma resp_start_keeps: "resp_out_start chunk st = (evs, st') \<Longrightarrow> kept_adds st st' [] []"
  by (auto simp: resp_out_start_def Let_def kept_adds_def texts_added_def split: if_splits)

lemma resp_finish_keeps:
  assumes "resp_out_finish finish usage st ctx = (evs, st', ctx')"
  shows "resp_kept st' = resp_kept st"
    "rs_completed st' \<Longrightarrow> \<not> rs_completed st \<Longrightarrow> evs \<noteq> [] \<and> resp_reports st' (last evs)"
proof -
  have note_keeps: "resp_kept (resp_note_end finish usage st) = resp_kept st"
    by (simp add: resp_note_end_def resp_kept_def Let_def)
  show "resp_kept st' = resp_kept st"
    using assms note_keeps
    by (auto simp: resp_out_finish_def Let_def resp_kept_def split: if_splits prod.splits)
  assume "rs_completed st'" "\<not> rs_completed st"
  then show "evs \<noteq> [] \<and> resp_reports st' (last evs)"
    using assms
    by (auto simp: resp_out_finish_def resp_note_end_def Let_def intro: resp_reportsI
        split: if_splits prod.splits)
qed

lemma resp_chunk_keeps:
  assumes "resp_chunk_events clock chunk st seq ctx = (evs, st', seq', ctx')"
  shows "rs_message_text st' = rs_message_text st @ chunk_says TextChannel chunk"
    "rs_reasoning_text st' = rs_reasoning_text st @ chunk_says ThinkingChannel chunk"
    "texts_added st \<Longrightarrow> texts_added st'"
    "rs_completed st' \<Longrightarrow> \<not> rs_completed st \<Longrightarrow> evs \<noteq> [] \<and> resp_reports st' (last evs)"
proof -
  obtain evs0 st0 where s0: "resp_out_start chunk st = (evs0, st0)" by force
  obtain evs1 st1 seq1 where
    s1: "resp_content clock (fst (chunk_choice chunk)) (st0, seq) = (evs1, st1, seq1)"
    by (metis prod_cases3)
  obtain evs2 st2 ctx2 where
    s2: "resp_out_finish (snd (chunk_choice chunk)) (chk_usage chunk) st1 ctx = (evs2, st2, ctx2)"
    by (metis prod_cases3)
  have result: "evs = evs0 @ evs1 @ evs2" "st' = st2"
    using assms by (simp_all add: resp_chunk_split s0 s1 s2)
  note adds = kept_adds_trans [OF resp_start_keeps [OF s0] resp_content_keeps [OF s1]]
  note fin = resp_finish_keeps [OF s2]
  show "rs_message_text st' = rs_message_text st @ chunk_says TextChannel chunk"
    "rs_reasoning_text st' = rs_reasoning_text st @ chunk_says ThinkingChannel chunk"
    "texts_added st \<Longrightarrow> texts_added st'"
    using adds fin(1) by (auto simp: result kept_adds_def resp_kept_def texts_added_def chunk_says_def)
  assume "rs_completed st'" "\<not> rs_completed st"
  with adds fin(2) show "evs \<noteq> [] \<and> resp_reports st' (last evs)"
    by (simp add: result kept_adds_def)
qed

text \<open>Once the stream is finished, quiet chunks change neither the texts nor, after the terminal event, anything.\<close>

lemma resp_quiet_reports:
  "resp_done st \<Longrightarrow> list_all quiet cs \<Longrightarrow> texts_added st \<Longrightarrow>
   emit_all (resp_emit clock) (map OutChunk cs) (st, seq, ctx) = (evs, st', seq', ctx') \<Longrightarrow>
   resp_kept st' = resp_kept st \<and> (rs_completed st \<longrightarrow> evs = []) \<and>
   (rs_completed st' \<longrightarrow> \<not> rs_completed st \<longrightarrow> evs \<noteq> [] \<and> resp_reports st' (last evs))"
proof (induction cs arbitrary: st seq ctx evs)
  case (Cons c cs)
  obtain evs1 st1 seq1 ctx1 evs2 where step: "resp_chunk_events clock c st seq ctx = (evs1, st1, seq1, ctx1)"
    "emit_all (resp_emit clock) (map OutChunk cs) (st1, seq1, ctx1) = (evs2, st', seq', ctx')"
    and evs: "evs = evs1 @ evs2"
    using Cons.prems(4) by (auto split: prod.splits)
  have quiet: "quiet c" "list_all quiet cs" using Cons.prems(2) by simp_all
  note fin = resp_quiet_finish [OF Cons.prems(1) quiet(1) step(1)]
  have created: "rs_created st" using Cons.prems(1) by (simp add: resp_done_def)
  have done1: "resp_done st1" using resp_quiet_accepted [OF Cons.prems(1) quiet(1) step(1)] by simp
  have kept: "resp_kept st1 = resp_kept st" by (rule resp_finish_keeps(1) [OF fin])
  then have "texts_added st1" using Cons.prems(3) by (simp add: resp_kept_def texts_added_def)
  note rest = Cons.IH [OF done1 quiet(2) this step(2)]
  show ?case
  proof (cases "rs_completed st1")
    case True
    with rest have "evs2 = []" "resp_kept st' = resp_kept st1" by simp_all
    with kept resp_finish_keeps(2) [OF fin True] out_finish_step(4) [OF fin created] show ?thesis
      by (auto simp: evs resp_reports_def)
  next
    case False
    then have "\<not> rs_completed st" using out_finish_step(3) [OF fin created] by simp
    with False rest kept show ?thesis by (auto simp: evs)
  qed
qed simp

definition said :: "channel \<Rightarrow> ir_chunk list \<Rightarrow> string" where
  "said ch cs = concat (map (chunk_says ch) cs)"

lemma said_simps [simp]: "said ch [] = []" "said ch (c # cs) = chunk_says ch c @ said ch cs"
  by (simp_all add: said_def)

lemma quiet_says: "quiet c \<Longrightarrow> chunk_says ch c = []"
  by (cases ch) (auto simp: quiet_def chunk_says_def)

lemma quiet_said: "list_all quiet cs \<Longrightarrow> said ch cs = []"
  by (induction cs) (simp_all add: quiet_says)

lemma resp_open_reports:
  "resp_open st \<Longrightarrow> finish_last cs \<Longrightarrow> texts_added st \<Longrightarrow>
   emit_all (resp_emit clock) (map OutChunk cs) (st, seq, ctx) = (evs, st', seq', ctx') \<Longrightarrow>
   rs_message_text st' = rs_message_text st @ said TextChannel cs \<and>
   rs_reasoning_text st' = rs_reasoning_text st @ said ThinkingChannel cs \<and> texts_added st' \<and>
   (rs_completed st' \<longrightarrow> evs \<noteq> [] \<and> resp_reports st' (last evs))"
proof (induction cs arbitrary: st seq ctx evs)
  case (Cons c cs)
  obtain evs1 st1 seq1 ctx1 evs2 where step: "resp_chunk_events clock c st seq ctx = (evs1, st1, seq1, ctx1)"
    "emit_all (resp_emit clock) (map OutChunk cs) (st1, seq1, ctx1) = (evs2, st', seq', ctx')"
    and evs: "evs = evs1 @ evs2"
    using Cons.prems(4) by (auto split: prod.splits)
  note one = resp_ordered_chunk [OF Cons.prems(1) step(1)]
  note keeps = resp_chunk_keeps [OF step(1)]
  have added: "texts_added st1" by (rule keeps(3)) (rule Cons.prems(3))
  show ?case
  proof (cases "snd (chunk_choice c) = None")
    case True
    with one Cons.prems(2) have "resp_open st1" "finish_last cs" by auto
    from Cons.IH [OF this added step(2)] keeps(1,2) show ?thesis by (auto simp: evs)
  next
    case False
    with one Cons.prems(2) have tail: "resp_done st1" "list_all quiet cs" by auto
    note rest = resp_quiet_reports [OF tail added step(2)]
    have "rs_completed st' \<longrightarrow> evs \<noteq> [] \<and> resp_reports st' (last evs)"
    proof (cases "rs_completed st1")
      case True
      with keeps(4) Cons.prems(1) rest show ?thesis
        by (auto simp: evs resp_reports_def resp_open_def)
    qed (use rest in \<open>auto simp: evs\<close>)
    with rest keeps(1,2) added quiet_said [OF tail(2)] show ?thesis
      by (auto simp: resp_kept_def texts_added_def)
  qed
qed (simp add: resp_open_def)

text \<open>The last event of an ordered stream is built from a state that has kept all that was said.\<close>

lemma resp_last_reports:
  assumes "finish_last cs"
  obtains st where "resp_reports st (last (resp_stream_events clock seq
      (map OutChunk cs @ (if failed then [MarkFailed] else []))))"
    "rs_message_text st = said TextChannel cs" "rs_reasoning_text st = said ThinkingChannel cs"
    "texts_added st"
proof -
  obtain evs st seq' ctx where run:
    "emit_all (resp_emit clock) (map OutChunk cs) (resp_stream_new, seq, []) = (evs, st, seq', ctx)"
    by (metis prod_cases4)
  define st1 where "st1 = (if failed then resp_mark_failed st else st)"
  obtain evs' st' ctx' where fin: "resp_end_events st1 ctx = (evs', st', ctx')" by (metis prod_cases3)
  have events: "resp_stream_events clock seq (map OutChunk cs @ (if failed then [MarkFailed] else [])) = evs @ evs'"
    using fin by (cases failed) (simp_all add: resp_stream_events_def emit_all_append run st1_def)
  have "resp_open resp_stream_new" "texts_added resp_stream_new"
    by (simp_all add: resp_open_def texts_added_def resp_stream_new_def)
  from resp_open_reports [OF this(1) assms this(2) run]
  have texts: "rs_message_text st = said TextChannel cs" "rs_reasoning_text st = said ThinkingChannel cs"
    "texts_added st" "rs_completed st \<longrightarrow> evs \<noteq> [] \<and> resp_reports st (last evs)"
    by (simp_all add: resp_stream_new_def)
  have same: "resp_kept st1 = resp_kept st" "rs_completed st1 = rs_completed st"
    by (simp_all add: st1_def resp_mark_failed_def resp_kept_def)
  have "resp_reports st (last (evs @ evs'))"
  proof (cases "rs_completed st")
    case True
    with fin same texts(4) show ?thesis by (simp add: resp_end_events_def)
  next
    case False
    with fin same obtain ev where "evs' = [ev]" "resp_reports st1 ev"
      by (fastforce simp: resp_end_events_def Let_def resp_reports_def resp_kept_def split: prod.splits)
    with same(1) show ?thesis by (simp add: resp_reports_def)
  qed
  with that texts(1-3) show ?thesis by (simp add: events)
qed

section \<open>Reading output items\<close>

lemma read_message_item [simp]:
  "output_item_step js (output_message_item role t uid) (m, ctx) = (append_message_text t m, ctx)"
  by (simp add: output_item_step_def output_message_item_def output_part_step_def jidx_def
      append_message_text_def)

lemma read_call_item [simp]:
  "output_item_step js (output_call_item uid cid name args) (m, ctx) =
     (m\<lparr>msg_tool_calls := msg_tool_calls m @ [\<lparr>tc_id = cid, tc_name = name, tc_arguments = args\<rparr>]\<rparr>, ctx)"
  by (simp add: output_item_step_def output_call_item_def input_function_call_def parse_arguments_any_def
      jidx_def or_else_def)

lemma read_reasoning_item [simp]:
  "output_item_step js (output_reasoning_item t uid) (m, ctx) =
     (if t = [] then m
      else m\<lparr>msg_reasoning_content := Some (unwrap_or [] (msg_reasoning_content m) @ t)\<rparr>, ctx)"
  by (simp add: output_item_step_def output_reasoning_item_def summary_text_def jidx_def)

definition call_of_item :: "fn_item \<Rightarrow> ir_tool_call" where
  "call_of_item item =
     \<lparr>tc_id = fi_call_id item, tc_name = fi_name item, tc_arguments = fi_arguments item\<rparr>"

lemma read_call_items:
  "fold (output_item_step js) (map call_item_from_state items) (m, ctx) =
     (m\<lparr>msg_tool_calls := msg_tool_calls m @ map call_of_item items\<rparr>, ctx)"
  by (induction items arbitrary: m) (simp_all add: call_item_from_state_def call_of_item_def)

lemma read_final_output:
  "fold (output_item_step js) (final_output st) (default_message\<lparr>msg_role := RoleAssistant\<rparr>, ctx) =
     (default_message
        \<lparr>msg_role := RoleAssistant,
         msg_content := (if rs_message_added st \<and> rs_message_text st \<noteq> []
                         then Some (ContentText (rs_message_text st)) else None),
         msg_reasoning_content := (if rs_reasoning_added st \<and> rs_reasoning_text st \<noteq> []
                                   then Some (rs_reasoning_text st) else None),
         msg_tool_calls := map call_of_item (sort_key fi_output_index (map snd (rs_tool_items st)))\<rparr>, ctx)"
  by (auto simp: final_output_def read_call_items append_message_text_def default_message_def)

lemma final_response_fields:
  assumes "build_final_response st usage ctx status = (v, ctx')"
  obtains m where "v = JObj m" "obj_get ''output'' m = Some (JArr (final_output st))"
    "obj_get ''status'' m = Some (JStr status)"
proof
  define us where "us = unwrap_or JNull (fst (resp_usage_opt usage ctx))"
  define fields where "fields =
      [(''id'', Some (JStr (rs_id st))), (''object'', Some (JStr ''response'')),
       (''created_at'', Some (json_i64 (rs_created_at st))), (''status'', Some (JStr status)),
       (''incomplete_details'', if status = ''incomplete'' then Some max_tokens_details else None),
       (''error'', if status = ''failed'' then Some server_error_json else None),
       (''model'', Some (JStr (rs_model st))), (''output'', Some (JArr (final_output st))),
       (''usage'', Some us)]"
  have dist: "distinct (map fst fields)" by (simp add: fields_def)
  show "v = JObj (obj_insert_fields fields [])"
    using assms by (auto simp: build_final_response_def fields_def us_def Let_def split: prod.splits)
  show "obj_get ''output'' (obj_insert_fields fields []) = Some (JArr (final_output st))"
    "obj_get ''status'' (obj_insert_fields fields []) = Some (JStr status)"
    using obj_get_fields_only [OF dist, of _ "[]"] by (simp_all add: fields_def)
qed

text \<open>What \<open>response_to_ir\<close> reads of the response in a terminal event.\<close>

definition final_message :: "json_text \<Rightarrow> json \<Rightarrow> ir_message option" where
  "final_message js ev =
     (case resp_response_to_ir js (jidx ev ''response'') [] of
        (Inr r, _) \<Rightarrow> (case rsp_choices r of c # _ \<Rightarrow> Some (cho_message c) | [] \<Rightarrow> None)
      | _ \<Rightarrow> None)"

lemma final_message_texts:
  assumes "resp_reports st ev" "texts_added st"
  shows "\<exists>m. final_message js ev = Some m \<and> content_as_text (msg_content m) = rs_message_text st \<and>
    unwrap_or [] (msg_reasoning_content m) = rs_reasoning_text st"
proof -
  obtain st0 fr ctx ctx' where ev: "response_finished_event st0 fr ctx = (ev, ctx')"
    and kept: "resp_kept st0 = resp_kept st"
    using assms(1) by (auto simp: resp_reports_def)
  obtain resp c where resp: "build_final_response st0 (rs_last_usage st0) ctx (finish_status fr) = (resp, c)"
    by force
  then have ev': "ev = json_obj [(''type'', JStr (''response.'' @ finish_status fr)), (''response'', resp)]"
    using ev by (auto simp: response_finished_event_def Let_def)
  from final_response_fields [OF resp] obtain m where m: "resp = JObj m"
    "obj_get ''output'' m = Some (JArr (final_output st0))" by blast
  define msg where
    "msg = fst (fold (output_item_step js) (final_output st0) (default_message\<lparr>msg_role := RoleAssistant\<rparr>, []))"
  have read: "final_message js ev = Some msg"
    by (simp add: msg_def final_message_def ev' resp_response_to_ir_def m jidx_def read_final_output Let_def)
  have "rs_message_text st0 = rs_message_text st" "rs_reasoning_text st0 = rs_reasoning_text st"
    "texts_added st0"
    using kept assms(2) by (simp_all add: resp_kept_def texts_added_def)
  moreover have "content_as_text (msg_content msg) = rs_message_text st0"
    "unwrap_or [] (msg_reasoning_content msg) = rs_reasoning_text st0"
    using \<open>texts_added st0\<close> unfolding msg_def read_final_output
    by (auto simp: texts_added_def content_as_text_def)
  ultimately show ?thesis by (simp add: read)
qed

section \<open>Properties\<close>

text \<open>
  C6: when nothing but usage follows the chunk with the finish reason, the events that
  \<open>chunk_from_ir\<close> and \<open>stream_end\<close> of the Responses adapter send are a legal stream for the strict client:
  \<open>response.created\<close> first and once, output items numbered from 0, each delta for an item that
  was added, by index, id and type, and one terminal event, after which nothing comes. This
  holds also when the upstream breaks off (\<open>mark_failed\<close>), for any clock.
\<close>

theorem resp_stream_ordered:
  assumes "finish_last cs" "cs \<noteq> []"
  shows "\<exists>c. accepts (rclient_step True)
      (resp_stream_events clock seq (map OutChunk cs @ (if failed then [MarkFailed] else []))) rclient_new = Some c \<and>
    rc_finished c"
  using assms by (rule resp_ordered_accepted)

text \<open>A text, a tool call, the finish reason, and the usage in a chunk of its own.\<close>

definition resp_sample_chunk :: "ir_delta \<Rightarrow> string option \<Rightarrow> ir_usage option \<Rightarrow> ir_chunk" where
  "resp_sample_chunk delta fr usage =
     default_chunk\<lparr>chk_choices := [\<lparr>cc_index = 0, cc_delta = delta, cc_finish_reason = fr\<rparr>],
                   chk_usage := usage\<rparr>"

definition resp_sample_stream :: "ir_chunk list" where
  "resp_sample_stream =
     [resp_sample_chunk (default_delta\<lparr>dl_content := Some ''hi'', dl_reasoning_content := Some ''so''\<rparr>) None None,
      resp_sample_chunk (default_delta\<lparr>dl_tool_calls :=
        [\<lparr>tcd_index = 0, tcd_id = Some ''t1'', tcd_name = Some ''f'', tcd_arguments = Some ''{}''\<rparr>]\<rparr>) None None,
      resp_sample_chunk default_delta (Some ''tool_calls'') None,
      resp_sample_chunk default_delta None (Some default_usage)]"

lemma resp_sample_fits: "finish_last resp_sample_stream" "resp_sample_stream \<noteq> []"
  by (simp_all add: resp_sample_stream_def resp_sample_chunk_def default_delta_def default_chunk_def
      chunk_choice_def quiet_def)

lemma resp_stream_ordered_witness:
  "\<exists>c. accepts (rclient_step True) (resp_stream_events (\<lambda>_. 7) 0 (map OutChunk resp_sample_stream @ [MarkFailed]))
      rclient_new = Some c \<and> rc_finished c"
  using resp_stream_ordered [OF resp_sample_fits, of "\<lambda>_. 7" 0 True] by simp

text \<open>
  C7: whatever chunks come in, in any order and with failures at any point, the items of a
  Responses stream are in order (numbered 0, 1, 2, \<dots> as \<open>u32\<close>, each delta for an item added before it)
  and there is exactly one terminal event.
\<close>

theorem resp_stream_items:
  "\<exists>c. accepts (rclient_step False) (resp_stream_events clock seq ops) rclient_new = Some c \<and> rc_finished c"
  by (rule resp_any_accepted)




text \<open>
  In the terminal event the message stands before the reasoning, though the stream gave the
  reasoning the index 0 and the message the index 1.
\<close>

definition reasoning_first :: "ir_chunk list" where
  "reasoning_first =
     [resp_sample_chunk (default_delta\<lparr>dl_reasoning_content := Some ''so''\<rparr>) None None,
      resp_sample_chunk (default_delta\<lparr>dl_content := Some ''hi''\<rparr>) (Some ''stop'') None]"

definition output_types :: "json \<Rightarrow> string list" where
  "output_types ev =
     map (\<lambda>v. str_or_empty (jidx v ''type'')) (unwrap_or [] (as_array (jidx (jidx ev ''response'') ''output'')))"

lemma resp_output_order_differs:
  "\<exists>e0 e1 e2 e3 e4 e5. resp_stream_events (\<lambda>_. 7) 0 (map OutChunk reasoning_first) = [e0, e1, e2, e3, e4, e5] \<and>
     output_index_of e1 = Some 0 \<and> str_or_empty (jidx (jidx e1 ''item'') ''type'') = ''reasoning'' \<and>
     output_index_of e3 = Some 1 \<and> str_or_empty (jidx (jidx e3 ''item'') ''type'') = ''message'' \<and>
     output_types e5 = [''message'', ''reasoning'']"
  by (simp add: resp_stream_events_def reasoning_first_def resp_chunk_events_def resp_out_start_def
      resp_out_text_def resp_out_reasoning_def resp_out_finish_def resp_note_end_def resp_end_events_def
      resp_stream_new_def resp_sample_chunk_def default_chunk_def default_delta_def chunk_choice_def
      response_finished_event_def finish_status_def build_final_response_def resp_usage_opt_def final_output_def
      output_types_def output_message_item_def output_reasoning_item_def message_added_event_def
      reasoning_added_event_def item_added_event_def output_index_of_def u32_try_from_def jidx_def rand_suffix_def obj_lookup
      Let_def)

end
