(* ===== verification/ResponsesRoundtrip.thy ===== *)
theory ResponsesRoundtrip
  imports ResponsesReader
begin

text \<open>
  What the Responses adapter reads back of what it writes: usage, whole responses and requests.
  The ids of output items are drawn from the clock and a counter and are not read back.
\<close>

section \<open>Usage\<close>

text \<open>The usage that fits: no cache writes, no overflow, and no details but the two the IR knows.\<close>

definition resp_usage_ok :: "ir_usage \<Rightarrow> bool" where
  "resp_usage_ok u \<longleftrightarrow>
     us_cache_write_tokens u = None \<and>
     unat (us_prompt_tokens u) + unat (unwrap_or 0 (us_cache_read_tokens u)) < 2 ^ 64 \<and>
     extra_ok (''completion_tokens_details'' # resp_usage_fields) (us_extra u) \<and>
     (case obj_get ''reasoning_tokens'' (us_extra u) of None \<Rightarrow> True | Some v \<Rightarrow> as_u64 v \<noteq> None)"

lemma as_u64_eq: "as_u64 v = Some n \<longleftrightarrow> v = json_u64 n"
  by (cases v rule: as_u64.cases) (auto simp: json_u64_def)

lemma details_rest_one [simp]: "details_rest k [(k, v)] = None"
  by (simp add: details_rest_def obj_collect_def)

lemma resp_usage_back:
  assumes ok: "resp_usage_ok u" and written: "usage_from_ir u c = (v, c')"
  shows "parse_responses_usage v = u" "c' = c"
proof -
  define E where "E = us_extra u"
  have extra: "obj_ok E" and none: "\<And>k. k \<in> set (''completion_tokens_details'' # resp_usage_fields) \<Longrightarrow> obj_get k E = None"
    using ok by (auto simp: resp_usage_ok_def extra_ok_def E_def obj_get_None list_all_iff)
  have E_none: "obj_get ''input_tokens_details'' E = None" "obj_get ''output_tokens_details'' E = None"
    "obj_get ''completion_tokens_details'' E = None"
    by (rule none; simp add: resp_usage_fields_def)+
  define cached where "cached = us_cache_read_tokens u"
  obtain reasoning where reasoning: "obj_get ''reasoning_tokens'' E = map_option json_u64 reasoning"
    using ok by (cases "obj_get ''reasoning_tokens'' E")
      (auto simp: resp_usage_ok_def E_def as_u64_eq intro: that [of None] that [of "Some _"])
  define inp where "inp = map_option (\<lambda>n. JObj [(''cached_tokens'', json_u64 n)]) cached"
  define outp where "outp = map_option (\<lambda>n. JObj [(''reasoning_tokens'', json_u64 n)]) reasoning"
  define out where "out = obj_insert_opt ''output_tokens_details'' outp
    (obj_insert_opt ''input_tokens_details'' inp
      (obj_insert_opt ''total_tokens'' (map_option json_u64 (us_total_tokens u))
        (obj_insert ''output_tokens'' (json_u64 (us_completion_tokens u))
          (obj_insert ''input_tokens''
            (json_u64 (saturating_add (us_prompt_tokens u) (unwrap_or 0 cached))) []))))"
  define W where "W = obj_collect (\<lambda>k. k \<notin> set resp_own_details) E out"
  have v: "v = JObj W" and "c' = c"
    using written ok
    by (auto simp: usage_from_ir_def E_def [symmetric] E_none reasoning merge_details_def details_field_def
        obj_insert_opt_def W_def out_def inp_def outp_def cached_def resp_usage_ok_def Let_def
        split: option.splits)
  then show "c' = c" by simp
  have W_get: "obj_get k W = (if k \<notin> set resp_own_details \<and> obj_get k E \<noteq> None then obj_get k E else obj_get k out)" for k
    unfolding W_def by (rule obj_get_collect [OF extra])
  have W_field: "obj_get k W = obj_get k out" if "k \<in> set resp_usage_fields" for k
    using that none by (simp add: W_get)
  have fields: "obj_get ''input_tokens'' W = Some (json_u64 (saturating_add (us_prompt_tokens u) (unwrap_or 0 cached)))"
    "obj_get ''output_tokens'' W = Some (json_u64 (us_completion_tokens u))"
    "obj_get ''total_tokens'' W = map_option json_u64 (us_total_tokens u)"
    "obj_get ''input_tokens_details'' W = inp" "obj_get ''output_tokens_details'' W = outp"
    by (simp_all add: W_field resp_usage_fields_def) (simp_all add: out_def obj_lookup inp_def outp_def)
  define X where "X = obj_insert_opt ''reasoning_tokens'' (map_option json_u64 reasoning) []"
  have W_ok: "obj_ok W"
    unfolding W_def out_def by (intro obj_ok_collect obj_ok_insert obj_ok_insert_opt obj_ok_Nil)
  have collect: "obj_collect (\<lambda>k. k \<notin> set resp_usage_fields) W X = E"
  proof (rule obj_ext)
    show "obj_ok (obj_collect (\<lambda>k. k \<notin> set resp_usage_fields) W X)"
      by (rule obj_ok_collect) (simp add: X_def obj_ok_insert_opt)
    fix k
    have out_none: "obj_get k out = None" if "k \<notin> set resp_usage_fields"
      using that by (simp add: out_def obj_lookup resp_usage_fields_def)
    have X_get: "obj_get k X = (if k = ''reasoning_tokens'' then obj_get k E else None)"
      by (auto simp: X_def obj_lookup reasoning)
    show "obj_get k (obj_collect (\<lambda>k. k \<notin> set resp_usage_fields) W X) = obj_get k E"
    proof (cases "k \<in> set resp_own_details")
      case True
      then have "k = ''reasoning_tokens'' \<or> obj_get k E = None"
        using E_none by (auto simp: resp_own_details_def)
      with True out_none show ?thesis
        by (auto simp: obj_get_collect [OF W_ok] W_get X_get)
    next
      case False
      then have "k \<noteq> ''reasoning_tokens''" by (auto simp: resp_own_details_def)
      with False out_none none [of k] show ?thesis
        by (auto simp: obj_get_collect [OF W_ok] W_get X_get)
    qed
  qed fact
  have "parse_responses_usage v =
      \<lparr>us_prompt_tokens = saturating_sub (saturating_add (us_prompt_tokens u) (unwrap_or 0 cached)) (unwrap_or 0 cached),
       us_completion_tokens = us_completion_tokens u, us_cache_read_tokens = cached,
       us_cache_write_tokens = None, us_total_tokens = us_total_tokens u,
       us_extra = obj_collect (\<lambda>k. k \<notin> set resp_usage_fields) W X\<rparr>"
    by (cases cached; cases reasoning; cases "us_total_tokens u";
        simp add: parse_responses_usage_def v fields inp_def outp_def X_def Let_def obj_insert_opt_def)
  with ok show "parse_responses_usage v = u"
    by (simp add: collect cached_def E_def resp_usage_ok_def saturating_add_sub)
qed

section \<open>Responses\<close>

text \<open>
  The response that fits: one assistant message with plain text, calls and reasoning; it either stopped, or
  hit the length limit and says so in \<open>incomplete_details\<close>.
\<close>

definition resp_content_ok :: "ir_content option \<Rightarrow> bool" where
  "resp_content_ok content \<longleftrightarrow> content = None \<or> (\<exists>s. s \<noteq> [] \<and> content = Some (ContentText s))"

definition resp_message_ok :: "ir_message \<Rightarrow> bool" where
  "resp_message_ok m \<longleftrightarrow>
     m = default_message\<lparr>msg_role := RoleAssistant, msg_content := msg_content m,
           msg_tool_calls := msg_tool_calls m, msg_reasoning_content := msg_reasoning_content m\<rparr> \<and>
     resp_content_ok (msg_content m) \<and> msg_reasoning_content m \<noteq> Some []"

definition resp_response_ok :: "ir_response \<Rightarrow> bool" where
  "resp_response_ok r \<longleftrightarrow>
     (\<exists>m fr. rsp_choices r = [\<lparr>cho_index = 0, cho_message = m, cho_finish_reason = Some fr\<rparr>] \<and>
        resp_message_ok m \<and>
        fr = (if obj_get ''incomplete_details'' (rsp_extra r) = None then ''stop'' else ''length'')) \<and>
     rsp_system_fingerprint r = None \<and>
     (case rsp_usage r of None \<Rightarrow> True | Some u \<Rightarrow> resp_usage_ok u) \<and>
     extra_ok resp_known_response_fields (rsp_extra r)"

lemma read_call_outputs:
  assumes "map_ctx (output_function_call_item clock) calls seq = (items, seq')"
  shows "fold (output_item_step js) items (m, ctx) = (m\<lparr>msg_tool_calls := msg_tool_calls m @ calls\<rparr>, ctx)"
  using assms
proof (induction calls arbitrary: seq items m)
  case (Cons tc tcs)
  have one: "output_function_call_item clock tc seq =
      (output_call_item (''fc_'' @ fst (rand_suffix clock seq)) (tc_id tc) (tc_name tc) (tc_arguments tc),
       snd (rand_suffix clock seq))"
    by (simp add: output_function_call_item_def split_def Let_def)
  from Cons.prems obtain items1 where
    rest: "map_ctx (output_function_call_item clock) tcs (snd (rand_suffix clock seq)) = (items1, seq')"
    and "items = fst (output_function_call_item clock tc seq) # items1"
    by (auto simp: one split: prod.splits)
  then show ?case by (simp add: one Cons.IH [OF rest])
qed simp

lemma read_choice_output:
  assumes "resp_message_ok m" "cho_message ch = m" "choice_output clock ch seq = (items, seq')"
  shows "fold (output_item_step js) items (default_message\<lparr>msg_role := RoleAssistant\<rparr>, ctx) = (m, ctx)"
proof -
  obtain content calls reasoning where m: "m = default_message\<lparr>msg_role := RoleAssistant, msg_content := content,
      msg_tool_calls := calls, msg_reasoning_content := reasoning\<rparr>"
    and ok: "resp_content_ok content" "reasoning \<noteq> Some []"
    using assms(1) unfolding resp_message_ok_def by blast
  obtain titems seq1 where titems: "(case content of None \<Rightarrow> ([], seq)
      | Some c \<Rightarrow> (let (s, seq') = rand_suffix clock seq
                in ([output_message_item RoleAssistant (content_as_text (Some c)) (''msg_'' @ s)], seq'))) = (titems, seq1)"
    by force
  obtain citems seq2 where c: "map_ctx (output_function_call_item clock) calls seq1 = (citems, seq2)" by force
  obtain think seq3 where think: "(case reasoning of None \<Rightarrow> ([], seq2)
      | Some rc \<Rightarrow> (let (s, seq') = rand_suffix clock seq2
                 in ([output_reasoning_item rc (''rs_'' @ s)], seq'))) = (think, seq3)"
    by force
  have "items = titems @ citems @ think"
    using assms(2,3) titems c think
    by (cases content; cases reasoning)
      (auto simp: choice_output_def m default_message_def Let_def split: prod.splits)
  moreover have "fold (output_item_step js) titems (default_message\<lparr>msg_role := RoleAssistant\<rparr>, ctx) =
      (default_message\<lparr>msg_role := RoleAssistant, msg_content := content\<rparr>, ctx)"
    using titems ok(1)
    by (auto simp: resp_content_ok_def default_message_def content_as_text_def append_message_text_def
        split: prod.splits)
  moreover have "fold (output_item_step js) think (default_message\<lparr>msg_role := RoleAssistant,
        msg_content := content, msg_tool_calls := calls\<rparr>, ctx) = (m, ctx)"
    using think ok(2) by (cases reasoning) (auto simp: m default_message_def split: prod.splits)
  ultimately show ?thesis
    by (simp add: read_call_outputs [OF c] default_message_def)
qed

lemma resp_usage_opt_back:
  assumes "case u of None \<Rightarrow> True | Some us \<Rightarrow> resp_usage_ok us" "resp_usage_opt u c = (j, c')"
  shows "map_option parse_responses_usage j = u" "c' = c"
  using assms
  by (cases u; auto simp: resp_usage_opt_def dest: resp_usage_back split: prod.splits)+

lemma normalize_status:
  "normalize_finish_reason ''completed'' = ''stop''" "normalize_finish_reason ''incomplete'' = ''length''"
  by (simp_all add: normalize_finish_reason_def to_ascii_lowercase_def ascii_lower_def Let_def)

lemma resp_response_back:
  assumes ok: "resp_response_ok r" and json: "resp_response_from_ir clock r seq ctx = (Inr v, seq', ctx')"
  shows "ctx' = ctx" "resp_response_to_ir js v c = (Inr r, c)"
proof -
  define X where "X = rsp_extra r"
  define details where "details = obj_get ''incomplete_details'' X"
  define status where "status = (if details = None then ''completed'' else ''incomplete'')"
  obtain m where cho: "rsp_choices r = [\<lparr>cho_index = 0, cho_message = m,
        cho_finish_reason = Some (if details = None then ''stop'' else ''length'')\<rparr>]" "resp_message_ok m"
    and plain: "rsp_system_fingerprint r = None"
    and usage_ok: "case rsp_usage r of None \<Rightarrow> True | Some u \<Rightarrow> resp_usage_ok u"
    and extra: "extra_ok resp_known_response_fields X"
    using ok unfolding resp_response_ok_def details_def X_def by blast
  have status: "resp_status r = status"
    by (auto simp: resp_status_def cho status_def details_def X_def)
  obtain usage where u: "resp_usage_opt (rsp_usage r) ctx = (usage, ctx')"
    using json cho by (auto simp: resp_response_from_ir_def Let_def split: prod.splits)
  note usage = resp_usage_opt_back [OF usage_ok u]
  show "ctx' = ctx" by (rule usage(2))
  obtain items seq1 where items: "choice_output clock (hd (rsp_choices r)) seq = (items, seq1)" by force
  note msg_back = read_choice_output [OF cho(2) _ items]
  define fs where "fs =
     [(''id'', Some (JStr (rsp_id r))), (''object'', Some (JStr ''response'')),
      (''created_at'', Some (json_i64 (rsp_created r))), (''model'', Some (JStr (rsp_model r))),
      (''status'', Some (JStr status)), (''output'', Some (JArr items)), (''usage'', usage)]"
  have X_ok: "obj_ok X" using extra by (simp add: extra_ok_def)
  define W where "W = obj_insert_fields fs X"
  have dist: "distinct (map fst fs)" "set (map fst fs) \<subseteq> set resp_known_response_fields"
    by (simp_all add: fs_def resp_known_response_fields_def)
  note p = printed_get [OF extra dist(2,1)]
  have W_ok: "obj_ok W" unfolding W_def using X_ok by (rule obj_ok_fields)
  have W_get: "obj_get k W = (case map_of fs k of Some (Some x) \<Rightarrow> Some x | _ \<Rightarrow> obj_get k X)" for k
    unfolding W_def by (rule obj_get_fields [OF dist(1)])
  have "v = JObj W"
  proof -
    have "v = JObj (obj_insert_fields
        [(''id'', Some (JStr (rsp_id r))), (''object'', Some (JStr ''response'')),
         (''created_at'', Some (json_i64 (rsp_created r))), (''model'', Some (JStr (rsp_model r))),
         (''status'', Some (JStr status)), (''incomplete_details'', details), (''error'', None),
         (''output'', Some (JArr items)), (''usage'', usage)] X)"
      using json u items cho
      by (auto simp: resp_response_from_ir_def status X_def details_def status_def Let_def
          split: prod.splits)
    also have "\<dots> = JObj W"
      unfolding W_def
      by (intro arg_cong [where f = JObj] obj_ext obj_ok_fields X_ok)
        (auto simp: fs_def details_def obj_lookup)
    finally show ?thesis .
  qed
  have g: "obj_get ''id'' W = Some (JStr (rsp_id r))" "obj_get ''model'' W = Some (JStr (rsp_model r))"
    "obj_get ''created_at'' W = Some (json_i64 (rsp_created r))" "obj_get ''status'' W = Some (JStr status)"
    "obj_get ''output'' W = Some (JArr items)" "obj_get ''usage'' W = usage"
    by (simp_all add: p(1) W_def resp_known_response_fields_def) (simp_all add: fs_def)
  have d: "obj_get ''incomplete_details'' W = details" by (simp add: W_get fs_def details_def)
  have collect: "obj_collect (\<lambda>k. k \<notin> set resp_known_response_fields) W
      (obj_insert_opt ''incomplete_details'' (if status = ''incomplete'' then details else None) []) = X"
  proof (rule obj_ext)
    show "obj_ok (obj_collect (\<lambda>k. k \<notin> set resp_known_response_fields) W
      (obj_insert_opt ''incomplete_details'' (if status = ''incomplete'' then details else None) []))"
      by (intro obj_ok_collect obj_ok_insert_opt obj_ok_Nil)
    fix k
    have "obj_get k (obj_collect (\<lambda>k. k \<notin> set resp_known_response_fields) W []) = obj_get k X"
      using p(2) by (simp add: W_def)
    then show "obj_get k (obj_collect (\<lambda>k. k \<notin> set resp_known_response_fields) W
        (obj_insert_opt ''incomplete_details'' (if status = ''incomplete'' then details else None) [])) = obj_get k X"
      by (auto simp: obj_get_collect [OF W_ok] obj_lookup d details_def status_def)
  qed fact
  have "map_option normalize_finish_reason (Some status) = Some (if details = None then ''stop'' else ''length'')"
    by (simp add: status_def normalize_status)
  then show "resp_response_to_ir js v c = (Inr r, c)"
    using plain usage(1) cho(1) collect
    by (cases r; cases details)
      (simp_all add: \<open>v = JObj W\<close> resp_response_to_ir_def g d msg_back X_def status_def Let_def)
qed

section \<open>Requests\<close>

text \<open>
  The conversation of a request, turn by turn: what was said, which calls were made, what they
  returned. System messages stand apart; the protocol has one field for all of them.
\<close>

datatype resp_turn = Said ir_role "ir_part list" | Called ir_tool_call | Returned string string

fun content_parts :: "ir_content option \<Rightarrow> ir_part list" where
  "content_parts None = []"
| "content_parts (Some (ContentText s)) = [PartText s]"
| "content_parts (Some (ContentParts ps)) = ps"

definition message_turns :: "ir_message \<Rightarrow> resp_turn list" where
  "message_turns m =
     (case msg_role m of
        RoleSystem \<Rightarrow> []
      | RoleTool \<Rightarrow> [Returned (unwrap_or [] (msg_tool_call_id m)) (content_as_text (msg_content m))]
      | _ \<Rightarrow>
          (if content_parts (msg_content m) = [] then []
           else [Said (msg_role m) (content_parts (msg_content m))]) @ map Called (msg_tool_calls m))"

definition turns :: "ir_message list \<Rightarrow> resp_turn list" where
  "turns msgs = concat (map message_turns msgs)"

definition system_text :: "ir_message list \<Rightarrow> string" where
  "system_text msgs =
     fold (\<lambda>m i. if msg_role m = RoleSystem then join_instructions i (content_as_text (msg_content m)) else i)
       msgs []"

fun resp_part_ok :: "ir_part \<Rightarrow> bool" where
  "resp_part_ok (PartText t) = True"
| "resp_part_ok (PartImageUrl u) = (u \<noteq> [] \<and> strip_prefix ''data:'' u = None)"
| "resp_part_ok (PartImageInline media data) = (CHR '';'' \<notin> set media)"
| "resp_part_ok (PartInputAudio d f) = False"
| "resp_part_ok (PartFile n u d) = (n \<noteq> [] \<or> u \<noteq> None \<or> d \<noteq> None)"

definition turn_parts_ok :: "ir_message \<Rightarrow> bool" where
  "turn_parts_ok m \<longleftrightarrow> msg_role m \<in> {RoleUser, RoleAssistant} \<longrightarrow> list_all resp_part_ok (content_parts (msg_content m))"

lemma turns_simps [simp]:
  "turns [] = []" "turns (m # ms) = message_turns m @ turns ms" "turns (ms @ ms') = turns ms @ turns ms'"
  by (simp_all add: turns_def)

text \<open>The items \<open>new\<close>, read after any messages, add these turns and no system text.\<close>

definition reads_as :: "json_text \<Rightarrow> json list \<Rightarrow> resp_turn list \<Rightarrow> bool" where
  "reads_as js new ts \<longleftrightarrow>
     (\<forall>msgs c. \<exists>msgs' c'. fold (input_item_step js) new (msgs, c) = (msgs', c') \<and>
        turns msgs' = turns msgs @ ts \<and> system_text msgs' = system_text msgs)"

lemma reads_as_append:
  assumes "reads_as js new ts" "reads_as js new' ts'"
  shows "reads_as js (new @ new') (ts @ ts')"
  unfolding reads_as_def
proof (intro allI)
  fix msgs c
  obtain msgs1 c1 where one: "fold (input_item_step js) new (msgs, c) = (msgs1, c1)"
    "turns msgs1 = turns msgs @ ts" "system_text msgs1 = system_text msgs"
    using assms(1) unfolding reads_as_def by metis
  obtain msgs2 c2 where two: "fold (input_item_step js) new' (msgs1, c1) = (msgs2, c2)"
    "turns msgs2 = turns msgs1 @ ts'" "system_text msgs2 = system_text msgs1"
    using assms(2) unfolding reads_as_def by metis
  show "\<exists>msgs' c'. fold (input_item_step js) (new @ new') (msgs, c) = (msgs', c') \<and>
      turns msgs' = turns msgs @ ts @ ts' \<and> system_text msgs' = system_text msgs"
    using one two by simp
qed

lemma reads_as_Nil [simp]: "reads_as js [] []"
  by (simp add: reads_as_def)

lemma reads_as_one:
  assumes "\<And>c. \<exists>c'. parse_input_item js item c = (Some m, c')" "msg_role m \<noteq> RoleSystem"
    and "msg_tool_calls m = [] \<or> msg_content m = None"
  shows "reads_as js [item] (message_turns m)"
  unfolding reads_as_def
proof (intro allI)
  fix msgs c
  obtain c' where read: "parse_input_item js item c = (Some m, c')" using assms(1) by blast
  have "turns (push_message msgs m) = turns msgs @ message_turns m \<and>
      system_text (push_message msgs m) = system_text msgs"
    using assms(2,3)
    by (cases msgs rule: rev_cases)
      (auto simp: push_message_def message_turns_def system_text_def)
  then show "\<exists>msgs' c'. fold (input_item_step js) [item] (msgs, c) = (msgs', c') \<and>
      turns msgs' = turns msgs @ message_turns m \<and> system_text msgs' = system_text msgs"
    by (simp add: input_item_step_def read)
qed

lemma resp_split_data_url_back:
  "CHR '';'' \<notin> set media \<Longrightarrow> resp_split_data_url (media @ '';base64,'' @ data) = (media, data)"
  by (simp add: resp_split_data_url_def split_at_char_append)

lemma read_input_image:
  "parse_input_content_part (json_obj [(''type'', JStr ''input_image''), (''image_url'', JStr url)]) d =
     parse_input_image (json_obj [(''type'', JStr ''input_image''), (''image_url'', JStr url)]) d"
  by (simp add: parse_input_content_part_def jidx_def)

lemma read_input_file:
  assumes "resp_part_ok (PartFile name url data)"
  shows "parse_input_content_part (fst (ir_part_to_input_part ty (PartFile name url data) c)) d =
    (Some (PartFile name url data), d)"
proof -
  define j where "j = fst (ir_part_to_input_part ty (PartFile name url data) c)"
  have fields: "is_object j" "jidx j ''type'' = JStr ''input_file''"
    "as_str (jidx j ''filename'') = (if name = [] then None else Some name)" "as_str (jidx j ''file_id'') = None"
    "as_str (jidx j ''file_url'') = url" "as_str (jidx j ''url'') = None"
    "as_str (jidx j ''file_data'') = data" "as_str (jidx j ''data'') = None"
    by (cases url; cases data; simp add: j_def obj_lookup)+
  then have "parse_input_content_part j d = parse_input_file j d"
    by (simp add: parse_input_content_part_def)
  also have "\<dots> = (Some (PartFile name url data), d)"
    using assms
    by (cases "name = []"; cases url; cases data) (simp_all add: parse_input_file_def fields or_else_def Let_def)
  finally show ?thesis by (simp only: j_def)
qed

lemma resp_part_back:
  assumes ok: "resp_part_ok p" and ty: "ty \<in> {''input_text'', ''output_text''}"
    and written: "ir_part_to_input_part ty p c = (j, c')"
  shows "\<exists>d'. parse_input_content_part j d = (Some p, d')"
proof (cases p)
  case (PartText t)
  then have "j = json_obj [(''type'', JStr ty), (''text'', JStr t)]" using written by simp
  with ty show ?thesis by (auto simp: PartText parse_input_content_part_def jidx_def)
next
  case (PartImageUrl url)
  then have "j = json_obj [(''type'', JStr ''input_image''), (''image_url'', JStr url)]" using written by simp
  with ok show ?thesis
    by (simp add: PartImageUrl read_input_image) (simp add: parse_input_image_def jidx_def has_value_def)
next
  case (PartImageInline media data)
  then have "j = json_obj [(''type'', JStr ''input_image''), (''image_url'', JStr (''data:'' @ media @ '';base64,'' @ data))]"
    using written by simp
  with ok show ?thesis
    by (simp add: PartImageInline read_input_image)
      (simp add: parse_input_image_def jidx_def has_value_def resp_split_data_url_back [simplified])
next
  case (PartFile name url data)
  with ok read_input_file [of name url data ty c d] written show ?thesis by simp
qed (use ok in simp)

lemma resp_parts_back:
  assumes "list_all resp_part_ok ps" "ty \<in> {''input_text'', ''output_text''}"
    and "map_ctx (ir_part_to_input_part ty) ps c = (items, c')"
  shows "\<exists>d'. filter_map_ctx parse_input_content_part items d = (ps, d')"
  using assms
proof (induction ps arbitrary: c items d)
  case (Cons p ps)
  obtain j c1 items1 where step: "ir_part_to_input_part ty p c = (j, c1)"
    "map_ctx (ir_part_to_input_part ty) ps c1 = (items1, c')" "items = j # items1"
    using Cons.prems(3) by (auto simp: Let_def split: prod.splits)
  obtain d1 where "parse_input_content_part j d = (Some p, d1)"
    using resp_part_back [OF _ Cons.prems(2) step(1)] Cons.prems(1) by fastforce
  moreover obtain d2 where "filter_map_ctx parse_input_content_part items1 d1 = (ps, d2)"
    using Cons.IH [OF _ Cons.prems(2) step(2)] Cons.prems(1) by fastforce
  ultimately show ?case by (simp add: step(3))
qed simp

text \<open>The three kinds of items that a message is written as.\<close>

lemma call_output_reads:
  "msg_role m = RoleTool \<Longrightarrow> reads_as js [call_output_item m] (message_turns m)"
proof -
  assume role: "msg_role m = RoleTool"
  define r where "r = default_message\<lparr>msg_role := RoleTool, msg_tool_call_id := Some (unwrap_or [] (msg_tool_call_id m)),
    msg_content := Some (ContentText (content_as_text (msg_content m)))\<rparr>"
  have "reads_as js [call_output_item m] (message_turns r)"
  proof (rule reads_as_one)
    show "\<exists>c'. parse_input_item js (call_output_item m) c = (Some r, c')" for c
      by (simp add: parse_input_item_def call_output_item_def input_call_output_def jidx_def r_def Let_def)
  qed (simp_all add: r_def default_message_def)
  then show ?thesis by (simp add: r_def message_turns_def role content_as_text_def)
qed

lemma call_item_reads: "reads_as js [function_call_input_item tc] [Called tc]"
proof -
  define r where "r = default_message\<lparr>msg_role := RoleAssistant, msg_tool_calls := [tc]\<rparr>"
  have "reads_as js [function_call_input_item tc] (message_turns r)"
  proof (rule reads_as_one)
    show "\<exists>c'. parse_input_item js (function_call_input_item tc) c = (Some r, c')" for c
      by (simp add: parse_input_item_def function_call_input_item_def input_function_call_def jidx_def
          or_else_def parse_arguments_any_def r_def)
  qed (simp_all add: r_def default_message_def)
  then show ?thesis by (simp add: r_def message_turns_def default_message_def)
qed

lemma call_items_read: "reads_as js (map function_call_input_item tcs) (map Called tcs)"
proof (induction tcs)
  case (Cons tc tcs)
  from reads_as_append [OF call_item_reads this] show ?case by simp
qed simp

lemma message_item_reads:
  assumes "role \<in> {RoleUser, RoleAssistant}" "list_all resp_part_ok (content_parts (Some content))"
    and "request_message_item role content c = (item, c')"
  shows "reads_as js [item]
    (if content_parts (Some content) = [] then [] else [Said role (content_parts (Some content))])"
proof -
  define ty where "ty = (if role = RoleAssistant then ''output_text'' else ''input_text'')"
  have ty_ok: "ty \<in> {''input_text'', ''output_text''}" by (simp add: ty_def)
  define rs where "rs = (if role = RoleAssistant then ''assistant'' else ''user'')"
  obtain items where map: "map_ctx (ir_part_to_input_part ty) (content_parts (Some content)) c = (items, c')"
    and item: "item = json_obj [(''type'', JStr ''message''), (''role'', JStr rs), (''content'', JArr items)]"
    using assms(3) by (cases content; cases "role = RoleAssistant")
      (auto simp: request_message_item_def ty_def rs_def split: prod.splits)
  define r where "r = (let msg = default_message\<lparr>msg_role := role\<rparr>; ps = content_parts (Some content)
    in if ps = [] then msg else msg\<lparr>msg_content := Some (ContentParts ps)\<rparr>)"
  have read: "\<exists>c'. parse_input_item js item d = (Some r, c')" for d
  proof -
    have role: "parse_response_role (Some rs) d = (role, d)"
      using assms(1) by (auto simp: parse_response_role_def rs_def)
    obtain d1 where "filter_map_ctx parse_input_content_part items d = (content_parts (Some content), d1)"
      using resp_parts_back [OF assms(2) ty_ok map] by blast
    then have "parse_message_item item d = (r, d1)"
      by (simp add: parse_message_item_def item jidx_def role r_def Let_def)
    moreover have "parse_input_item js item d = (let (m, ctx') = parse_message_item item d in (Some m, ctx'))"
      by (simp add: parse_input_item_def item jidx_def)
    ultimately show ?thesis by simp
  qed
  have "reads_as js [item] (message_turns r)"
    using assms(1) by (intro reads_as_one read) (auto simp: r_def default_message_def Let_def)
  moreover have "message_turns r =
      (if content_parts (Some content) = [] then [] else [Said role (content_parts (Some content))])"
    using assms(1) by (auto simp: r_def message_turns_def default_message_def Let_def)
  ultimately show ?thesis by simp
qed

lemma said_message_reads:
  assumes "msg_role m \<in> {RoleUser, RoleAssistant}" "turn_parts_ok m"
    and "resp_message_step m (i, items, c) = (i', items', c')"
  shows "\<exists>new. items' = items @ new \<and> reads_as js new (message_turns m) \<and> i' = i"
proof -
  have ok: "list_all resp_part_ok (content_parts (msg_content m))"
    using assms(1,2) by (simp add: turn_parts_ok_def)
  obtain item c1 where item: "(case msg_content m of None \<Rightarrow> ([], c)
      | Some ct \<Rightarrow> (let (i, c') = request_message_item (msg_role m) ct c in ([i], c'))) = (item, c1)"
    by force
  have out: "items' = items @ item @ map function_call_input_item (msg_tool_calls m)" "i' = i"
    using assms(1,3) item by (auto simp: resp_message_step_def)
  have "reads_as js item (if content_parts (msg_content m) = [] then []
      else [Said (msg_role m) (content_parts (msg_content m))])"
  proof (cases "msg_content m")
    case (Some ct)
    then obtain j where j: "request_message_item (msg_role m) ct c = (j, c1)" "item = [j]"
      using item by (auto split: prod.splits)
    from message_item_reads [OF assms(1) _ j(1), of js] ok show ?thesis
      by (auto simp: Some j(2) split: if_splits)
  qed (use item in simp)
  from reads_as_append [OF this call_items_read [of js "msg_tool_calls m"]] out assms(1) show ?thesis
    by (intro exI [of _ "item @ map function_call_input_item (msg_tool_calls m)"]) (auto simp: message_turns_def)
qed

lemma resp_message_step_reads:
  assumes "turn_parts_ok m" "resp_message_step m (i, items, c) = (i', items', c')"
  obtains new where "items' = items @ new" "reads_as js new (message_turns m)"
    "i' = (if msg_role m = RoleSystem then join_instructions i (content_as_text (msg_content m)) else i)"
proof (cases "msg_role m")
  case RoleSystem
  with assms(2) that [of "[]"] show ?thesis by (simp add: resp_message_step_def message_turns_def)
next
  case RoleTool
  with assms(2) that [of "[call_output_item m]"] show ?thesis
    by (simp add: resp_message_step_def call_output_reads)
next
  case RoleUser
  show ?thesis using said_message_reads [OF _ assms] that RoleUser by auto
next
  case RoleAssistant
  show ?thesis using said_message_reads [OF _ assms] that RoleAssistant by auto
qed

definition resp_request_ok :: "ir_request \<Rightarrow> bool" where
  "resp_request_ok req \<longleftrightarrow>
     list_all turn_parts_ok (req_messages req) \<and>
     list_all (\<lambda>t. tool_name t \<noteq> []) (req_tools req) \<and>
     pred_option f64_is_finite (req_temperature req) \<and> pred_option f64_is_finite (req_top_p req) \<and>
     pred_option (\<lambda>rf. rf \<noteq> JNull) (req_response_format req) \<and>
     extra_ok (''user'' # resp_known_request_fields) (req_extra req)"

lemma resp_messages_read:
  assumes "list_all turn_parts_ok msgs" "fold resp_message_step msgs (i, items, c) = (i', items', c')"
  shows "\<exists>new. items' = items @ new \<and> reads_as js new (turns msgs) \<and>
    i' = fold (\<lambda>m i. if msg_role m = RoleSystem then join_instructions i (content_as_text (msg_content m)) else i) msgs i"
  using assms
proof (induction msgs arbitrary: i items c)
  case (Cons m msgs)
  obtain i1 items1 c1 where step: "resp_message_step m (i, items, c) = (i1, items1, c1)"
    by (metis prod_cases3)
  obtain new where new: "items1 = items @ new" "reads_as js new (message_turns m)"
    "i1 = (if msg_role m = RoleSystem then join_instructions i (content_as_text (msg_content m)) else i)"
    using resp_message_step_reads [OF _ step, of js] Cons.prems(1) by auto
  obtain new' where rest: "items' = items1 @ new'" "reads_as js new' (turns msgs)"
    "i' = fold (\<lambda>m i. if msg_role m = RoleSystem then join_instructions i (content_as_text (msg_content m)) else i) msgs i1"
    using Cons.IH [of i1 items1 c1] Cons.prems step by auto
  from reads_as_append [OF new(2) rest(2)] new(1,3) rest(1,3) show ?case by auto
qed simp

lemma resp_tool_back:
  "tool_name t \<noteq> [] \<Longrightarrow> parse_response_tool (response_tool_from_ir t) c = (Some t, c)"
  by (cases t; cases "tool_description t")
    (simp_all add: parse_response_tool_def response_tool_from_ir_def obj_lookup Let_def)

lemma resp_tools_back:
  "list_all (\<lambda>t. tool_name t \<noteq> []) ts \<Longrightarrow>
   parse_response_tools (JArr (map response_tool_from_ir ts)) c = (Inr ts, c)"
  using filter_map_ctx_inverse [of ts parse_response_tool response_tool_from_ir "\<lambda>_ c. c"]
  by (simp add: parse_response_tools_def resp_tool_back fold_const list_all_iff)

definition same_request :: "ir_request \<Rightarrow> ir_request \<Rightarrow> bool" where
  "same_request r req \<longleftrightarrow>
     turns (req_messages r) = turns (req_messages req) \<and>
     system_text (req_messages r) = system_text (req_messages req) \<and>
     req_model r = req_model req \<and> req_tools r = req_tools req \<and>
     req_tool_choice r = map_option resp_tool_choice (req_tool_choice req) \<and>
     req_temperature r = req_temperature req \<and> req_top_p r = req_top_p req \<and>
     req_max_tokens r = req_max_tokens req \<and> req_stream r = req_stream req \<and>
     req_response_format r = req_response_format req"

lemma system_text_instructions [simp]:
  "system_text (if i = [] then [] else [text_message RoleSystem i]) = i"
  "turns (if i = [] then [] else [text_message RoleSystem i]) = []"
  by (simp_all add: system_text_def text_message_def content_as_text_def join_instructions_def message_turns_def)

lemma resp_request_back:
  assumes ok: "resp_request_ok req" and json: "resp_request_from_ir req ctx = (Inr v, ctx')"
  shows "\<exists>r c'. resp_request_to_ir js v c = (Inr r, c') \<and> same_request r req \<and>
    req_user r = None \<and> obj_get ''user'' (req_extra r) = map_option JStr (req_user req)"
proof -
  obtain instr items c1 where run:
    "fold resp_message_step (req_messages req) ([], [], resp_degrade_ext (req_ext req) ctx) = (instr, items, c1)"
    by (metis prod_cases3)
  have "list_all turn_parts_ok (req_messages req)" using ok by (simp add: resp_request_ok_def)
  from resp_messages_read [OF this run, of js]
  have reads: "reads_as js items (turns (req_messages req))" and instr: "instr = system_text (req_messages req)"
    by (auto simp: system_text_def)
  define sys where "sys = (if instr = [] then [] else [text_message RoleSystem instr])"
  obtain msgs c2 where msgs: "fold (input_item_step js) items (sys, c) = (msgs, c2)"
    "turns msgs = turns (req_messages req)" "system_text msgs = instr"
    using reads unfolding reads_as_def sys_def by (metis append_Nil system_text_instructions)
  define fs where "fs =
     [(''model'', Some (JStr (req_model req))),
      (''instructions'', if instr = [] then None else Some (JStr instr)),
      (''input'', Some (JArr items)),
      (''tools'', if req_tools req = [] then None
                  else Some (JArr (map response_tool_from_ir (req_tools req)))),
      (''tool_choice'', map_option resp_tool_choice (req_tool_choice req)),
      (''temperature'', map_option json_f64 (req_temperature req)),
      (''top_p'', map_option json_f64 (req_top_p req)),
      (''max_output_tokens'', map_option json_u64 (req_max_tokens req)),
      (''user'', map_option JStr (req_user req)),
      (''text'', map_option (\<lambda>rf. json_obj [(''format'', rf)]) (req_response_format req)),
      (''stream'', Some (JBool (req_stream req)))]"
  define W where "W = obj_insert_fields fs (req_extra req)"
  have v: "v = JObj W"
    using json run by (auto simp: resp_request_from_ir_def W_def fs_def Let_def)
  have extra: "extra_ok (''user'' # resp_known_request_fields) (req_extra req)"
    using ok by (simp add: resp_request_ok_def)
  have "set (map fst fs) \<subseteq> set (''user'' # resp_known_request_fields)" and dist: "distinct (map fst fs)"
    by (simp_all add: fs_def resp_known_request_fields_def)
  note p = printed_get(1) [OF extra this]
  have g: "obj_get ''model'' W = Some (JStr (req_model req))"
    "obj_get ''instructions'' W = (if instr = [] then None else Some (JStr instr))"
    "obj_get ''input'' W = Some (JArr items)"
    "obj_get ''tools'' W = (if req_tools req = [] then None
       else Some (JArr (map response_tool_from_ir (req_tools req))))"
    "obj_get ''tool_choice'' W = map_option resp_tool_choice (req_tool_choice req)"
    "obj_get ''temperature'' W = map_option json_f64 (req_temperature req)"
    "obj_get ''top_p'' W = map_option json_f64 (req_top_p req)"
    "obj_get ''max_output_tokens'' W = map_option json_u64 (req_max_tokens req)"
    "obj_get ''user'' W = map_option JStr (req_user req)"
    "obj_get ''text'' W = map_option (\<lambda>rf. json_obj [(''format'', rf)]) (req_response_format req)"
    "obj_get ''stream'' W = Some (JBool (req_stream req))"
    unfolding W_def by (subst p, simp add: resp_known_request_fields_def, simp add: fs_def)+
  have W_ok: "obj_ok W" unfolding W_def using extra by (intro obj_ok_fields) (simp add: extra_ok_def)
  have head: "(case Option.bind (obj_get ''instructions'' W) as_str of
      Some i \<Rightarrow> if i \<noteq> [] then [text_message RoleSystem i] else [] | None \<Rightarrow> []) = sys"
    by (simp add: g sys_def)
  have input: "parse_input js (obj_get ''input'' W) sys c = (msgs, c2)"
    by (simp add: g parse_input_def msgs(1))
  define fmt where "fmt = Option.bind (obj_get ''text'' W) as_object"
  have verb: "Option.bind fmt (obj_get ''verbosity'') = None"
    and format: "Option.bind fmt (obj_get ''format'') = req_response_format req"
    unfolding fmt_def g by (cases "req_response_format req"; simp add: json_obj_def)+
  have tools: "(case obj_get ''tools'' W of None \<Rightarrow> (Inr [], c2) | Some tools \<Rightarrow> parse_response_tools tools c2) =
      (Inr (req_tools req), c2)"
    using ok by (simp add: g resp_tools_back resp_request_ok_def)
  have temp: "as_f64 (jidx (JObj W) ''temperature'') = req_temperature req"
    "as_f64 (jidx (JObj W) ''top_p'') = req_top_p req"
    using ok by (cases "req_temperature req"; cases "req_top_p req"; simp add: g resp_request_ok_def)+
  have max: "Option.bind (obj_get ''max_output_tokens'' W) as_u64 = req_max_tokens req"
    by (cases "req_max_tokens req") (simp_all add: g)
  define r where "r = default_request
      \<lparr>req_model := req_model req, req_messages := msgs, req_tools := req_tools req,
       req_tool_choice := map_option resp_tool_choice (req_tool_choice req),
       req_temperature := req_temperature req, req_top_p := req_top_p req,
       req_max_tokens := req_max_tokens req, req_stream := req_stream req,
       req_response_format := req_response_format req,
       req_extra := obj_collect (\<lambda>k. k \<notin> set resp_known_request_fields) W []\<rparr>"
  have fields: "str_or_empty (jidx (JObj W) ''model'') = req_model req"
    "unwrap_or False (as_bool (jidx (JObj W) ''stream'')) = req_stream req"
    by (simp_all add: g)
  have "resp_request_to_ir js v c = (Inr r, degrade_stateful v c2)"
    using head input verb format tools max
    by (simp add: resp_request_to_ir_def v r_def temp fields g(5) fmt_def [symmetric] Let_def del: jidx_JObj)
  moreover have "same_request r req"
    by (simp add: same_request_def r_def msgs instr default_request_def)
  moreover have "req_user r = None" by (simp add: r_def default_request_def)
  moreover have "obj_get ''user'' (req_extra r) = map_option JStr (req_user req)"
    by (simp add: r_def obj_get_collect [OF W_ok] g resp_known_request_fields_def)
  ultimately show ?thesis by blast
qed

section \<open>Properties\<close>

text \<open>
  C10: a response that fits the Responses form (\<open>resp_response_ok\<close>) is written by \<open>response_from_ir\<close> and
  read back by \<open>response_to_ir\<close> unchanged, whatever ids the clock gives its items: text, calls,
  reasoning, usage with cached and reasoning tokens, status and unknown fields. Nothing is logged.
\<close>

theorem resp_response_roundtrip:
  assumes "resp_response_ok r"
  shows "\<exists>v seq'. resp_response_from_ir clock r seq ctx = (Inr v, seq', ctx) \<and>
    resp_response_to_ir js v c = (Inr r, c)"
proof -
  obtain v seq' ctx' where v: "resp_response_from_ir clock r seq ctx = (Inr v, seq', ctx')"
    by (simp add: resp_response_from_ir_def Let_def split_def)
  from resp_response_back [OF assms v] v show ?thesis by auto
qed

definition resp_sample_response :: ir_response where
  "resp_sample_response = default_response
     \<lparr>rsp_id := ''r'', rsp_created := 5,
      rsp_choices := [\<lparr>cho_index = 0,
        cho_message = default_message
          \<lparr>msg_role := RoleAssistant, msg_content := Some (ContentText ''hi''),
           msg_tool_calls := [\<lparr>tc_id = ''t'', tc_name = ''f'', tc_arguments = ''{}''\<rparr>],
           msg_reasoning_content := Some ''so''\<rparr>,
        cho_finish_reason = Some ''stop''\<rparr>],
      rsp_usage := Some (default_usage\<lparr>us_prompt_tokens := 3, us_cache_read_tokens := Some 4\<rparr>)\<rparr>"

lemma resp_response_roundtrip_witness:
  "\<exists>v seq'. resp_response_from_ir (\<lambda>_. 7) resp_sample_response 0 [] = (Inr v, seq', []) \<and>
    resp_response_to_ir \<lparr>to_text = (\<lambda>_. []), from_text = (\<lambda>_. Inl [])\<rparr> v [] = (Inr resp_sample_response, [])"
  by (rule resp_response_roundtrip)
    (simp add: resp_sample_response_def default_response_def resp_response_ok_def resp_message_ok_def
      resp_content_ok_def default_message_def resp_usage_ok_def default_usage_def extra_ok_def)

text \<open>
  C11: a request written for the Responses protocol and read back is the same request
  (\<open>same_request\<close>): the same turns in the same order (what was said with all its parts, the calls, their
  results), the same system text in one field, model, tools, sampling parameters, token limit
  and format. The exception is the user name: \<open>request_to_ir\<close> does not know the field that
  \<open>request_from_ir\<close> writes, so it comes back among the unknown fields.
\<close>

theorem resp_request_kept:
  assumes "resp_request_ok req"
  shows "\<exists>v ctx' r c'. resp_request_from_ir req ctx = (Inr v, ctx') \<and>
    resp_request_to_ir js v c = (Inr r, c') \<and> same_request r req \<and>
    req_user r = None \<and> obj_get ''user'' (req_extra r) = map_option JStr (req_user req)"
proof -
  obtain v ctx' where v: "resp_request_from_ir req ctx = (Inr v, ctx')"
    by (simp add: resp_request_from_ir_def Let_def split_def)
  from resp_request_back [OF assms v] v show ?thesis by metis
qed

definition resp_sample_request :: ir_request where
  "resp_sample_request = default_request
     \<lparr>req_model := ''m'', req_user := Some ''u'',
      req_messages :=
        [text_message RoleSystem ''be brief'', text_message RoleUser ''hi'',
         default_message\<lparr>msg_role := RoleAssistant,
           msg_tool_calls := [\<lparr>tc_id = ''t'', tc_name = ''f'', tc_arguments = ''{}''\<rparr>]\<rparr>,
         default_message\<lparr>msg_role := RoleTool, msg_tool_call_id := Some ''t'',
           msg_content := Some (ContentText ''7'')\<rparr>]\<rparr>"

lemma resp_request_kept_witness:
  "\<exists>v ctx' r c'. resp_request_from_ir resp_sample_request [] = (Inr v, ctx') \<and>
    resp_request_to_ir \<lparr>to_text = (\<lambda>_. []), from_text = (\<lambda>_. Inl [])\<rparr> v [] = (Inr r, c') \<and>
    same_request r resp_sample_request \<and>
    req_user r = None \<and> obj_get ''user'' (req_extra r) = map_option JStr (req_user resp_sample_request)"
  by (rule resp_request_kept)
    (simp add: resp_sample_request_def default_request_def resp_request_ok_def turn_parts_ok_def
      text_message_def default_message_def extra_ok_def)

end
