(* ===== verification/Gemini.thy ===== *)
theory Gemini
  imports Chat
begin

text \<open>
  The adapter of the Gemini protocol, \<open>src/protocol/gemini.rs\<close>: requests, responses and usage in both
  directions. The stream is in the theory \<open>GeminiStream\<close>. Gemini gives function calls no ids; the
  adapter makes them up and pairs calls and results by name.
\<close>

definition gem_known_request_fields :: "string list" where
  "gem_known_request_fields =
     [''systemInstruction'', ''contents'', ''generationConfig'', ''tools'', ''safetySettings'']"

section \<open>Requests: JSON to IR\<close>

definition gem_parse_role :: "string option \<Rightarrow> conv_ctx \<Rightarrow> ir_role \<times> conv_ctx" where
  "gem_parse_role role ctx =
     (case role of
        Some r \<Rightarrow>
          if r = ''user'' then (RoleUser, ctx)
          else if r = ''model'' \<or> r = ''system'' \<or> r = ''assistant'' then (RoleAssistant, ctx)
          else (RoleUser, degrade ''content.role'' (''unknown role, treated as user: '' @ r) ctx)
      | None \<Rightarrow> (RoleUser, ctx))"

fun gem_role_to_str :: "ir_role \<Rightarrow> string" where
  "gem_role_to_str RoleAssistant = ''model''"
| "gem_role_to_str _ = ''user''"

definition gem_lost_config :: "string list" where
  "gem_lost_config =
     [''presencePenalty'', ''frequencyPenalty'', ''responseLogprobs'', ''logprobs'', ''topLogprobs'',
      ''thinkingConfig'', ''mediaResolution'']"

text \<open>\<open>as_u64\<close> and then \<open>u32::try_from\<close>: the number, and whether there is one that does not fit.\<close>

definition small_number :: "json \<Rightarrow> u32 option \<times> bool" where
  "small_number v =
     (case as_u64 v of
        None \<Rightarrow> (None, False) | Some n \<Rightarrow> (u32_try_from n, u32_try_from n = None))"

definition gem_response_format :: "json \<Rightarrow> json option" where
  "gem_response_format gc =
     (if as_str (jidx gc ''responseMimeType'') = Some ''application/json'' then
        Some (case jget ''responseSchema'' gc of
                Some s \<Rightarrow>
                  json_obj [(''type'', JStr ''json_schema''),
                            (''json_schema'', json_obj [(''name'', JStr ''response''), (''schema'', s)])]
              | None \<Rightarrow> json_obj [(''type'', JStr ''json_object'')])
      else None)"

definition gem_generation_config :: "json \<Rightarrow> ir_request \<Rightarrow> conv_ctx \<Rightarrow> ir_request \<times> conv_ctx" where
  "gem_generation_config gc req ctx =
     (if \<not> is_object gc
      then (req, degrade ''generationConfig'' ''generationConfig is not an object, ignored'' ctx)
      else
        (let (top_k, k_large) = small_number (jidx gc ''topK'');
             (count, n_large) = small_number (jidx gc ''candidateCount'');
             note = (\<lambda>b field ctx. if b then degrade field ''dropped'' ctx else ctx);
             ctx1 = note k_large ''generationConfig.topK'' ctx;
             (stop, ctx2) =
               (case jget ''stopSequences'' gc of
                  None \<Rightarrow> (req_stop req, ctx1)
                | Some (JArr arr) \<Rightarrow> (Some (List.map_filter as_str arr), ctx1)
                | Some _ \<Rightarrow>
                    (req_stop req, degrade ''generationConfig.stopSequences'' ''not an array, ignored'' ctx1));
             ctx3 = note n_large ''generationConfig.candidateCount'' ctx2;
             ctx4 = fold (\<lambda>k. note (jget k gc \<noteq> None) (''generationConfig.'' @ k)) gem_lost_config ctx3
         in (req\<lparr>req_max_tokens := or_else (as_u64 (jidx gc ''maxOutputTokens'')) (req_max_tokens req),
                 req_temperature := as_f64 (jidx gc ''temperature''),
                 req_top_p := as_f64 (jidx gc ''topP''),
                 req_ext := (req_ext req)\<lparr>ext_top_k := or_else top_k (ext_top_k (req_ext req))\<rparr>,
                 req_stop := stop,
                 req_n := or_else count (req_n req),
                 req_seed := or_else (as_i64 (jidx gc ''seed'')) (req_seed req),
                 req_response_format := or_else (gem_response_format gc) (req_response_format req)\<rparr>, ctx4)))"

definition gem_parse_tool :: "json \<Rightarrow> ir_tool" where
  "gem_parse_tool f =
     \<lparr>tool_name = str_or_empty (jidx f ''name''), tool_description = as_str (jidx f ''description''),
      tool_parameters = unwrap_or (JObj []) (jget ''parameters'' f)\<rparr>"

definition gem_tool_step :: "json \<Rightarrow> ir_tool list \<times> conv_ctx \<Rightarrow> ir_tool list \<times> conv_ctx" where
  "gem_tool_step t acc =
     (let (out, ctx) = acc
      in case Option.bind (jget ''functionDeclarations'' t) as_array of
           Some fds \<Rightarrow> (out @ map gem_parse_tool fds, ctx)
         | None \<Rightarrow>
             (out, degrade ''tools'' (''tool without functionDeclarations, dropped: '' @
                str_or_empty (jidx t ''type'')) ctx))"

definition gem_parse_tools :: "json \<Rightarrow> conv_ctx \<Rightarrow> (convert_error + ir_tool list) \<times> conv_ctx" where
  "gem_parse_tools v ctx =
     (case as_array v of
        None \<Rightarrow> (Inl (ParseError ''tools is not an array''), ctx)
      | Some arr \<Rightarrow> (let (out, ctx') = fold gem_tool_step arr ([], ctx) in (Inr out, ctx')))"

definition system_part_step :: "json \<Rightarrow> string \<times> conv_ctx \<Rightarrow> string \<times> conv_ctx" where
  "system_part_step p acc =
     (let (out, ctx) = acc
      in case as_str (jidx p ''text'') of
           Some t \<Rightarrow> (out @ t, ctx)
         | None \<Rightarrow> (out, degrade ''systemInstruction.part'' ''part without text, ignored'' ctx))"

definition collect_system_text :: "json \<Rightarrow> conv_ctx \<Rightarrow> string \<times> conv_ctx" where
  "collect_system_text parts ctx =
     (case as_array parts of
        Some arr \<Rightarrow> fold system_part_step arr ([], ctx)
      | None \<Rightarrow> (str_or_empty (jidx parts ''text''), ctx))"

definition args_to_string :: "json_text \<Rightarrow> json \<Rightarrow> string" where
  "args_to_string js v = (if is_null v then [] else to_text js v)"

definition args_string_to_value :: "json_text \<Rightarrow> string \<Rightarrow> string \<Rightarrow> conv_ctx \<Rightarrow> json \<times> conv_ctx" where
  "args_string_to_value js args field ctx =
     (if trim args = [] then (JObj [], ctx)
      else (case from_text js args of
              Inr v \<Rightarrow> (v, ctx)
            | Inl _ \<Rightarrow> (JStr args, degrade field ''arguments are not JSON, carried as a string'' ctx)))"

text \<open>\<open>{name}_{seq}\<close>\<close>

fun dec_digits :: "nat \<Rightarrow> string" where
  "dec_digits n = (if n < 10 then [char_of (48 + n)] else dec_digits (n div 10) @ [char_of (48 + n mod 10)])"

declare dec_digits.simps [simp del]

definition made_up_id :: "string \<Rightarrow> u32 \<Rightarrow> string" where
  "made_up_id name seq = name @ ''_'' @ dec_digits (unat seq)"

text \<open>What the loop over the parts of a content collects.\<close>

record gem_parts =
  gp_texts :: "string list"
  gp_media :: "ir_part list"
  gp_calls :: "ir_tool_call list"
  gp_responses :: "(string \<times> string) list"
  gp_reasoning :: "string option"
  gp_seq :: u32

definition gem_parts_new :: gem_parts where
  "gem_parts_new =
     \<lparr>gp_texts = [], gp_media = [], gp_calls = [], gp_responses = [], gp_reasoning = None, gp_seq = 0\<rparr>"

text \<open>The queues of unpaired call ids, by function name; a name without a queue has an empty one.\<close>

type_synonym call_queues = "string \<Rightarrow> string list"

definition gem_text_part :: "json \<Rightarrow> string \<Rightarrow> gem_parts \<Rightarrow> gem_parts" where
  "gem_text_part p t acc =
     (if unwrap_or False (as_bool (jidx p ''thought'')) then acc\<lparr>gp_reasoning := Some t\<rparr>
      else acc\<lparr>gp_texts := gp_texts acc @ [t]\<rparr>)"

definition gem_inline_part ::
  "string \<Rightarrow> json \<Rightarrow> gem_parts \<Rightarrow> conv_ctx \<Rightarrow> gem_parts \<times> conv_ctx" where
  "gem_inline_part field d acc ctx =
     (let mime = str_or_empty (jidx d ''mimeType'')
      in if mime \<noteq> [] \<and> strip_prefix ''image/'' mime = None
         then (acc, degrade field (''inlineData is no image, dropped: '' @ mime) ctx)
         else (acc\<lparr>gp_media := gp_media acc @ [PartImageInline mime (str_or_empty (jidx d ''data''))]\<rparr>, ctx))"

definition gem_file_part :: "json \<Rightarrow> gem_parts \<Rightarrow> conv_ctx \<Rightarrow> gem_parts \<times> conv_ctx" where
  "gem_file_part fd acc ctx =
     (let uri = str_or_empty (jidx fd ''fileUri'')
      in (acc\<lparr>gp_media := gp_media acc @
                [PartFile (str_or_empty (jidx fd ''displayName'')) (if uri = [] then None else Some uri)
                   (as_str (jidx fd ''data''))]\<rparr>,
          if jget ''mimeType'' fd \<noteq> None
          then degrade ''content.part.fileData.mimeType'' ''mimeType of fileData dropped'' ctx else ctx))"

definition gem_call_part :: "json_text \<Rightarrow> json \<Rightarrow> gem_parts \<Rightarrow> gem_parts" where
  "gem_call_part js fc acc =
     (let name = str_or_empty (jidx fc ''name'')
      in acc\<lparr>gp_calls := gp_calls acc @
               [\<lparr>tc_id = made_up_id name (gp_seq acc), tc_name = name,
                 tc_arguments = args_to_string js (jidx fc ''args'')\<rparr>],
             gp_seq := gp_seq acc + 1\<rparr>)"

definition gem_part_step ::
  "json_text \<Rightarrow> json \<Rightarrow> gem_parts \<times> call_queues \<times> conv_ctx \<Rightarrow> gem_parts \<times> call_queues \<times> conv_ctx" where
  "gem_part_step js p s =
     (let (acc, ids, ctx) = s
      in if \<not> is_object p then (acc, ids, degrade ''content.part'' ''part is not an object, dropped'' ctx)
         else (case as_str (jidx p ''text'') of
           Some t \<Rightarrow> (gem_text_part p t acc, ids, ctx)
         | None \<Rightarrow>
         (case jget ''inlineData'' p of
           Some d \<Rightarrow> (let (acc', ctx') = gem_inline_part ''content.part.inlineData'' d acc ctx in (acc', ids, ctx'))
         | None \<Rightarrow>
         (case jget ''fileData'' p of
           Some fd \<Rightarrow> (let (acc', ctx') = gem_file_part fd acc ctx in (acc', ids, ctx'))
         | None \<Rightarrow>
         (case jget ''functionCall'' p of
           Some fc \<Rightarrow>
             (let name = str_or_empty (jidx fc ''name'')
              in (gem_call_part js fc acc, ids(name := ids name @ [made_up_id name (gp_seq acc)]), ctx))
         | None \<Rightarrow>
         (case jget ''functionResponse'' p of
           Some fr \<Rightarrow>
             (acc\<lparr>gp_responses := gp_responses acc @
                [(str_or_empty (jidx fr ''name''), args_to_string js (jidx fr ''response''))]\<rparr>, ids, ctx)
         | None \<Rightarrow> (acc, ids, degrade ''content.part'' ''unknown part, dropped'' ctx)))))))"

definition gem_content_of :: "string list \<Rightarrow> ir_part list \<Rightarrow> ir_content option" where
  "gem_content_of texts media =
     (case map PartText texts @ media of
        [] \<Rightarrow> None
      | [PartText t] \<Rightarrow> Some (ContentText t)
      | ps \<Rightarrow> Some (ContentParts ps))"

definition gem_response_step ::
  "string \<times> string \<Rightarrow> ir_message list \<times> call_queues \<times> conv_ctx \<Rightarrow>
   ir_message list \<times> call_queues \<times> conv_ctx" where
  "gem_response_step r s =
     (let (name, response) = r; (msgs, ids, ctx) = s
      in (msgs @ [default_message
                    \<lparr>msg_role := RoleTool, msg_content := Some (ContentText response),
                     msg_name := Some name,
                     msg_tool_call_id := Some (case ids name of [] \<Rightarrow> name | i # _ \<Rightarrow> i)\<rparr>],
          ids(name := tl (ids name)),
          if ids name = []
          then degrade ''functionResponse.id'' (''functionResponse without a call: '' @ name) ctx else ctx))"

definition gem_parse_content ::
  "json_text \<Rightarrow> json \<Rightarrow> ir_message list \<times> call_queues \<times> conv_ctx \<Rightarrow>
   (convert_error + unit) \<times> ir_message list \<times> call_queues \<times> conv_ctx" where
  "gem_parse_content js c s =
     (let (msgs, ids, ctx) = s
      in if \<not> is_object c then (Inl (ParseError ''content is not an object''), msgs, ids, ctx)
         else
           (let (role, ctx1) = gem_parse_role (as_str (jidx c ''role'')) ctx;
                (acc, ids1, ctx2) =
                  fold (gem_part_step js) (unwrap_or [] (Option.bind (jget ''parts'' c) as_array))
                    (gem_parts_new, ids, ctx1);
                msg = default_message
                  \<lparr>msg_role := role, msg_content := gem_content_of (gp_texts acc) (gp_media acc),
                   msg_tool_calls := gp_calls acc, msg_reasoning_content := gp_reasoning acc\<rparr>;
                msgs1 =
                  (if msg_content msg \<noteq> None \<or> msg_tool_calls msg \<noteq> [] \<or> msg_reasoning_content msg \<noteq> None
                   then msgs @ [msg] else msgs)
            in (Inr (), fold gem_response_step (gp_responses acc) (msgs1, ids1, ctx2))))"

fun gem_parse_contents ::
  "json_text \<Rightarrow> json list \<Rightarrow> ir_message list \<times> call_queues \<times> conv_ctx \<Rightarrow>
   (convert_error + unit) \<times> ir_message list \<times> call_queues \<times> conv_ctx" where
  "gem_parse_contents js [] s = (Inr (), s)"
| "gem_parse_contents js (c # cs) s =
     (case gem_parse_content js c s of
        (Inl e, s') \<Rightarrow> (Inl e, s') | (Inr _, s') \<Rightarrow> gem_parse_contents js cs s')"

definition gem_system_messages :: "json \<Rightarrow> conv_ctx \<Rightarrow> ir_message list \<times> conv_ctx" where
  "gem_system_messages v ctx =
     (case jget ''systemInstruction'' v of
        None \<Rightarrow> ([], ctx)
      | Some si \<Rightarrow>
          (let (t, ctx') =
             (case jget ''parts'' si of
                Some p \<Rightarrow> collect_system_text p ctx | None \<Rightarrow> (str_or_empty (jidx si ''text''), ctx))
           in (if t = [] then []
               else [default_message\<lparr>msg_role := RoleSystem, msg_content := Some (ContentText t)\<rparr>], ctx')))"

definition gem_messages ::
  "json_text \<Rightarrow> json \<Rightarrow> conv_ctx \<Rightarrow> (convert_error + ir_message list) \<times> conv_ctx" where
  "gem_messages js v ctx =
     (let (sys, ctx1) = gem_system_messages v ctx
      in case jget ''contents'' v of
           None \<Rightarrow> (Inr sys, ctx1)
         | Some contents \<Rightarrow>
             (case as_array contents of
                None \<Rightarrow> (Inl (ParseError ''contents is not an array''), ctx1)
              | Some arr \<Rightarrow>
                  (case gem_parse_contents js arr (sys, (\<lambda>_. []), ctx1) of
                     (Inl e, _, _, ctx2) \<Rightarrow> (Inl e, ctx2) | (Inr _, msgs, _, ctx2) \<Rightarrow> (Inr msgs, ctx2))))"

definition gem_config_opt :: "json option \<Rightarrow> ir_request \<Rightarrow> conv_ctx \<Rightarrow> ir_request \<times> conv_ctx" where
  "gem_config_opt gc req ctx =
     (case gc of None \<Rightarrow> (req, ctx) | Some gc \<Rightarrow> gem_generation_config gc req ctx)"

definition gem_tools_opt ::
  "json option \<Rightarrow> conv_ctx \<Rightarrow> (convert_error + ir_tool list) \<times> conv_ctx" where
  "gem_tools_opt tools ctx =
     (case tools of None \<Rightarrow> (Inr [], ctx) | Some tools \<Rightarrow> gem_parse_tools tools ctx)"

definition gem_request_to_ir ::
  "json_text \<Rightarrow> json \<Rightarrow> conv_ctx \<Rightarrow> (convert_error + ir_request) \<times> conv_ctx" where
  "gem_request_to_ir js v ctx =
     (case as_object v of
        None \<Rightarrow> (Inl (ParseError ''request body is not an object''), ctx)
      | Some obj \<Rightarrow>
         (case gem_messages js v ctx of
            (Inl e, ctx1) \<Rightarrow> (Inl e, ctx1)
          | (Inr msgs, ctx1) \<Rightarrow>
             (let (req1, ctx2) =
                    gem_config_opt (jget ''generationConfig'' v) (default_request\<lparr>req_messages := msgs\<rparr>) ctx1
              in case gem_tools_opt (jget ''tools'' v) ctx2 of
                   (Inl e, ctx3) \<Rightarrow> (Inl e, ctx3)
                 | (Inr tools, ctx3) \<Rightarrow>
                    (Inr (req1
                       \<lparr>req_tools := tools,
                        req_extra :=
                          obj_collect (\<lambda>k. k \<notin> set gem_known_request_fields) obj
                            (obj_insert_opt ''safetySettings'' (jget ''safetySettings'' v) [])\<rparr>), ctx3))))"

section \<open>Requests: IR to JSON\<close>

definition gem_tool_to_json :: "ir_tool \<Rightarrow> json" where
  "gem_tool_to_json t =
     JObj
       (obj_insert ''parameters'' (tool_parameters t)
         (obj_insert_opt ''description'' (map_option JStr (tool_description t))
           (obj_insert ''name'' (JStr (tool_name t)) [])))"

fun gem_part_to_json :: "ir_part \<Rightarrow> conv_ctx \<Rightarrow> json option \<times> conv_ctx" where
  "gem_part_to_json (PartText t) ctx = (Some (json_obj [(''text'', JStr t)]), ctx)"
| "gem_part_to_json (PartImageInline media data) ctx =
     (Some (json_obj [(''inlineData'',
        json_obj [(''mimeType'', JStr media), (''data'', JStr data)])]), ctx)"
| "gem_part_to_json (PartImageUrl url) ctx =
     (Some (json_obj [(''fileData'', json_obj [(''fileUri'', JStr url)])]),
      degrade ''image_url'' ''Gemini needs inline data; a URL has to be fetched by the caller'' ctx)"
| "gem_part_to_json (PartFile name url data) ctx =
     (Some (json_obj [(''fileData'',
        JObj (obj_insert_opt ''displayName'' (if name = [] then None else Some (JStr name))
          (obj_insert_opt ''data'' (map_option JStr data)
            (obj_insert_opt ''fileUri'' (map_option JStr url) []))))]), ctx)"
| "gem_part_to_json (PartInputAudio data format) ctx =
     (None, degrade ''input_audio'' ''no audio in Gemini'' ctx)"

text \<open>The derived serialisation of parts; the entries are in the order of the declaration.\<close>

fun ser_part :: "ir_part \<Rightarrow> json" where
  "ser_part (PartText t) = JObj [(''type'', JStr ''text''), (''text'', JStr t)]"
| "ser_part (PartImageUrl url) = JObj [(''type'', JStr ''image_url''), (''url'', JStr url)]"
| "ser_part (PartImageInline media data) =
     JObj [(''type'', JStr ''image_inline''), (''media_type'', JStr media), (''data'', JStr data)]"
| "ser_part (PartInputAudio data format) =
     JObj [(''type'', JStr ''input_audio''), (''data'', JStr data), (''format'', JStr format)]"
| "ser_part (PartFile name url data) =
     JObj ([(''type'', JStr ''file''), (''name'', JStr name)] @
           (case url of None \<Rightarrow> [] | Some u \<Rightarrow> [(''url'', JStr u)]) @
           (case data of None \<Rightarrow> [] | Some d \<Rightarrow> [(''data'', JStr d)]))"

definition response_content_to_value ::
  "json_text \<Rightarrow> ir_content option \<Rightarrow> conv_ctx \<Rightarrow> json \<times> conv_ctx" where
  "response_content_to_value js content ctx =
     (let (s, ctx1) =
        (case content of
           Some (ContentText s) \<Rightarrow> (s, ctx)
         | Some (ContentParts ps) \<Rightarrow>
             (to_text js (JArr (map ser_part ps)),
              degrade ''tool_response_content'' ''response is not plain text, serialised'' ctx)
         | None \<Rightarrow> ([], ctx))
      in if trim s = [] then (JNull, ctx1)
         else (case from_text js s of
                 Inr v \<Rightarrow> (v, ctx1)
               | Inl _ \<Rightarrow>
                   (JStr s, degrade ''tool_response_json'' ''response is not JSON, carried as a string'' ctx1)))"

definition content_to_gem_parts :: "ir_content option \<Rightarrow> conv_ctx \<Rightarrow> json list \<times> conv_ctx" where
  "content_to_gem_parts content ctx =
     (case content of
        None \<Rightarrow> ([], ctx)
      | Some (ContentText s) \<Rightarrow> (if s = [] then [] else [json_obj [(''text'', JStr s)]], ctx)
      | Some (ContentParts ps) \<Rightarrow> filter_map_ctx gem_part_to_json ps ctx)"

definition thought_part :: "string \<Rightarrow> json" where
  "thought_part rc = json_obj [(''text'', JStr rc), (''thought'', JBool True)]"

definition function_call_part :: "string \<Rightarrow> json \<Rightarrow> json" where
  "function_call_part name args =
     json_obj [(''functionCall'', json_obj [(''name'', JStr name), (''args'', args)])]"

definition gem_call_to_json :: "json_text \<Rightarrow> ir_tool_call \<Rightarrow> conv_ctx \<Rightarrow> json \<times> conv_ctx" where
  "gem_call_to_json js tc ctx =
     (let (args, ctx') = args_string_to_value js (tc_arguments tc) ''tool_call.arguments'' ctx
      in (function_call_part (tc_name tc) args, ctx'))"

definition tool_result_part :: "json_text \<Rightarrow> ir_message \<Rightarrow> conv_ctx \<Rightarrow> json \<times> conv_ctx" where
  "tool_result_part js m ctx =
     (let name = unwrap_or [] (or_else (msg_name m) (msg_tool_call_id m));
          ctx1 = (if msg_name m = None
                  then degrade ''tool_response_name'' ''no function name, tool_call_id used instead'' ctx else ctx);
          (response, ctx2) = response_content_to_value js (msg_content m) ctx1
      in (json_obj [(''functionResponse'', json_obj [(''name'', JStr name), (''response'', response)])], ctx2))"

definition gem_message_to_content ::
  "json_text \<Rightarrow> ir_message \<Rightarrow> conv_ctx \<Rightarrow> json option \<times> conv_ctx" where
  "gem_message_to_content js m ctx =
     (if msg_role m = RoleSystem then (None, ctx)
      else
        (let (parts, ctx') =
           (if msg_role m = RoleTool then (let (p, c) = tool_result_part js m ctx in ([p], c))
            else
              (let (ps, ctx1) = content_to_gem_parts (msg_content m) ctx;
                   think = (case msg_reasoning_content m of None \<Rightarrow> [] | Some rc \<Rightarrow> [thought_part rc]);
                   (calls, ctx2) = map_ctx (gem_call_to_json js) (msg_tool_calls m) ctx1
               in (ps @ think @ calls, ctx2)))
         in (if parts = [] then None
             else Some (json_obj [(''role'', JStr (gem_role_to_str (msg_role m))), (''parts'', JArr parts)]),
             ctx')))"

fun system_part_to_gem :: "ir_part \<Rightarrow> conv_ctx \<Rightarrow> json option \<times> conv_ctx" where
  "system_part_to_gem (PartText t) ctx = (if t = [] then None else Some (json_obj [(''text'', JStr t)]), ctx)"
| "system_part_to_gem _ ctx =
     (None, degrade ''systemInstruction.part'' ''part without text in the system prompt, ignored'' ctx)"

definition system_msg_to_parts :: "ir_message \<Rightarrow> conv_ctx \<Rightarrow> json list \<times> conv_ctx" where
  "system_msg_to_parts m ctx =
     (case msg_content m of
        Some (ContentText s) \<Rightarrow> (if s = [] then [] else [json_obj [(''text'', JStr s)]], ctx)
      | Some (ContentParts ps) \<Rightarrow> filter_map_ctx system_part_to_gem ps ctx
      | None \<Rightarrow> ([], ctx))"

definition gem_format_fields :: "json \<Rightarrow> json option \<times> json option" where
  "gem_format_fields rf =
     (let mime = Some (JStr ''application/json'')
      in if as_str (jidx rf ''type'') = Some ''json_object'' then (mime, None)
         else if as_str (jidx rf ''type'') = Some ''json_schema'' then
           (mime, map_option (\<lambda>s. unwrap_or s (jget ''schema'' s)) (jget ''json_schema'' rf))
         else (None, None))"

definition gem_config_json :: "ir_request \<Rightarrow> jmap" where
  "gem_config_json req =
     (let (mime, schema) = (case req_response_format req of
                              None \<Rightarrow> (None, None) | Some rf \<Rightarrow> gem_format_fields rf)
      in obj_insert_fields
           [(''maxOutputTokens'', map_option json_u64 (req_max_tokens req)),
            (''temperature'', map_option json_f64 (req_temperature req)),
            (''topP'', map_option json_f64 (req_top_p req)),
            (''topK'', map_option json_u32 (ext_top_k (req_ext req))),
            (''stopSequences'', map_option (\<lambda>ss. JArr (map JStr ss)) (req_stop req)),
            (''responseMimeType'', mime), (''responseSchema'', schema)] [])"

definition gem_degrade_request :: "ir_request \<Rightarrow> conv_ctx \<Rightarrow> conv_ctx" where
  "gem_degrade_request req ctx =
     (let note = (\<lambda>b field ctx. if b then degrade field (''no '' @ field @ '' in Gemini, ignored'') ctx else ctx)
      in fold (\<lambda>k. degrade k ''no such field in Gemini'') (obj_keys (ext_extra (req_ext req)))
           (note (req_stream req) ''stream''
             (note (req_user req \<noteq> None) ''user''
               (note (req_n req \<noteq> None) ''n''
                 (note (req_seed req \<noteq> None) ''seed''
                   (note (req_tool_choice req \<noteq> None) ''tool_choice'' ctx))))))"

definition gem_request_from_ir ::
  "json_text \<Rightarrow> ir_request \<Rightarrow> conv_ctx \<Rightarrow> (convert_error + json) \<times> conv_ctx" where
  "gem_request_from_ir js req ctx =
     (let (sys, ctx1) =
            map_ctx system_msg_to_parts (filter (\<lambda>m. msg_role m = RoleSystem) (req_messages req))
              (gem_degrade_request req ctx);
          (contents, ctx2) =
            filter_map_ctx (gem_message_to_content js)
              (filter (\<lambda>m. msg_role m \<noteq> RoleSystem) (req_messages req)) ctx1;
          sysparts = concat sys; gc = gem_config_json req
      in (Inr (JObj
            (obj_insert_fields
              [(''systemInstruction'',
                 if sysparts = [] then None else Some (json_obj [(''parts'', JArr sysparts)])),
               (''contents'', if contents = [] then None else Some (JArr contents)),
               (''generationConfig'', if gc = [] then None else Some (JObj gc)),
               (''tools'', if req_tools req = [] then None
                  else Some (JArr [json_obj [(''functionDeclarations'',
                               JArr (map gem_tool_to_json (req_tools req)))]]))]
              (obj_remove ''model'' (req_extra req)))), ctx2))"

section \<open>Usage\<close>

definition gem_usage_fields :: "string list" where
  "gem_usage_fields =
     [''promptTokenCount'', ''candidatesTokenCount'', ''cachedContentTokenCount'', ''totalTokenCount'',
      ''thoughtsTokenCount'']"

definition parse_usage_metadata :: "json \<Rightarrow> ir_usage" where
  "parse_usage_metadata u =
     (let thoughts = unwrap_or 0 (as_u64 (jidx u ''thoughtsTokenCount''));
          cached = as_u64 (jidx u ''cachedContentTokenCount'');
          extra = (if 0 < thoughts
                   then obj_insert ''reasoning_tokens'' (json_u64 thoughts)
                          (obj_insert ''thoughtsTokenCount'' (json_u64 thoughts) []) else [])
      in \<lparr>us_prompt_tokens =
            saturating_sub (unwrap_or 0 (as_u64 (jidx u ''promptTokenCount''))) (unwrap_or 0 cached),
          us_completion_tokens =
            saturating_add (unwrap_or 0 (as_u64 (jidx u ''candidatesTokenCount''))) thoughts,
          us_cache_read_tokens = cached,
          us_cache_write_tokens = None,
          us_total_tokens = as_u64 (jidx u ''totalTokenCount''),
          us_extra =
            (case as_object u of
               None \<Rightarrow> extra
             | Some m \<Rightarrow> obj_collect_missing (\<lambda>k. k \<notin> set gem_usage_fields) m extra)\<rparr>)"

definition usage_metadata_to_json :: "ir_usage \<Rightarrow> conv_ctx \<Rightarrow> json \<times> conv_ctx" where
  "usage_metadata_to_json u ctx =
     (let reasoning = Option.bind (obj_get ''reasoning_tokens'' (us_extra u)) as_u64
      in (JObj (obj_insert_fields
            [(''promptTokenCount'', Some (json_u64
                (saturating_add (us_prompt_tokens u) (unwrap_or 0 (us_cache_read_tokens u))))),
             (''candidatesTokenCount'', Some (json_u64
                (saturating_sub (us_completion_tokens u) (unwrap_or 0 reasoning)))),
             (''thoughtsTokenCount'', map_option json_u64 reasoning),
             (''totalTokenCount'', map_option json_u64 (us_total_tokens u)),
             (''cachedContentTokenCount'', map_option json_u64 (us_cache_read_tokens u))]
            (obj_remove ''reasoning_tokens'' (us_extra u))),
          if us_cache_write_tokens u \<noteq> None
          then degrade ''usage.cache_write_tokens'' ''no cache_write_tokens in Gemini'' ctx else ctx))"

section \<open>Responses\<close>

definition gem_answer_part_step ::
  "json_text \<Rightarrow> json \<Rightarrow> gem_parts \<times> conv_ctx \<Rightarrow> gem_parts \<times> conv_ctx" where
  "gem_answer_part_step js p s =
     (let (acc, ctx) = s
      in case as_str (jidx p ''text'') of
           Some t \<Rightarrow> (gem_text_part p t acc, ctx)
         | None \<Rightarrow>
         (case jget ''inlineData'' p of
           Some d \<Rightarrow> gem_inline_part ''response.content.inlineData'' d acc ctx
         | None \<Rightarrow>
         (case jget ''functionCall'' p of
           Some fc \<Rightarrow> (gem_call_part js fc acc, ctx)
         | None \<Rightarrow> (acc, degrade ''response.content.part'' ''unknown part, dropped'' ctx))))"

definition gem_parse_response_content :: "json_text \<Rightarrow> json \<Rightarrow> conv_ctx \<Rightarrow> ir_message \<times> conv_ctx" where
  "gem_parse_response_content js content ctx =
     (let (acc, ctx') =
            fold (gem_answer_part_step js) (unwrap_or [] (Option.bind (jget ''parts'' content) as_array))
              (gem_parts_new, ctx)
      in (default_message
            \<lparr>msg_role := RoleAssistant, msg_content := gem_content_of (gp_texts acc) (gp_media acc),
             msg_tool_calls := gp_calls acc, msg_reasoning_content := gp_reasoning acc\<rparr>, ctx'))"

definition gem_parse_candidate :: "json_text \<Rightarrow> nat \<times> json \<Rightarrow> conv_ctx \<Rightarrow> ir_choice \<times> conv_ctx" where
  "gem_parse_candidate js ic ctx =
     (let (i, c) = ic;
          (msg, ctx') =
            (case jget ''content'' c of
               Some content \<Rightarrow> gem_parse_response_content js content ctx
             | None \<Rightarrow> (default_message\<lparr>msg_role := RoleAssistant\<rparr>, ctx))
      in (\<lparr>cho_index = unwrap_or (of_nat i) (Option.bind (as_u64 (jidx c ''index'')) u32_try_from),
           cho_message = msg,
           cho_finish_reason = map_option normalize_finish_reason (as_str (jidx c ''finishReason''))\<rparr>, ctx'))"

definition gem_response_to_ir ::
  "json_text \<Rightarrow> json \<Rightarrow> conv_ctx \<Rightarrow> (convert_error + ir_response) \<times> conv_ctx" where
  "gem_response_to_ir js v ctx =
     (case as_object v of
        None \<Rightarrow> (Inl (ParseError ''response body is not an object''), ctx)
      | Some obj \<Rightarrow>
         (case (case jget ''candidates'' v of None \<Rightarrow> Some [] | Some cs \<Rightarrow> as_array cs) of
            None \<Rightarrow> (Inl (ParseError ''candidates is not an array''), ctx)
          | Some arr \<Rightarrow>
             (let (choices, ctx') = map_ctx (gem_parse_candidate js) (enumerate 0 arr) ctx;
                  reason = (case arr of [] \<Rightarrow> None | c # _ \<Rightarrow> as_str (jidx c ''finishReason''))
              in (Inr (default_response
                    \<lparr>rsp_choices := choices,
                     rsp_usage := map_option parse_usage_metadata (jget ''usageMetadata'' v),
                     rsp_extra :=
                       obj_collect (\<lambda>k. k \<notin> {''candidates'', ''usageMetadata''}) obj
                         (obj_insert_opt ''gemini_finish_reason'' (map_option JStr reason) [])\<rparr>), ctx'))))"

definition to_ascii_uppercase :: "string \<Rightarrow> string" where
  "to_ascii_uppercase s =
     map (\<lambda>c. let n = (of_char c :: nat) in if 97 \<le> n \<and> n \<le> 122 then char_of (n - 32) else c) s"

definition gem_reverse_finish_reason :: "string \<Rightarrow> string" where
  "gem_reverse_finish_reason fr =
     (if fr = ''stop'' then ''STOP'' else if fr = ''length'' then ''MAX_TOKENS''
      else if fr = ''tool_calls'' then ''STOP'' else if fr = ''content_filter'' then ''SAFETY''
      else to_ascii_uppercase fr)"

definition message_to_response_parts ::
  "json_text \<Rightarrow> ir_message \<Rightarrow> conv_ctx \<Rightarrow> json list \<times> conv_ctx" where
  "message_to_response_parts js m ctx =
     (let think = (case msg_reasoning_content m of None \<Rightarrow> [] | Some rc \<Rightarrow> [thought_part rc]);
          (ps, ctx1) = content_to_gem_parts (msg_content m) ctx;
          (calls, ctx2) = map_ctx (gem_call_to_json js) (msg_tool_calls m) ctx1
      in (think @ ps @ calls, ctx2))"

definition model_content :: "json list \<Rightarrow> json" where
  "model_content parts =
     JObj (obj_insert_opt ''parts'' (if parts = [] then None else Some (JArr parts))
       (obj_insert ''role'' (JStr ''model'') []))"

definition candidate_json :: "json list \<Rightarrow> json \<Rightarrow> string option \<Rightarrow> json" where
  "candidate_json parts index fr =
     JObj (obj_insert_opt ''finishReason'' (map_option (\<lambda>r. JStr (gem_reverse_finish_reason r)) fr)
       (obj_insert ''index'' index (obj_insert ''content'' (model_content parts) [])))"

definition gem_choice_to_json :: "json_text \<Rightarrow> ir_choice \<Rightarrow> conv_ctx \<Rightarrow> json \<times> conv_ctx" where
  "gem_choice_to_json js ch ctx =
     (let (parts, ctx') = message_to_response_parts js (cho_message ch) ctx
      in (candidate_json parts (json_u32 (cho_index ch)) (cho_finish_reason ch), ctx'))"

definition gem_usage_opt :: "ir_usage option \<Rightarrow> conv_ctx \<Rightarrow> json option \<times> conv_ctx" where
  "gem_usage_opt u ctx =
     (case u of
        None \<Rightarrow> (None, ctx)
      | Some us \<Rightarrow> (let (j, ctx') = usage_metadata_to_json us ctx in (Some j, ctx')))"

definition gem_response_from_ir ::
  "json_text \<Rightarrow> ir_response \<Rightarrow> conv_ctx \<Rightarrow> (convert_error + json) \<times> conv_ctx" where
  "gem_response_from_ir js resp ctx =
     (let (candidates, ctx1) = map_ctx (gem_choice_to_json js) (rsp_choices resp) ctx;
          (usage, ctx2) = gem_usage_opt (rsp_usage resp) ctx1
      in (Inr (JObj (obj_insert_fields
            [(''candidates'', Some (JArr candidates)), (''usageMetadata'', usage)]
            (obj_remove ''gemini_finish_reason'' (rsp_extra resp)))), ctx2))"

end
