(* ===== verification/GeminiPairing.thy ===== *)
theory GeminiPairing
  imports Gemini "HOL-Library.Sublist"
begin

text \<open>
  Function calls without ids: \<open>request_to_ir\<close> makes ids up and pairs the results with the calls of the
  same name, first come first served. The ids are distinct within a content, but not across.
\<close>

section \<open>Made up ids\<close>

lemma dec_digits_digits: "c \<in> set (dec_digits n) \<Longrightarrow> 48 \<le> (of_char c :: nat) \<and> (of_char c :: nat) \<le> 57"
proof (induction n arbitrary: c rule: dec_digits.induct)
  case (1 n)
  have "of_char (char_of (48 + n mod 10) :: char) = 48 + n mod 10" by (simp add: of_char_of)
  with 1 show ?case
    by (cases "n < 10") (auto simp: dec_digits.simps [of n] of_char_of)
qed

fun dec_value :: "string \<Rightarrow> nat" where
  "dec_value [] = 0"
| "dec_value (c # cs) = (of_char c - 48) * 10 ^ length cs + dec_value cs"

lemma dec_value_append: "dec_value (s @ [c]) = dec_value s * 10 + (of_char c - 48)"
  by (induction s) (auto simp: algebra_simps)

lemma dec_value_digits [simp]: "dec_value (dec_digits n) = n"
proof (induction n rule: dec_digits.induct)
  case (1 n)
  then show ?case
    by (cases "n < 10") (auto simp: dec_digits.simps [of n] dec_value_append of_char_of)
qed

lemma made_up_id_seq: "made_up_id a m = made_up_id b n \<Longrightarrow> m = n"
proof -
  assume eq: "made_up_id a m = made_up_id b n"
  have tail: "takeWhile (\<lambda>c. c \<noteq> CHR ''_'') (rev (made_up_id x k)) = rev (dec_digits (unat k))" for x k
  proof -
    have "c \<noteq> CHR ''_''" if "c \<in> set (dec_digits (unat k))" for c
      using dec_digits_digits [OF that] by auto
    then show ?thesis by (simp add: made_up_id_def takeWhile_tail)
  qed
  from eq tail [of a m] tail [of b n] have "dec_digits (unat m) = dec_digits (unat n)" by simp
  from arg_cong [OF this, of dec_value] show "m = n" by (simp add: word_unat_eq_iff)
qed

lemma made_up_id_other: "made_up_id f n \<noteq> f"
  by (simp add: made_up_id_def)

section \<open>Ids within a content\<close>

lemma gem_parts_keep [simp]:
  "gp_calls (gem_text_part p t acc) = gp_calls acc" "gp_seq (gem_text_part p t acc) = gp_seq acc"
  "gp_calls (fst (gem_inline_part field d acc ctx)) = gp_calls acc"
  "gp_seq (fst (gem_inline_part field d acc ctx)) = gp_seq acc"
  "gp_calls (fst (gem_file_part d acc ctx)) = gp_calls acc" "gp_seq (fst (gem_file_part d acc ctx)) = gp_seq acc"
  by (simp_all add: gem_text_part_def gem_inline_part_def gem_file_part_def Let_def)

definition part_call :: "json \<Rightarrow> string option" where
  "part_call p =
     (if is_object p \<and> as_str (jidx p ''text'') = None \<and> jget ''inlineData'' p = None \<and> jget ''fileData'' p = None
      then map_option (\<lambda>fc. str_or_empty (jidx fc ''name'')) (jget ''functionCall'' p) else None)"

lemma gem_part_calls:
  assumes "gem_part_step js p (acc, ids, ctx) = (acc', ids', ctx')"
  shows "part_call p = None \<Longrightarrow> gp_calls acc' = gp_calls acc \<and> gp_seq acc' = gp_seq acc \<and> ids' = ids"
    "part_call p = Some name \<Longrightarrow>
       (\<exists>args. gp_calls acc' = gp_calls acc @ [\<lparr>tc_id = made_up_id name (gp_seq acc), tc_name = name, tc_arguments = args\<rparr>]) \<and>
       gp_seq acc' = gp_seq acc + 1 \<and> ids' = ids(name := ids name @ [made_up_id name (gp_seq acc)])"
proof -
  have acc': "acc' = fst (gem_part_step js p (acc, ids, ctx))"
    and ids': "ids' = fst (snd (gem_part_step js p (acc, ids, ctx)))"
    using assms by simp_all
  show "part_call p = None \<Longrightarrow> gp_calls acc' = gp_calls acc \<and> gp_seq acc' = gp_seq acc \<and> ids' = ids"
    unfolding acc' ids'
    by (auto simp: part_call_def gem_part_step_def split_def Let_def split: if_splits option.splits)
  show "part_call p = Some name \<Longrightarrow>
       (\<exists>args. gp_calls acc' = gp_calls acc @ [\<lparr>tc_id = made_up_id name (gp_seq acc), tc_name = name, tc_arguments = args\<rparr>]) \<and>
       gp_seq acc' = gp_seq acc + 1 \<and> ids' = ids(name := ids name @ [made_up_id name (gp_seq acc)])"
    unfolding acc' ids'
    by (auto simp: part_call_def gem_part_step_def gem_call_part_def Let_def split: if_splits)
qed

text \<open>The calls of a content are numbered, and their ids are appended to the queues.\<close>

definition numbered :: "gem_parts \<Rightarrow> bool" where
  "numbered acc \<longleftrightarrow>
     gp_seq acc = of_nat (length (gp_calls acc)) \<and>
     (\<forall>k < length (gp_calls acc). tc_id (gp_calls acc ! k) = made_up_id (tc_name (gp_calls acc ! k)) (of_nat k))"

definition ids_of :: "string \<Rightarrow> ir_tool_call list \<Rightarrow> string list" where
  "ids_of f tcs = map tc_id (filter (\<lambda>tc. tc_name tc = f) tcs)"

lemma ids_of_simps [simp]:
  "ids_of f [] = []" "ids_of f (tc # tcs) = (if tc_name tc = f then [tc_id tc] else []) @ ids_of f tcs"
  "ids_of f (tcs @ tcs') = ids_of f tcs @ ids_of f tcs'"
  by (simp_all add: ids_of_def)

lemma gem_parts_numbered:
  "numbered acc \<Longrightarrow> fold (gem_part_step js) ps (acc, ids, ctx) = (acc', ids', ctx') \<Longrightarrow>
   numbered acc' \<and>
   (\<exists>new. gp_calls acc' = gp_calls acc @ new \<and> length new \<le> length ps \<and>
      (\<forall>f. ids' f = ids f @ ids_of f new))"
proof (induction ps arbitrary: acc ids ctx)
  case (Cons p ps)
  obtain acc1 ids1 ctx1 where one: "gem_part_step js p (acc, ids, ctx) = (acc1, ids1, ctx1)"
    by (metis prod_cases3)
  have rest: "fold (gem_part_step js) ps (acc1, ids1, ctx1) = (acc', ids', ctx')" using Cons.prems(2) one by simp
  note calls = gem_part_calls [OF one]
  show ?case
  proof (cases "part_call p")
    case None
    note 1 = calls(1) [OF None]
    then have "numbered acc1" using Cons.prems(1) by (simp add: numbered_def)
    from Cons.IH [OF this rest] show ?thesis by (auto simp: 1 intro: le_SucI)
  next
    case (Some name)
    then obtain args where 2: "gp_calls acc1 = gp_calls acc @
        [\<lparr>tc_id = made_up_id name (gp_seq acc), tc_name = name, tc_arguments = args\<rparr>]"
      "gp_seq acc1 = gp_seq acc + 1" "ids1 = ids(name := ids name @ [made_up_id name (gp_seq acc)])"
      using calls(2) by blast
    then have "numbered acc1" using Cons.prems(1) by (auto simp: numbered_def nth_append less_Suc_eq)
    from Cons.IH [OF this rest] obtain new where new: "numbered acc'" "gp_calls acc' = gp_calls acc1 @ new"
      "length new \<le> length ps" "\<forall>f. ids' f = ids1 f @ ids_of f new" by blast
    show ?thesis
      using new by (intro conjI exI [of _ "\<lparr>tc_id = made_up_id name (gp_seq acc), tc_name = name,
        tc_arguments = args\<rparr> # new"]) (auto simp: 2)
  qed
qed simp

lemma numbered_distinct:
  assumes "numbered acc" "length (gp_calls acc) < 2 ^ 32"
  shows "distinct (map tc_id (gp_calls acc))"
proof (rule distinct_conv_nth [THEN iffD2], intro allI impI)
  fix i j assume "i < length (map tc_id (gp_calls acc))" "j < length (map tc_id (gp_calls acc))" "i \<noteq> j"
  then have less: "i < length (gp_calls acc)" "j < length (gp_calls acc)" by simp_all
  show "map tc_id (gp_calls acc) ! i \<noteq> map tc_id (gp_calls acc) ! j"
  proof
    assume "map tc_id (gp_calls acc) ! i = map tc_id (gp_calls acc) ! j"
    with assms(1) less have "(of_nat i :: u32) = of_nat j"
      by (auto simp: numbered_def intro: made_up_id_seq)
    from arg_cong [OF this, of unat] less assms(2) \<open>i \<noteq> j\<close> show False
      by (simp add: unat_of_nat_small)
  qed
qed

section \<open>Pairing\<close>

text \<open>The ids of the calls of a function, and the made up ids that its results carry.\<close>

definition call_ids :: "string \<Rightarrow> ir_message list \<Rightarrow> string list" where
  "call_ids f msgs = ids_of f (concat (map msg_tool_calls msgs))"

definition result_ids :: "string \<Rightarrow> ir_message list \<Rightarrow> string list" where
  "result_ids f msgs =
     List.map_filter (\<lambda>m. if msg_role m = RoleTool \<and> msg_name m = Some f \<and> msg_tool_call_id m \<noteq> Some f
       then msg_tool_call_id m else None) msgs"

lemma pair_ids_simps [simp]:
  "call_ids f [] = []" "call_ids f (msgs @ msgs') = call_ids f msgs @ call_ids f msgs'"
  "result_ids f [] = []" "result_ids f (msgs @ msgs') = result_ids f msgs @ result_ids f msgs'"
  by (simp_all add: call_ids_def result_ids_def List.map_filter_def)

text \<open>What was answered and what still waits are, name by name, the calls in their order.\<close>

definition paired :: "ir_message list \<Rightarrow> call_queues \<Rightarrow> bool" where
  "paired msgs ids \<longleftrightarrow> (\<forall>f. result_ids f msgs @ ids f = call_ids f msgs \<and> f \<notin> set (ids f))"

lemma gem_response_paired:
  assumes "paired msgs ids" "gem_response_step r (msgs, ids, ctx) = (msgs', ids', ctx')"
  shows "paired msgs' ids'"
proof -
  obtain name response where r: "r = (name, response)" by force
  define m where "m = default_message\<lparr>msg_role := RoleTool, msg_content := Some (ContentText response),
     msg_name := Some name, msg_tool_call_id := Some (case ids name of [] \<Rightarrow> name | i # _ \<Rightarrow> i)\<rparr>"
  have out: "msgs' = msgs @ [m]" "ids' = ids(name := tl (ids name))"
    using assms(2) by (simp_all add: gem_response_step_def r m_def)
  have fresh: "name \<notin> set (ids name)" using assms(1) by (simp add: paired_def)
  have calls: "call_ids f [m] = []" for f by (simp add: call_ids_def m_def default_message_def)
  have results: "result_ids f [m] = (if f = name \<and> ids name \<noteq> [] then [hd (ids name)] else [])" for f
    using fresh by (cases "ids name") (auto simp: result_ids_def m_def List.map_filter_def)
  have inv: "result_ids f msgs @ ids f = call_ids f msgs" "f \<notin> set (ids f)" for f
    using assms(1) by (simp_all add: paired_def)
  show ?thesis
    unfolding paired_def
  proof (intro allI conjI)
    fix f
    show "result_ids f msgs' @ ids' f = call_ids f msgs'"
      using inv(1) [of f] by (cases "ids name"; cases "f = name") (simp_all add: out calls results)
    show "f \<notin> set (ids' f)"
      using inv(2) [of f] by (cases "ids name"; cases "f = name") (simp_all add: out)
  qed
qed

lemma gem_responses_paired:
  "paired msgs ids \<Longrightarrow> fold gem_response_step rs (msgs, ids, ctx) = (msgs', ids', ctx') \<Longrightarrow> paired msgs' ids'"
proof (induction rs arbitrary: msgs ids ctx)
  case (Cons r rs)
  obtain msgs1 ids1 ctx1 where one: "gem_response_step r (msgs, ids, ctx) = (msgs1, ids1, ctx1)"
    by (metis prod_cases3)
  from Cons.IH [OF gem_response_paired [OF Cons.prems(1) one]] Cons.prems(2) one show ?case by simp
qed simp

lemma gem_content_paired:
  assumes pre: "paired msgs ids" and run: "gem_parse_content js c (msgs, ids, ctx) = (Inr u, msgs', ids', ctx')"
  shows "paired msgs' ids'"
proof -
  obtain role ctx1 where role: "gem_parse_role (as_str (jidx c ''role'')) ctx = (role, ctx1)" by force
  obtain acc ids1 ctx2 where parts: "fold (gem_part_step js) (unwrap_or [] (Option.bind (jget ''parts'' c) as_array))
      (gem_parts_new, ids, ctx1) = (acc, ids1, ctx2)" by (metis prod_cases3)
  define m where "m = default_message\<lparr>msg_role := role, msg_content := gem_content_of (gp_texts acc) (gp_media acc),
     msg_tool_calls := gp_calls acc, msg_reasoning_content := gp_reasoning acc\<rparr>"
  define msgs1 where "msgs1 = (if msg_content m \<noteq> None \<or> msg_tool_calls m \<noteq> [] \<or> msg_reasoning_content m \<noteq> None
     then msgs @ [m] else msgs)"
  have rest: "fold gem_response_step (gp_responses acc) (msgs1, ids1, ctx2) = (msgs', ids', ctx')"
  proof -
    have obj: "is_object c" using run by (auto simp: gem_parse_content_def split: if_splits)
    have "gem_parse_content js c (msgs, ids, ctx) =
        (Inr (), fold gem_response_step (gp_responses acc) (msgs1, ids1, ctx2))"
      unfolding gem_parse_content_def Let_def role parts prod.case m_def [symmetric] msgs1_def using obj by simp
    with run show ?thesis by simp
  qed
  have "numbered gem_parts_new" "gp_calls gem_parts_new = []" by (simp_all add: numbered_def gem_parts_new_def)
  with gem_parts_numbered [OF _ parts] have acc: "numbered acc" "\<forall>f. ids1 f = ids f @ ids_of f (gp_calls acc)"
    by auto
  have fresh: "f \<notin> set (ids_of f (gp_calls acc))" for f
  proof
    assume "f \<in> set (ids_of f (gp_calls acc))"
    then obtain k where "k < length (gp_calls acc)" "tc_id (gp_calls acc ! k) = f" "tc_name (gp_calls acc ! k) = f"
      by (auto simp: ids_of_def in_set_conv_nth)
    with acc(1) have "made_up_id f (of_nat k) = f" by (simp add: numbered_def)
    with made_up_id_other show False by blast
  qed
  have calls: "call_ids f msgs1 = call_ids f msgs @ ids_of f (gp_calls acc)" for f
    by (auto simp: msgs1_def call_ids_def m_def default_message_def)
  have "role \<noteq> RoleTool" using role by (auto simp: gem_parse_role_def split: option.splits if_splits)
  then have results: "result_ids f msgs1 = result_ids f msgs" for f
    by (auto simp: msgs1_def result_ids_def m_def default_message_def List.map_filter_def)
  have "paired msgs1 ids1" using pre fresh by (auto simp: paired_def calls results acc(2))
  from gem_responses_paired [OF this rest] show ?thesis .
qed

lemma gem_contents_paired:
  "paired msgs ids \<Longrightarrow> gem_parse_contents js cs (msgs, ids, ctx) = (Inr u, msgs', ids', ctx') \<Longrightarrow> paired msgs' ids'"
proof (induction cs arbitrary: msgs ids ctx)
  case (Cons c cs)
  obtain r msgs1 ids1 ctx1 where one: "gem_parse_content js c (msgs, ids, ctx) = (r, msgs1, ids1, ctx1)"
    by (metis prod_cases4)
  with Cons.prems(2) obtain w where r: "r = Inr w" by (cases r) auto
  from Cons.IH [OF gem_content_paired [OF Cons.prems(1) one [unfolded r]]] Cons.prems(2) one r show ?case by simp
qed simp

lemma gem_messages_paired:
  assumes "gem_messages js v ctx = (Inr msgs, ctx')"
  shows "\<exists>ids. paired msgs ids"
proof -
  obtain sys ctx1 where sys: "gem_system_messages v ctx = (sys, ctx1)" by force
  have "paired sys (\<lambda>_. [])"
    using sys by (auto simp: gem_system_messages_def paired_def result_ids_def call_ids_def List.map_filter_def
        default_message_def split: option.splits prod.splits if_splits)
  with assms sys show ?thesis
    by (auto simp: gem_messages_def split: option.splits sum.splits prod.splits dest: gem_contents_paired)
qed

lemma gem_config_messages: "req_messages (fst (gem_generation_config gc req ctx)) = req_messages req"
  by (simp add: gem_generation_config_def split_def Let_def)

lemma gem_request_messages:
  assumes "gem_request_to_ir js v ctx = (Inr req, ctx')"
  obtains msgs ctx1 where "gem_messages js v ctx = (Inr msgs, ctx1)" "req_messages req = msgs"
proof -
  obtain obj where obj: "as_object v = Some obj"
    using assms by (auto simp: gem_request_to_ir_def split: option.splits)
  obtain r ctx1 where r: "gem_messages js v ctx = (r, ctx1)" by force
  with obj assms obtain msgs where msgs: "r = Inr msgs" by (cases r) (auto simp: gem_request_to_ir_def)
  obtain req1 ctx2 where cfg: "gem_config_opt (jget ''generationConfig'' v) (default_request\<lparr>req_messages := msgs\<rparr>) ctx1 =
      (req1, ctx2)" by force
  obtain t ctx3 where t: "gem_tools_opt (jget ''tools'' v) ctx2 = (t, ctx3)" by force
  have "req_messages req1 = msgs"
    using arg_cong [OF cfg, of fst]
    by (auto simp: gem_config_opt_def gem_config_messages split: option.splits)
  moreover have "req_messages req = req_messages req1"
    using assms obj r msgs cfg t by (cases t) (auto simp: gem_request_to_ir_def)
  ultimately show thesis using that r msgs by simp
qed

section \<open>Properties\<close>


definition call_json :: "string \<Rightarrow> json" where
  "call_json name = function_call_part name JNull"

definition result_json :: "string \<Rightarrow> json" where
  "result_json name = json_obj [(''functionResponse'', json_obj [(''name'', JStr name), (''response'', JNull)])]"

text \<open>Two contents with a call each, and the result of the first.\<close>

definition sample_gem_request :: json where
  "sample_gem_request =
     json_obj [(''contents'', JArr
       [json_obj [(''role'', JStr ''model''), (''parts'', JArr [call_json ''f''])],
        json_obj [(''role'', JStr ''user''), (''parts'', JArr [result_json ''f''])],
        json_obj [(''role'', JStr ''model''), (''parts'', JArr [call_json ''f''])]])]"

lemma sample_gem_request_read:
  "\<exists>req. gem_request_to_ir js sample_gem_request [] = (Inr req, []) \<and>
    result_ids ''f'' (req_messages req) = [''f_0''] \<and> call_ids ''f'' (req_messages req) = [''f_0'', ''f_0'']"
proof -
  have "char_of (48 :: nat) = CHR ''0''" by (rule of_char_eq_iff [where ?'a = nat, THEN iffD1]) (simp add: of_char_of)
  then have d: "dec_digits 0 = ''0''" by (simp add: dec_digits.simps)
  show ?thesis
    by (simp add: sample_gem_request_def gem_request_to_ir_def gem_config_opt_def gem_tools_opt_def gem_messages_def gem_system_messages_def
        gem_parse_content_def gem_parse_role_def gem_part_step_def gem_call_part_def gem_response_step_def
        gem_content_of_def gem_parts_new_def call_json_def result_json_def function_call_part_def jidx_def
        args_to_string_def made_up_id_def d default_message_def default_request_def result_ids_def call_ids_def
        List.map_filter_def json_obj_def gem_known_request_fields_def obj_collect_def obj_insert_opt_def Let_def)
qed


text \<open>The ids of one content are distinct, but two contents that call the same function get the same id.\<close>

lemma gem_ids_repeat:
  "\<exists>req. gem_request_to_ir js sample_gem_request [] = (Inr req, []) \<and>
    \<not> distinct (map tc_id (concat (map msg_tool_calls (req_messages req))))"
proof -
  obtain req where "gem_request_to_ir js sample_gem_request [] = (Inr req, [])"
    "call_ids ''f'' (req_messages req) = [''f_0'', ''f_0'']"
    using sample_gem_request_read by blast
  moreover from this(2) have "\<not> distinct (map tc_id (concat (map msg_tool_calls (req_messages req))))"
    using distinct_map_filter [of tc_id "concat (map msg_tool_calls (req_messages req))" "\<lambda>tc. tc_name tc = ''f''"]
    unfolding call_ids_def ids_of_def by auto
  ultimately show ?thesis by blast
qed

end
