(* ===== verification/GeminiRoundtrip.thy ===== *)
theory GeminiRoundtrip
  imports GeminiPairing
begin

text \<open>
  What the Gemini adapter reads back of what it writes: usage, responses and requests. Calls have
  no ids on the wire, so a response comes back whole when its ids are the made up ones, and a
  request comes back with the same turns up to the ids.
\<close>

section \<open>Usage\<close>

text \<open>The thinking tokens are kept twice, under the name of Gemini and under that of the IR.\<close>

definition gem_thoughts_ok :: "ir_usage \<Rightarrow> bool" where
  "gem_thoughts_ok u \<longleftrightarrow>
     obj_get ''thoughtsTokenCount'' (us_extra u) = obj_get ''reasoning_tokens'' (us_extra u) \<and>
     (case obj_get ''reasoning_tokens'' (us_extra u) of
        None \<Rightarrow> True
      | Some v \<Rightarrow> (case as_u64 v of None \<Rightarrow> False | Some n \<Rightarrow> 0 < n \<and> n \<le> us_completion_tokens u))"

definition gem_usage_ok :: "ir_usage \<Rightarrow> bool" where
  "gem_usage_ok u \<longleftrightarrow>
     us_cache_write_tokens u = None \<and>
     unat (us_prompt_tokens u) + unat (unwrap_or 0 (us_cache_read_tokens u)) < 2 ^ 64 \<and>
     gem_thoughts_ok u \<and> obj_ok (us_extra u) \<and>
     list_all (\<lambda>k. k \<notin> set gem_usage_fields \<or> k = ''thoughtsTokenCount'') (obj_keys (us_extra u))"

lemma gem_as_u64: "as_u64 v = Some n \<longleftrightarrow> v = json_u64 n"
  by (cases v rule: as_u64.cases) (auto simp: json_u64_def)

lemma gem_usage_back:
  assumes ok: "gem_usage_ok u" and written: "usage_metadata_to_json u c = (v, c')"
  shows "parse_usage_metadata v = u" "c' = c"
proof -
  define E where "E = us_extra u"
  define cached where "cached = us_cache_read_tokens u"
  have E_ok: "obj_ok E" using ok by (simp add: gem_usage_ok_def E_def)
  have none: "obj_get k E = None" if "k \<in> set gem_usage_fields" "k \<noteq> ''thoughtsTokenCount''" for k
    using ok that by (auto simp: gem_usage_ok_def E_def obj_get_None list_all_iff)
  have thoughts_ok: "gem_thoughts_ok u" using ok by (simp add: gem_usage_ok_def)
  obtain reasoning where reasoning: "obj_get ''reasoning_tokens'' E = map_option json_u64 reasoning"
    and both: "obj_get ''thoughtsTokenCount'' E = map_option json_u64 reasoning"
    and small: "\<And>n. reasoning = Some n \<Longrightarrow> 0 < n \<and> n \<le> us_completion_tokens u"
  proof (cases "obj_get ''reasoning_tokens'' E")
    case None
    with thoughts_ok that [of None] show thesis by (simp add: gem_thoughts_ok_def E_def)
  next
    case (Some v)
    with thoughts_ok obtain n where "as_u64 v = Some n" "0 < n" "n \<le> us_completion_tokens u"
      by (auto simp: gem_thoughts_ok_def E_def split: option.splits)
    with Some thoughts_ok that [of "Some n"] show thesis
      by (simp add: gem_thoughts_ok_def E_def gem_as_u64)
  qed
  define fs where "fs =
     [(''promptTokenCount'', Some (json_u64 (saturating_add (us_prompt_tokens u) (unwrap_or 0 cached)))),
      (''candidatesTokenCount'', Some (json_u64 (saturating_sub (us_completion_tokens u) (unwrap_or 0 reasoning)))),
      (''thoughtsTokenCount'', map_option json_u64 reasoning),
      (''totalTokenCount'', map_option json_u64 (us_total_tokens u)),
      (''cachedContentTokenCount'', map_option json_u64 cached)]"
  define R where "R = obj_remove ''reasoning_tokens'' E"
  define W where "W = obj_insert_fields fs R"
  have num_back: "Option.bind (map_option json_u64 reasoning) as_u64 = reasoning" by (cases reasoning) simp_all
  have v: "v = JObj W" and "c' = c"
    using written ok
    by (simp_all add: usage_metadata_to_json_def E_def [symmetric] reasoning num_back fs_def W_def R_def cached_def
        gem_usage_ok_def)
  then show "c' = c" by simp
  have R_ok: "obj_ok R" unfolding R_def using E_ok by (rule obj_ok_remove)
  have W_ok: "obj_ok W" unfolding W_def using R_ok by (rule obj_ok_fields)
  have dist: "distinct (map fst fs)" by (simp add: fs_def)
  have R_get: "obj_get k R = (if k = ''reasoning_tokens'' then None else obj_get k E)" for k
    unfolding R_def using E_ok by (rule obj_get_remove)
  have W_get: "obj_get k W = (case map_of fs k of Some (Some x) \<Rightarrow> Some x | _ \<Rightarrow>
      if k = ''reasoning_tokens'' then None else obj_get k E)" for k
    unfolding W_def obj_get_fields [OF dist] R_get ..
  have g: "obj_get ''promptTokenCount'' W = Some (json_u64 (saturating_add (us_prompt_tokens u) (unwrap_or 0 cached)))"
    "obj_get ''candidatesTokenCount'' W = Some (json_u64 (saturating_sub (us_completion_tokens u) (unwrap_or 0 reasoning)))"
    "obj_get ''thoughtsTokenCount'' W = map_option json_u64 reasoning"
    "obj_get ''totalTokenCount'' W = map_option json_u64 (us_total_tokens u)"
    "obj_get ''cachedContentTokenCount'' W = map_option json_u64 cached"
    using none [of "''totalTokenCount''"] none [of "''cachedContentTokenCount''"]
    by (simp_all add: W_get fs_def both gem_usage_fields_def split: option.splits)
  have nums: "unwrap_or 0 (as_u64 (jidx v ''thoughtsTokenCount'')) = unwrap_or 0 reasoning"
    "as_u64 (jidx v ''cachedContentTokenCount'') = cached"
    "as_u64 (jidx v ''totalTokenCount'') = us_total_tokens u"
    by (cases reasoning; cases cached; cases "us_total_tokens u"; simp add: v g)+
  define X where "X = (if 0 < unwrap_or 0 reasoning
    then obj_insert ''reasoning_tokens'' (json_u64 (unwrap_or 0 reasoning))
           (obj_insert ''thoughtsTokenCount'' (json_u64 (unwrap_or 0 reasoning)) []) else [])"
  have X_get: "obj_get k X = (if k = ''reasoning_tokens'' \<or> k = ''thoughtsTokenCount'' then obj_get k E else None)" for k
    using small reasoning both by (cases reasoning) (auto simp: X_def obj_lookup)
  have collect: "obj_collect_missing (\<lambda>k. k \<notin> set gem_usage_fields) W X = E"
  proof (rule obj_ext)
    show "obj_ok (obj_collect_missing (\<lambda>k. k \<notin> set gem_usage_fields) W X)"
      by (rule obj_ok_collect_missing) (simp add: X_def obj_ok_def)
    fix k
    have other: "obj_get k W = obj_get k E" if "k \<notin> set gem_usage_fields" "k \<noteq> ''reasoning_tokens''"
    proof -
      have "map_of fs k = None" using that by (simp add: fs_def gem_usage_fields_def)
      with that show ?thesis by (simp add: W_get)
    qed
    show "obj_get k (obj_collect_missing (\<lambda>k. k \<notin> set gem_usage_fields) W X) = obj_get k E"
    proof (cases "k = ''reasoning_tokens'' \<or> k = ''thoughtsTokenCount''")
      case True
      have "obj_get ''reasoning_tokens'' W = None" by (simp add: W_get) (simp add: fs_def)
      with True show ?thesis
        by (auto simp: obj_get_collect_missing [OF W_ok] X_get gem_usage_fields_def split: option.splits)
    next
      case False
      with other none [of k] show ?thesis by (auto simp: obj_get_collect_missing [OF W_ok] X_get)
    qed
  qed fact
  have "saturating_add (saturating_sub (us_completion_tokens u) (unwrap_or 0 reasoning)) (unwrap_or 0 reasoning) =
      us_completion_tokens u"
    using small by (cases reasoning) (simp_all add: saturating_sub_add)
  moreover have "saturating_sub (saturating_add (us_prompt_tokens u) (unwrap_or 0 cached)) (unwrap_or 0 cached) =
      us_prompt_tokens u"
    using ok by (simp add: gem_usage_ok_def cached_def saturating_add_sub)
  ultimately show "parse_usage_metadata v = u"
    using ok collect nums
    by (simp add: parse_usage_metadata_def X_def v g gem_usage_ok_def cached_def E_def Let_def)
qed

section \<open>Parts\<close>

text \<open>Argument texts that survive: the library parses them and prints the value as it was.\<close>

definition gem_args_ok :: "json_text \<Rightarrow> string \<Rightarrow> bool" where
  "gem_args_ok js a \<longleftrightarrow>
     trim a \<noteq> [] \<and> (case from_text js a of Inl _ \<Rightarrow> False | Inr v \<Rightarrow> v \<noteq> JNull \<and> to_text js v = a)"

lemma gem_args_back:
  assumes "gem_args_ok js a"
  obtains v where "args_string_to_value js a field c = (v, c)" "args_to_string js v = a"
  using assms by (auto simp: gem_args_ok_def args_string_to_value_def args_to_string_def split: sum.splits)
    (metis is_null.elims(2))

text \<open>Contents in the order in which the adapter keeps them: texts first, then media.\<close>

fun gem_media_ok :: "ir_part \<Rightarrow> bool" where
  "gem_media_ok (PartImageInline mime d) = (mime = [] \<or> strip_prefix ''image/'' mime \<noteq> None)"
| "gem_media_ok _ = False"

definition gem_content_ok :: "(ir_part \<Rightarrow> bool) \<Rightarrow> ir_content option \<Rightarrow> bool" where
  "gem_content_ok media_ok content \<longleftrightarrow>
     (\<exists>texts media. content = gem_content_of texts media \<and> list_all media_ok media \<and> texts \<noteq> [[]])"

definition texts_json :: "string list \<Rightarrow> json list" where
  "texts_json texts = map (\<lambda>t. json_obj [(''text'', JStr t)]) texts"

lemma text_parts_written:
  "filter_map_ctx gem_part_to_json (map PartText texts @ media) c =
     (let (ms, c') = filter_map_ctx gem_part_to_json media c in (texts_json texts @ ms, c'))"
  by (induction texts arbitrary: c) (auto simp: texts_json_def split: prod.splits)

lemma gem_content_written:
  assumes "content = gem_content_of texts media" "texts \<noteq> [[]]" "\<And>t. PartText t \<notin> set media"
  shows "content_to_gem_parts content c =
    (let (ms, c') = filter_map_ctx gem_part_to_json media c in (texts_json texts @ ms, c'))"
proof -
  consider "texts = []" "media = []" | t where "texts = [t]" "media = []"
    | "content = Some (ContentParts (map PartText texts @ media))"
  proof (cases "map PartText texts @ media")
    case Nil
    with that(1) show thesis by simp
  next
    case (Cons p ps)
    show thesis
    proof (cases "\<exists>t. p = PartText t \<and> ps = []")
      case True
      with Cons assms(3) that(2) show thesis by (cases texts) (auto simp: Cons_eq_append_conv)
    next
      case False
      with Cons assms(1) that(3) show thesis by (cases p; cases ps) (simp_all add: gem_content_of_def)
    qed
  qed
  then show ?thesis
  proof cases
    case 1
    then show ?thesis using assms(1) by (simp add: gem_content_of_def content_to_gem_parts_def texts_json_def)
  next
    case (2 t)
    then show ?thesis using assms by (simp add: gem_content_of_def content_to_gem_parts_def texts_json_def)
  next
    case 3
    then show ?thesis by (simp add: content_to_gem_parts_def text_parts_written)
  qed
qed

text \<open>Calls as they come back: named and numbered by their place.\<close>

definition renumbered :: "nat \<Rightarrow> ir_tool_call list \<Rightarrow> ir_tool_call list" where
  "renumbered n tcs =
     map (\<lambda>(k, tc). tc\<lparr>tc_id := made_up_id (tc_name tc) (of_nat k)\<rparr>) (enumerate n tcs)"

lemma renumbered_simps [simp]:
  "renumbered n [] = []"
  "renumbered n (tc # tcs) = tc\<lparr>tc_id := made_up_id (tc_name tc) (of_nat n)\<rparr> # renumbered (Suc n) tcs"
  by (simp_all add: renumbered_def)

section \<open>Responses\<close>

lemma answer_text_parts:
  "fold (gem_answer_part_step js) (texts_json texts) (acc, c) = (acc\<lparr>gp_texts := gp_texts acc @ texts\<rparr>, c)"
  by (induction texts arbitrary: acc)
    (auto simp: texts_json_def gem_answer_part_step_def gem_text_part_def jidx_def)

lemma answer_media_parts:
  assumes "list_all gem_media_ok media" "filter_map_ctx gem_part_to_json media c = (ms, c')"
  shows "c' = c" "fold (gem_answer_part_step js) ms (acc, d) = (acc\<lparr>gp_media := gp_media acc @ media\<rparr>, d)"
proof -
  have "c' = c \<and> fold (gem_answer_part_step js) ms (acc, d) = (acc\<lparr>gp_media := gp_media acc @ media\<rparr>, d)"
    using assms
  proof (induction media arbitrary: acc ms)
    case (Cons p media)
    obtain mime d' where p: "p = PartImageInline mime d'" "mime = [] \<or> strip_prefix ''image/'' mime \<noteq> None"
      using Cons.prems(1) by (cases p) auto
    obtain ms1 where rest: "filter_map_ctx gem_part_to_json media c = (ms1, c')"
      "ms = json_obj [(''inlineData'', json_obj [(''mimeType'', JStr mime), (''data'', JStr d')])] # ms1"
      using Cons.prems(2) by (auto simp: p split: prod.splits)
    from Cons.IH [OF _ rest(1)] Cons.prems(1) p(2) show ?case
      by (auto simp: rest(2) p(1) gem_answer_part_step_def gem_inline_part_def jidx_def)
  qed simp
  then show "c' = c" "fold (gem_answer_part_step js) ms (acc, d) = (acc\<lparr>gp_media := gp_media acc @ media\<rparr>, d)"
    by blast+
qed

lemma answer_calls:
  assumes "list_all (\<lambda>tc. gem_args_ok js (tc_arguments tc)) tcs" "map_ctx (gem_call_to_json js) tcs c = (ps, c')"
  shows "c' = c \<and> fold (gem_answer_part_step js) ps (acc\<lparr>gp_seq := of_nat n\<rparr>, d) =
    (acc\<lparr>gp_calls := gp_calls acc @ renumbered n tcs, gp_seq := of_nat (n + length tcs)\<rparr>, d)"
  using assms
proof (induction tcs arbitrary: acc n ps)
  case (Cons tc tcs)
  obtain v where v: "args_string_to_value js (tc_arguments tc) ''tool_call.arguments'' c = (v, c)"
    "args_to_string js v = tc_arguments tc"
    using Cons.prems(1) gem_args_back [of js "tc_arguments tc"] by auto
  have one: "gem_call_to_json js tc c = (function_call_part (tc_name tc) v, c)"
    by (simp add: gem_call_to_json_def v(1))
  obtain ps1 where rest: "map_ctx (gem_call_to_json js) tcs c = (ps1, c')"
    "ps = function_call_part (tc_name tc) v # ps1"
    using Cons.prems(2) by (auto simp: one split: prod.splits)
  have step: "gem_answer_part_step js (function_call_part (tc_name tc) v) (acc\<lparr>gp_seq := of_nat n\<rparr>, d) =
      (acc\<lparr>gp_calls := gp_calls acc @ [tc\<lparr>tc_id := made_up_id (tc_name tc) (of_nat n)\<rparr>],
           gp_seq := of_nat (Suc n)\<rparr>, d)"
    by (cases tc) (simp add: gem_answer_part_step_def gem_call_part_def function_call_part_def jidx_def v(2)
        v(2) [simplified] add.commute)
  from Cons.IH [OF _ rest(1), where n = "Suc n" and
      acc = "acc\<lparr>gp_calls := gp_calls acc @ [tc\<lparr>tc_id := made_up_id (tc_name tc) (of_nat n)\<rparr>]\<rparr>"]
    Cons.prems(1) step show ?case by (simp add: rest(2))
qed simp

text \<open>The message that fits: content in the adapter's form, arguments that are JSON, made up ids.\<close>

definition gem_answer_ok :: "json_text \<Rightarrow> ir_message \<Rightarrow> bool" where
  "gem_answer_ok js m \<longleftrightarrow>
     m = default_message\<lparr>msg_role := RoleAssistant, msg_content := msg_content m,
           msg_tool_calls := msg_tool_calls m, msg_reasoning_content := msg_reasoning_content m\<rparr> \<and>
     gem_content_ok gem_media_ok (msg_content m) \<and>
     list_all (\<lambda>tc. gem_args_ok js (tc_arguments tc)) (msg_tool_calls m) \<and>
     renumbered 0 (msg_tool_calls m) = msg_tool_calls m"

lemma gem_answer_back:
  assumes ok: "gem_answer_ok js m" and run: "message_to_response_parts js m c = (parts, c')"
  shows "c' = c" "gem_parse_response_content js (model_content parts) d = (m, d)"
proof -
  obtain texts media where content: "msg_content m = gem_content_of texts media" "list_all gem_media_ok media"
    "texts \<noteq> [[]]" using ok by (auto simp: gem_answer_ok_def gem_content_ok_def)
  have no_text: "PartText t \<notin> set media" for t using content(2) by (auto simp: list_all_iff)
  define think where "think = (case msg_reasoning_content m of None \<Rightarrow> [] | Some rc \<Rightarrow> [thought_part rc])"
  obtain ms c1 where ms: "filter_map_ctx gem_part_to_json media c = (ms, c1)" by force
  note media = answer_media_parts [OF content(2) ms]
  obtain cs c2 where cs: "map_ctx (gem_call_to_json js) (msg_tool_calls m) c = (cs, c2)" by force
  have args: "list_all (\<lambda>tc. gem_args_ok js (tc_arguments tc)) (msg_tool_calls m)"
    using ok by (simp add: gem_answer_ok_def)
  have parts: "parts = think @ texts_json texts @ ms @ cs" "c' = c2"
    using run cs by (simp_all add: message_to_response_parts_def think_def
        gem_content_written [OF content(1,3) no_text] ms media(1))
  note calls = answer_calls [OF args cs]
  then show "c' = c" by (simp add: parts(2))
  define acc1 where "acc1 = gem_parts_new\<lparr>gp_reasoning := msg_reasoning_content m, gp_texts := texts, gp_media := media\<rparr>"
  have "fold (gem_answer_part_step js) think (gem_parts_new, d) =
      (gem_parts_new\<lparr>gp_reasoning := msg_reasoning_content m\<rparr>, d)"
    by (auto simp: think_def gem_answer_part_step_def gem_text_part_def thought_part_def jidx_def
        gem_parts_new_def split: option.splits)
  then have "fold (gem_answer_part_step js) (think @ texts_json texts @ ms) (gem_parts_new, d) = (acc1, d)"
    by (simp add: answer_text_parts media(2)) (simp add: acc1_def gem_parts_new_def)
  moreover have "acc1 = acc1\<lparr>gp_seq := of_nat 0\<rparr>" by (simp add: acc1_def gem_parts_new_def)
  ultimately have "fold (gem_answer_part_step js) parts (gem_parts_new, d) =
      (acc1\<lparr>gp_calls := msg_tool_calls m, gp_seq := of_nat (length (msg_tool_calls m))\<rparr>, d)"
    using calls [where acc = acc1 and n = 0 and d = d] ok by (simp add: parts(1) gem_answer_ok_def) (simp add: acc1_def gem_parts_new_def)
  moreover have "unwrap_or [] (Option.bind (jget ''parts'' (model_content parts)) as_array) = parts"
    by (simp add: model_content_def obj_lookup)
  ultimately show "gem_parse_response_content js (model_content parts) d = (m, d)"
    using ok content(1) by (simp add: gem_parse_response_content_def gem_answer_ok_def acc1_def)
qed

text \<open>The response that fits: Gemini has no id, model and time, and keeps the reason of the first choice.\<close>

definition gem_response_ok :: "json_text \<Rightarrow> ir_response \<Rightarrow> bool" where
  "gem_response_ok js r \<longleftrightarrow>
     r = default_response\<lparr>rsp_choices := rsp_choices r, rsp_usage := rsp_usage r, rsp_extra := rsp_extra r\<rparr> \<and>
     list_all (\<lambda>ch. gem_answer_ok js (cho_message ch) \<and>
       map_option (normalize_finish_reason \<circ> gem_reverse_finish_reason) (cho_finish_reason ch) = cho_finish_reason ch)
       (rsp_choices r) \<and>
     (case rsp_usage r of None \<Rightarrow> True | Some u \<Rightarrow> gem_usage_ok u) \<and>
     extra_ok [''candidates'', ''usageMetadata''] (rsp_extra r) \<and>
     obj_get ''gemini_finish_reason'' (rsp_extra r) =
       (case rsp_choices r of
          [] \<Rightarrow> None | ch # _ \<Rightarrow> map_option (\<lambda>fr. JStr (gem_reverse_finish_reason fr)) (cho_finish_reason ch))"

lemma gem_choice_back:
  assumes "gem_answer_ok js (cho_message ch)"
    and "map_option (normalize_finish_reason \<circ> gem_reverse_finish_reason) (cho_finish_reason ch) = cho_finish_reason ch"
    and "gem_choice_to_json js ch c = (v, c')"
  shows "c' = c" "gem_parse_candidate js (i, v) d = (ch, d)"
    "as_str (jidx v ''finishReason'') = map_option gem_reverse_finish_reason (cho_finish_reason ch)"
proof -
  obtain parts where parts: "message_to_response_parts js (cho_message ch) c = (parts, c')"
    and v: "v = candidate_json parts (json_u32 (cho_index ch)) (cho_finish_reason ch)"
    using assms(3) by (auto simp: gem_choice_to_json_def split: prod.splits)
  note m = gem_answer_back [OF assms(1) parts]
  show "c' = c" by (rule m(1))
  have fields: "jget ''content'' v = Some (model_content parts)" "jget ''index'' v = Some (json_u32 (cho_index ch))"
    "jget ''finishReason'' v = map_option (\<lambda>r. JStr (gem_reverse_finish_reason r)) (cho_finish_reason ch)"
    by (auto simp: v candidate_json_def obj_lookup)
  show reason: "as_str (jidx v ''finishReason'') = map_option gem_reverse_finish_reason (cho_finish_reason ch)"
    by (cases "cho_finish_reason ch") (simp_all add: jidx_def fields)
  have index: "jidx v ''index'' = json_u32 (cho_index ch)" by (simp add: jidx_def fields(2))
  show "gem_parse_candidate js (i, v) d = (ch, d)"
    using assms(2) by (cases ch) (simp add: gem_parse_candidate_def fields(1) m(2) reason index
        option.map_comp)
qed

lemma gem_choices_back:
  assumes "list_all (\<lambda>ch. gem_answer_ok js (cho_message ch) \<and>
      map_option (normalize_finish_reason \<circ> gem_reverse_finish_reason) (cho_finish_reason ch) = cho_finish_reason ch) chs"
    and "map_ctx (gem_choice_to_json js) chs c = (vs, c')"
  shows "c' = c \<and> map_ctx (gem_parse_candidate js) (enumerate n vs) d = (chs, d) \<and>
    (case vs of [] \<Rightarrow> None | v # _ \<Rightarrow> as_str (jidx v ''finishReason'')) =
    (case chs of [] \<Rightarrow> None | ch # _ \<Rightarrow> map_option gem_reverse_finish_reason (cho_finish_reason ch))"
  using assms
proof (induction chs arbitrary: vs n)
  case (Cons ch chs)
  obtain v c1 where one: "gem_choice_to_json js ch c = (v, c1)" by force
  have ok: "gem_answer_ok js (cho_message ch)"
    "map_option (normalize_finish_reason \<circ> gem_reverse_finish_reason) (cho_finish_reason ch) = cho_finish_reason ch"
    and oks: "list_all (\<lambda>ch. gem_answer_ok js (cho_message ch) \<and> map_option
      (normalize_finish_reason \<circ> gem_reverse_finish_reason) (cho_finish_reason ch) = cho_finish_reason ch) chs"
    using Cons.prems(1) unfolding list.pred_inject(2) by blast+
  note back1 = gem_choice_back [OF ok one]
  obtain vs1 where rest: "map_ctx (gem_choice_to_json js) chs c = (vs1, c')" "vs = v # vs1"
    using Cons.prems(2) one back1(1) by (auto split: prod.splits)
  from Cons.IH [OF oks rest(1), of "Suc n"] back1 show ?case by (simp add: rest(2))
qed simp

lemma gem_usage_opt_back:
  assumes "case u of None \<Rightarrow> True | Some us \<Rightarrow> gem_usage_ok us" "gem_usage_opt u c = (j, c')"
  shows "map_option parse_usage_metadata j = u" "c' = c"
  using assms
  by (cases u; auto simp: gem_usage_opt_def dest: gem_usage_back split: prod.splits)+

lemma gem_response_back:
  assumes ok: "gem_response_ok js r" and json: "gem_response_from_ir js r ctx = (Inr v, ctx')"
  shows "ctx' = ctx" "gem_response_to_ir js v c = (Inr r, c)"
proof -
  define X where "X = rsp_extra r"
  obtain vs c1 where vs: "map_ctx (gem_choice_to_json js) (rsp_choices r) ctx = (vs, c1)" by force
  have "list_all (\<lambda>ch. gem_answer_ok js (cho_message ch) \<and>
      map_option (normalize_finish_reason \<circ> gem_reverse_finish_reason) (cho_finish_reason ch) = cho_finish_reason ch)
      (rsp_choices r)" using ok by (simp add: gem_response_ok_def)
  note choices = gem_choices_back [OF this vs]
  obtain usage c2 where u: "gem_usage_opt (rsp_usage r) c1 = (usage, c2)" by force
  have "case rsp_usage r of None \<Rightarrow> True | Some u \<Rightarrow> gem_usage_ok u" using ok by (simp add: gem_response_ok_def)
  note usage = gem_usage_opt_back [OF this u]
  define fs where "fs = [(''candidates'', Some (JArr vs)), (''usageMetadata'', usage)]"
  define R where "R = obj_remove ''gemini_finish_reason'' X"
  define W where "W = obj_insert_fields fs R"
  have v: "v = JObj W" and "ctx' = c2"
    using json vs u by (simp_all add: gem_response_from_ir_def W_def R_def X_def fs_def)
  with choices usage(2) show "ctx' = ctx" by simp
  have X_ok: "obj_ok X" and X_none: "k \<in> {''candidates'', ''usageMetadata''} \<Longrightarrow> obj_get k X = None" for k
    using ok by (auto simp: gem_response_ok_def extra_ok_def X_def obj_get_None list_all_iff)
  have R_get: "obj_get k R = (if k = ''gemini_finish_reason'' then None else obj_get k X)" for k
    unfolding R_def using X_ok by (rule obj_get_remove)
  have R_ok: "obj_ok R" unfolding R_def using X_ok by (rule obj_ok_remove)
  have W_ok: "obj_ok W" unfolding W_def using R_ok by (rule obj_ok_fields)
  have dist: "distinct (map fst fs)" by (simp add: fs_def)
  have W_get: "obj_get k W = (case map_of fs k of Some (Some x) \<Rightarrow> Some x | _ \<Rightarrow>
      if k = ''gemini_finish_reason'' then None else obj_get k X)" for k
    unfolding W_def obj_get_fields [OF dist] R_get ..
  have g: "obj_get ''candidates'' W = Some (JArr vs)" "obj_get ''usageMetadata'' W = usage"
    using X_none [of "''usageMetadata''"] by (simp_all add: W_get fs_def split: option.splits)
  define reason where "reason = (case rsp_choices r of
      [] \<Rightarrow> None | ch # _ \<Rightarrow> map_option gem_reverse_finish_reason (cho_finish_reason ch))"
  have X_reason: "obj_get ''gemini_finish_reason'' X = map_option JStr reason"
    using ok by (auto simp: gem_response_ok_def X_def reason_def option.map_comp comp_def split: list.splits)
  have collect: "obj_collect (\<lambda>k. k \<notin> {''candidates'', ''usageMetadata''}) W
      (obj_insert_opt ''gemini_finish_reason'' (map_option JStr reason) []) = X"
  proof (rule obj_ext)
    show "obj_ok (obj_collect (\<lambda>k. k \<notin> {''candidates'', ''usageMetadata''}) W
      (obj_insert_opt ''gemini_finish_reason'' (map_option JStr reason) []))"
      by (intro obj_ok_collect obj_ok_insert_opt obj_ok_Nil)
    fix k
    show "obj_get k (obj_collect (\<lambda>k. k \<notin> {''candidates'', ''usageMetadata''}) W
      (obj_insert_opt ''gemini_finish_reason'' (map_option JStr reason) [])) = obj_get k X"
    proof (cases "k \<in> {''candidates'', ''usageMetadata''}")
      case True
      with X_none [OF True] show ?thesis by (auto simp: obj_get_collect [OF W_ok] obj_lookup)
    next
      case False
      then have "map_of fs k = None" by (simp add: fs_def)
      with False X_reason show ?thesis by (auto simp: obj_get_collect [OF W_ok] obj_lookup W_get)
    qed
  qed fact
  have plain: "r = default_response\<lparr>rsp_choices := rsp_choices r, rsp_usage := rsp_usage r, rsp_extra := X\<rparr>"
    using ok by (simp add: gem_response_ok_def X_def)
  have first: "(case vs of [] \<Rightarrow> None | v # _ \<Rightarrow> as_str (jidx v ''finishReason'')) = reason"
    using choices by (simp add: reason_def)
  have read: "gem_response_to_ir js v c = (Inr (default_response\<lparr>rsp_choices := rsp_choices r,
      rsp_usage := map_option parse_usage_metadata usage, rsp_extra := X\<rparr>), c)"
    unfolding gem_response_to_ir_def v as_object.simps jget.simps g option.case as_array.simps first
    using choices [of 0 c] collect by simp
  show "gem_response_to_ir js v c = (Inr r, c)"
    unfolding read usage(1) using plain by simp
qed

section \<open>Turns of a request\<close>

text \<open>Media that a request keeps: inline images, and files whose address is not the empty one.\<close>

fun gem_turn_media_ok :: "ir_part \<Rightarrow> bool" where
  "gem_turn_media_ok (PartImageInline mime d) = (mime = [] \<or> strip_prefix ''image/'' mime \<noteq> None)"
| "gem_turn_media_ok (PartFile name url d) = (url \<noteq> Some [])"
| "gem_turn_media_ok _ = False"

text \<open>
  The messages that fit: what is said has the adapter's order of parts and arguments that are
  JSON, a result names its function and is empty or JSON.
\<close>

definition gem_turn_ok :: "json_text \<Rightarrow> ir_message \<Rightarrow> bool" where
  "gem_turn_ok js m \<longleftrightarrow>
     (if msg_role m = RoleTool then
        msg_name m \<noteq> None \<and> msg_tool_calls m = [] \<and> msg_reasoning_content m = None \<and>
        (\<exists>t. msg_content m = Some (ContentText t) \<and> (t = [] \<or> gem_args_ok js t))
      else
        msg_name m = None \<and> gem_content_ok gem_turn_media_ok (msg_content m) \<and>
        list_all (\<lambda>tc. gem_args_ok js (tc_arguments tc)) (msg_tool_calls m) \<and>
        (msg_content m \<noteq> None \<or> msg_tool_calls m \<noteq> [] \<or> msg_reasoning_content m \<noteq> None))"

text \<open>A message up to the ids, which Gemini does not carry.\<close>

definition call_kept :: "ir_tool_call \<Rightarrow> ir_tool_call" where
  "call_kept tc = tc\<lparr>tc_id := []\<rparr>"

definition without_ids :: "ir_message \<Rightarrow> ir_message" where
  "without_ids m = m\<lparr>msg_tool_call_id := None, msg_tool_calls := map call_kept (msg_tool_calls m)\<rparr>"

lemma turn_text_parts:
  "fold (gem_part_step js) (texts_json texts) (acc, ids, c) = (acc\<lparr>gp_texts := gp_texts acc @ texts\<rparr>, ids, c)"
  by (induction texts arbitrary: acc)
    (auto simp: texts_json_def gem_part_step_def gem_text_part_def jidx_def)

lemma turn_file_part:
  assumes "url \<noteq> Some []" "gem_part_to_json (PartFile name url data) c = (Some j, c')"
  shows "gem_part_step js j (acc, ids, d) = (acc\<lparr>gp_media := gp_media acc @ [PartFile name url data]\<rparr>, ids, d)"
proof -
  define fd where "fd = JObj (obj_insert_opt ''displayName'' (if name = [] then None else Some (JStr name))
     (obj_insert_opt ''data'' (map_option JStr data) (obj_insert_opt ''fileUri'' (map_option JStr url) [])))"
  have fields: "str_or_empty (jidx fd ''displayName'') = name" "as_str (jidx fd ''data'') = data"
    "str_or_empty (jidx fd ''fileUri'') = unwrap_or [] url" "jget ''mimeType'' fd = None"
    by (cases url; cases data; simp add: fd_def obj_lookup)+
  have "gem_file_part fd acc d = (acc\<lparr>gp_media := gp_media acc @ [PartFile name url data]\<rparr>, d)"
    using assms(1) by (cases url) (simp_all add: gem_file_part_def fields)
  moreover have "j = json_obj [(''fileData'', fd)]" using assms(2) by (simp add: fd_def)
  ultimately show ?thesis by (simp add: gem_part_step_def jidx_def)
qed

lemma turn_media_parts:
  assumes "list_all gem_turn_media_ok media" "filter_map_ctx gem_part_to_json media c = (ms, c')"
  shows "fold (gem_part_step js) ms (acc, ids, d) = (acc\<lparr>gp_media := gp_media acc @ media\<rparr>, ids, d)"
  using assms
proof (induction media arbitrary: acc ms c)
  case (Cons p media)
  obtain j ms1 where rest: "gem_part_to_json p c = (Some j, c)" "filter_map_ctx gem_part_to_json media c = (ms1, c')"
    "ms = j # ms1"
    using Cons.prems by (cases p) (auto split: prod.splits)
  have "gem_part_step js j (acc, ids, d) = (acc\<lparr>gp_media := gp_media acc @ [p]\<rparr>, ids, d)"
  proof (cases p)
    case (PartImageInline mime d')
    with rest(1) Cons.prems(1) show ?thesis
      by (auto simp: gem_part_step_def gem_inline_part_def jidx_def)
  next
    case (PartFile name url data)
    with rest(1) Cons.prems(1) show ?thesis by (intro turn_file_part [THEN trans]) auto
  qed (use Cons.prems(1) in simp_all)
  with Cons.IH [OF _ rest(2)] Cons.prems(1) show ?case by (simp add: rest(3))
qed simp

lemma turn_call_parts:
  assumes "list_all (\<lambda>tc. gem_args_ok js (tc_arguments tc)) tcs" "map_ctx (gem_call_to_json js) tcs c = (ps, c')"
  shows "\<exists>new n ids'. fold (gem_part_step js) ps (acc, ids, d) =
      (acc\<lparr>gp_calls := gp_calls acc @ new, gp_seq := n\<rparr>, ids', d) \<and> map call_kept new = map call_kept tcs"
  using assms
proof (induction tcs arbitrary: acc ids ps)
  case Nil
  then have "fold (gem_part_step js) ps (acc, ids, d) = (acc\<lparr>gp_calls := gp_calls acc @ [], gp_seq := gp_seq acc\<rparr>, ids, d)"
    by simp
  then show ?case by (intro exI conjI) (assumption, simp)
next
  case (Cons tc tcs)
  obtain v where v: "args_string_to_value js (tc_arguments tc) ''tool_call.arguments'' c = (v, c)"
    "args_to_string js v = tc_arguments tc"
    using Cons.prems(1) gem_args_back [of js "tc_arguments tc"] by auto
  have one: "gem_call_to_json js tc c = (function_call_part (tc_name tc) v, c)"
    by (simp add: gem_call_to_json_def v(1))
  obtain ps1 where rest: "map_ctx (gem_call_to_json js) tcs c = (ps1, c')"
    "ps = function_call_part (tc_name tc) v # ps1"
    using Cons.prems(2) by (auto simp: one split: prod.splits)
  define tc' where "tc' = tc\<lparr>tc_id := made_up_id (tc_name tc) (gp_seq acc)\<rparr>"
  define acc1 where "acc1 = acc\<lparr>gp_calls := gp_calls acc @ [tc'], gp_seq := gp_seq acc + 1\<rparr>"
  define ids1 where "ids1 = ids(tc_name tc := ids (tc_name tc) @ [made_up_id (tc_name tc) (gp_seq acc)])"
  have step: "gem_part_step js (function_call_part (tc_name tc) v) (acc, ids, d) = (acc1, ids1, d)"
    by (cases tc) (simp add: gem_part_step_def gem_call_part_def function_call_part_def jidx_def acc1_def ids1_def
        tc'_def v(2) v(2) [simplified])
  obtain new n ids' where IH: "fold (gem_part_step js) ps1 (acc1, ids1, d) =
      (acc1\<lparr>gp_calls := gp_calls acc1 @ new, gp_seq := n\<rparr>, ids', d)" "map call_kept new = map call_kept tcs"
    using Cons.IH [OF _ rest(1), of acc1 ids1] Cons.prems(1) by auto
  moreover have "call_kept tc' = call_kept tc" by (simp add: tc'_def call_kept_def)
  ultimately show ?case
    using step by (intro exI [of _ "tc' # new"] exI [of _ n] exI [of _ ids']) (simp add: rest(2) acc1_def)
qed

text \<open>What the loop over the parts of a content finds in what is written for a message.\<close>

lemma gem_said_parts:
  assumes ok: "gem_content_ok gem_turn_media_ok content"
    and args: "list_all (\<lambda>tc. gem_args_ok js (tc_arguments tc)) tcs"
    and ps: "content_to_gem_parts content c = (ps, c1)"
    and cs: "map_ctx (gem_call_to_json js) tcs c1 = (cs, c2)"
  shows "\<exists>acc ids'. fold (gem_part_step js)
      (ps @ (case reasoning of None \<Rightarrow> [] | Some rc \<Rightarrow> [thought_part rc]) @ cs) (gem_parts_new, ids, d) = (acc, ids', d) \<and>
    gem_content_of (gp_texts acc) (gp_media acc) = content \<and> gp_reasoning acc = reasoning \<and>
    map call_kept (gp_calls acc) = map call_kept tcs \<and> gp_responses acc = []"
proof -
  obtain texts media where content: "content = gem_content_of texts media" "list_all gem_turn_media_ok media"
    "texts \<noteq> [[]]" using ok by (auto simp: gem_content_ok_def)
  have no_text: "PartText t \<notin> set media" for t using content(2) by (auto simp: list_all_iff)
  obtain ms c3 where ms: "filter_map_ctx gem_part_to_json media c = (ms, c3)" by force
  have ps': "ps = texts_json texts @ ms" using ps by (simp add: gem_content_written [OF content(1,3) no_text] ms)
  define acc1 where "acc1 = gem_parts_new\<lparr>gp_texts := texts, gp_media := media, gp_reasoning := reasoning\<rparr>"
  have "fold (gem_part_step js) ps (gem_parts_new, ids, d) =
      (gem_parts_new\<lparr>gp_texts := texts, gp_media := media\<rparr>, ids, d)"
    by (simp add: ps' turn_text_parts turn_media_parts [OF content(2) ms]) (simp add: gem_parts_new_def)
  then have "fold (gem_part_step js) (ps @ (case reasoning of None \<Rightarrow> [] | Some rc \<Rightarrow> [thought_part rc]))
      (gem_parts_new, ids, d) = (acc1, ids, d)"
    by (cases reasoning) (simp_all add: acc1_def gem_part_step_def gem_text_part_def thought_part_def jidx_def
        gem_parts_new_def)
  moreover obtain new n ids' where "fold (gem_part_step js) cs (acc1, ids, d) =
      (acc1\<lparr>gp_calls := gp_calls acc1 @ new, gp_seq := n\<rparr>, ids', d)" "map call_kept new = map call_kept tcs"
    using turn_call_parts [OF args cs] by blast
  ultimately show ?thesis
    by (intro exI [of _ "acc1\<lparr>gp_calls := gp_calls acc1 @ new, gp_seq := n\<rparr>"] exI [of _ ids'])
      (simp add: content(1), simp add: acc1_def gem_parts_new_def)
qed

lemma gem_parse_content_obj:
  assumes "gem_parse_role (Some r) c = (role, c1)"
    and "fold (gem_part_step js) ps (gem_parts_new, ids, c1) = (acc, ids1, c2)"
  shows "gem_parse_content js (json_obj [(''role'', JStr r), (''parts'', JArr ps)]) (msgs, ids, c) =
    (let msg = default_message\<lparr>msg_role := role, msg_content := gem_content_of (gp_texts acc) (gp_media acc),
         msg_tool_calls := gp_calls acc, msg_reasoning_content := gp_reasoning acc\<rparr>
     in (Inr (), fold gem_response_step (gp_responses acc)
          (if msg_content msg \<noteq> None \<or> msg_tool_calls msg \<noteq> [] \<or> msg_reasoning_content msg \<noteq> None
           then msgs @ [msg] else msgs, ids1, c2)))"
  using assms by (simp add: gem_parse_content_def jidx_def Let_def)

lemma gem_result_back:
  assumes role: "msg_role m = RoleTool" and ok: "gem_turn_ok js m"
    and json: "gem_message_to_content js m c = (j, c')"
  shows "\<exists>v m' ids' d'. j = Some v \<and> gem_parse_content js v (msgs, ids, d) = (Inr (), msgs @ [m'], ids', d') \<and>
    without_ids m' = without_ids m"
proof -
  obtain name t where m: "msg_name m = Some name" "msg_content m = Some (ContentText t)" "msg_tool_calls m = []"
    "msg_reasoning_content m = None" "t = [] \<or> gem_args_ok js t"
    using ok role by (auto simp: gem_turn_ok_def)
  obtain w where w: "response_content_to_value js (msg_content m) c = (w, c)" "args_to_string js w = t"
  proof (cases "t = []")
    case True
    with that [of JNull] m(2) show thesis by (simp add: response_content_to_value_def args_to_string_def trim_def)
  next
    case False
    with m(5) that show thesis
      by (auto simp: gem_args_ok_def response_content_to_value_def args_to_string_def m(2) split: sum.splits)
        (metis is_null.elims(2))
  qed
  define p where "p = json_obj [(''functionResponse'', json_obj [(''name'', JStr name), (''response'', w)])]"
  have j: "j = Some (json_obj [(''role'', JStr ''user''), (''parts'', JArr [p])])"
    using json by (simp add: gem_message_to_content_def role tool_result_part_def m(1) w(1) or_else_def p_def)
  define acc where "acc = gem_parts_new\<lparr>gp_responses := [(name, t)]\<rparr>"
  have "fold (gem_part_step js) [p] (gem_parts_new, ids, d) = (acc, ids, d)"
    by (simp add: p_def gem_part_step_def jidx_def w(2) [simplified] w(2)) (simp add: acc_def gem_parts_new_def)
  note read = gem_parse_content_obj [OF _ this, of "''user''" d RoleUser msgs]
  define m' where "m' = default_message\<lparr>msg_role := RoleTool, msg_content := Some (ContentText t),
     msg_name := Some name, msg_tool_call_id := Some (case ids name of [] \<Rightarrow> name | i # _ \<Rightarrow> i)\<rparr>"
  have "\<exists>ids' d'. gem_parse_content js (the j) (msgs, ids, d) = (Inr (), msgs @ [m'], ids', d')"
    using read by (simp add: j gem_parse_role_def acc_def gem_parts_new_def gem_content_of_def default_message_def
        gem_response_step_def m'_def)
  moreover have "without_ids m' = without_ids m"
    using m(1-4) role by (cases m) (simp add: without_ids_def m'_def default_message_def)
  ultimately show ?thesis using j by auto
qed

lemma gem_said_back:
  assumes role: "msg_role m \<in> {RoleUser, RoleAssistant}" and ok: "gem_turn_ok js m"
    and json: "gem_message_to_content js m c = (j, c')"
  shows "\<exists>v m' ids' d'. j = Some v \<and> gem_parse_content js v (msgs, ids, d) = (Inr (), msgs @ [m'], ids', d') \<and>
    without_ids m' = without_ids m"
proof -
  have m: "msg_name m = None" "gem_content_ok gem_turn_media_ok (msg_content m)"
    "list_all (\<lambda>tc. gem_args_ok js (tc_arguments tc)) (msg_tool_calls m)"
    "msg_content m \<noteq> None \<or> msg_tool_calls m \<noteq> [] \<or> msg_reasoning_content m \<noteq> None"
    using ok role by (auto simp: gem_turn_ok_def split: if_splits)
  obtain ps c1 where ps: "content_to_gem_parts (msg_content m) c = (ps, c1)" by force
  obtain cs c2 where cs: "map_ctx (gem_call_to_json js) (msg_tool_calls m) c1 = (cs, c2)" by force
  define qs where "qs = ps @ (case msg_reasoning_content m of None \<Rightarrow> [] | Some rc \<Rightarrow> [thought_part rc]) @ cs"
  obtain acc ids1 where read: "fold (gem_part_step js) qs (gem_parts_new, ids, d) = (acc, ids1, d)"
    and acc: "gem_content_of (gp_texts acc) (gp_media acc) = msg_content m" "gp_reasoning acc = msg_reasoning_content m"
      "map call_kept (gp_calls acc) = map call_kept (msg_tool_calls m)" "gp_responses acc = []"
    using gem_said_parts [OF m(2,3) ps cs, of "msg_reasoning_content m" ids d] unfolding qs_def by metis
  have "qs \<noteq> []"
  proof
    assume "qs = []"
    with read have "acc = gem_parts_new" by simp
    with acc m(4) show False by (simp add: gem_parts_new_def gem_content_of_def)
  qed
  then have j: "j = Some (json_obj [(''role'', JStr (gem_role_to_str (msg_role m))), (''parts'', JArr qs)])"
    using json role by (auto simp: gem_message_to_content_def ps cs qs_def)
  have "gem_parse_role (Some (gem_role_to_str (msg_role m))) d = (msg_role m, d)"
    using role by (auto simp: gem_parse_role_def)
  note whole = gem_parse_content_obj [OF this read, of msgs]
  define m' where "m' = default_message\<lparr>msg_role := msg_role m, msg_content := msg_content m,
     msg_tool_calls := gp_calls acc, msg_reasoning_content := msg_reasoning_content m\<rparr>"
  have "gp_calls acc \<noteq> [] \<longleftrightarrow> msg_tool_calls m \<noteq> []" using acc(3) by auto
  with whole m(4) have "gem_parse_content js (the j) (msgs, ids, d) = (Inr (), msgs @ [m'], ids1, d)"
    by (simp add: j acc Let_def m'_def)
  moreover have "without_ids m' = without_ids m"
    using m(1) acc(3) by (cases m) (simp add: without_ids_def m'_def default_message_def)
  ultimately show ?thesis using j by auto
qed

lemma gem_turn_back:
  assumes "msg_role m \<noteq> RoleSystem" "gem_turn_ok js m" "gem_message_to_content js m c = (j, c')"
  shows "\<exists>v m' ids' d'. j = Some v \<and> gem_parse_content js v (msgs, ids, d) = (Inr (), msgs @ [m'], ids', d') \<and>
    without_ids m' = without_ids m"
proof (cases "msg_role m = RoleTool")
  case True
  from gem_result_back [OF this assms(2,3)] show ?thesis .
next
  case False
  with assms(1) have "msg_role m \<in> {RoleUser, RoleAssistant}" by (cases "msg_role m") auto
  from gem_said_back [OF this assms(2,3)] show ?thesis .
qed

lemma gem_turns_back:
  assumes "list_all (\<lambda>m. msg_role m \<noteq> RoleSystem \<and> gem_turn_ok js m) ms"
    and "filter_map_ctx (gem_message_to_content js) ms c = (vs, c')"
  shows "length vs = length ms \<and> (\<exists>new ids' d'. gem_parse_contents js vs (msgs, ids, d) =
    (Inr (), msgs @ new, ids', d') \<and> map without_ids new = map without_ids ms)"
  using assms
proof (induction ms arbitrary: c vs msgs ids d)
  case (Cons m ms)
  obtain j c1 where j: "gem_message_to_content js m c = (j, c1)" by force
  obtain v m' ids1 d1 where v: "j = Some v"
    "gem_parse_content js v (msgs, ids, d) = (Inr (), msgs @ [m'], ids1, d1)" "without_ids m' = without_ids m"
    using gem_turn_back [OF _ _ j, of msgs ids d] Cons.prems(1) by auto
  obtain vs1 where rest: "filter_map_ctx (gem_message_to_content js) ms c1 = (vs1, c')" "vs = v # vs1"
    using Cons.prems(2) by (auto simp: j v(1) split: prod.splits)
  obtain new ids2 d2 where "length vs1 = length ms"
    "gem_parse_contents js vs1 (msgs @ [m'], ids1, d1) = (Inr (), (msgs @ [m']) @ new, ids2, d2)"
    "map without_ids new = map without_ids ms"
    using Cons.IH [OF _ rest(1), of "msgs @ [m']" ids1 d1] Cons.prems(1) by auto
  with v show ?case by (auto simp: rest(2) intro!: exI [of _ "m' # new"])
qed simp

section \<open>System text\<close>

definition part_text :: "ir_part \<Rightarrow> string" where
  "part_text p = (case p of PartText t \<Rightarrow> t | _ \<Rightarrow> [])"

definition message_text :: "ir_message \<Rightarrow> string" where
  "message_text m =
     (case msg_content m of
        None \<Rightarrow> [] | Some (ContentText s) \<Rightarrow> s | Some (ContentParts ps) \<Rightarrow> concat (map part_text ps))"

text \<open>The texts of all system messages, with nothing between them.\<close>

definition gem_system_text :: "ir_message list \<Rightarrow> string" where
  "gem_system_text msgs = concat (map message_text (filter (\<lambda>m. msg_role m = RoleSystem) msgs))"

text \<open>Written parts that are read as a text.\<close>

definition parts_read :: "json list \<Rightarrow> string \<Rightarrow> bool" where
  "parts_read ps t \<longleftrightarrow>
     (\<forall>out d. fold system_part_step ps (out, d) = (out @ t, d)) \<and> (ps = [] \<longleftrightarrow> t = [])"

lemma parts_read_append: "parts_read ps t \<Longrightarrow> parts_read ps' t' \<Longrightarrow> parts_read (ps @ ps') (t @ t')"
  by (simp add: parts_read_def)

lemma parts_read_Nil [simp]: "parts_read [] []"
  by (simp add: parts_read_def)

lemma parts_read_text: "t \<noteq> [] \<Longrightarrow> parts_read [json_obj [(''text'', JStr t)]] t"
  by (simp add: parts_read_def system_part_step_def jidx_def)

lemma system_parts_read:
  "filter_map_ctx system_part_to_gem ps c = (js, c') \<Longrightarrow> parts_read js (concat (map part_text ps))"
proof (induction ps arbitrary: c js)
  case (Cons p ps)
  obtain j c1 where j: "system_part_to_gem p c = (j, c1)" by force
  obtain js1 where rest: "filter_map_ctx system_part_to_gem ps c1 = (js1, c')"
    "js = (case j of None \<Rightarrow> [] | Some v \<Rightarrow> [v]) @ js1"
    using Cons.prems by (auto simp: j split: prod.splits option.splits)
  have "parts_read (case j of None \<Rightarrow> [] | Some v \<Rightarrow> [v]) (part_text p)"
    using j parts_read_text by (cases p) (auto simp: part_text_def split: if_splits)
  from parts_read_append [OF this Cons.IH [OF rest(1)]] show ?case by (simp add: rest(2))
qed simp

lemma system_message_read: "system_msg_to_parts m c = (js, c') \<Longrightarrow> parts_read js (message_text m)"
  using parts_read_text system_parts_read
  by (auto simp: system_msg_to_parts_def message_text_def split: option.splits ir_content.splits if_splits)

lemma system_messages_read:
  "map_ctx system_msg_to_parts ms c = (jss, c') \<Longrightarrow> parts_read (concat jss) (concat (map message_text ms))"
proof (induction ms arbitrary: c jss)
  case (Cons m ms)
  obtain js c1 where js: "system_msg_to_parts m c = (js, c1)" by force
  obtain jss1 where rest: "map_ctx system_msg_to_parts ms c1 = (jss1, c')" "jss = js # jss1"
    using Cons.prems by (auto simp: js split: prod.splits)
  from parts_read_append [OF system_message_read [OF js] Cons.IH [OF rest(1)]] show ?case by (simp add: rest(2))
qed simp

section \<open>Requests\<close>

lemma gem_tools_back:
  "gem_parse_tools (JArr [json_obj [(''functionDeclarations'', JArr (map gem_tool_to_json ts))]]) c = (Inr ts, c)"
proof -
  have "gem_parse_tool (gem_tool_to_json t) = t" for t
    by (cases t; cases "tool_description t") (simp_all add: gem_parse_tool_def gem_tool_to_json_def obj_lookup)
  then show ?thesis by (simp add: gem_parse_tools_def gem_tool_step_def comp_def)
qed

definition gem_format_ok :: "json \<Rightarrow> bool" where
  "gem_format_ok rf \<longleftrightarrow>
     rf = json_obj [(''type'', JStr ''json_object'')] \<or>
     (\<exists>s. rf = json_obj [(''type'', JStr ''json_schema''),
                         (''json_schema'', json_obj [(''name'', JStr ''response''), (''schema'', s)])])"

lemma gem_format_back:
  assumes "pred_option gem_format_ok rf"
    and "(mime, schema) = (case rf of None \<Rightarrow> (None, None) | Some f \<Rightarrow> gem_format_fields f)"
    and "jget ''responseMimeType'' gc = mime" "jget ''responseSchema'' gc = schema"
  shows "gem_response_format gc = rf"
  using assms
  by (cases rf) (auto simp: gem_format_ok_def gem_format_fields_def gem_response_format_def jidx_def)

definition gem_request_ok :: "json_text \<Rightarrow> ir_request \<Rightarrow> bool" where
  "gem_request_ok js req \<longleftrightarrow>
     list_all (\<lambda>m. msg_role m \<noteq> RoleSystem \<longrightarrow> gem_turn_ok js m) (req_messages req) \<and>
     pred_option f64_is_finite (req_temperature req) \<and> pred_option f64_is_finite (req_top_p req) \<and>
     pred_option gem_format_ok (req_response_format req) \<and>
     extra_ok [''model'', ''systemInstruction'', ''contents'', ''generationConfig'', ''tools''] (req_extra req)"

text \<open>What a request keeps: everything said and done but the ids, the system text, the tools, the parameters.\<close>

definition gem_same_request :: "ir_request \<Rightarrow> ir_request \<Rightarrow> bool" where
  "gem_same_request r req \<longleftrightarrow>
     map without_ids (filter (\<lambda>m. msg_role m \<noteq> RoleSystem) (req_messages r)) =
       map without_ids (filter (\<lambda>m. msg_role m \<noteq> RoleSystem) (req_messages req)) \<and>
     gem_system_text (req_messages r) = gem_system_text (req_messages req) \<and>
     req_tools r = req_tools req \<and> req_max_tokens r = req_max_tokens req \<and>
     req_temperature r = req_temperature req \<and> req_top_p r = req_top_p req \<and>
     ext_top_k (req_ext r) = ext_top_k (req_ext req) \<and> req_stop r = req_stop req \<and>
     req_response_format r = req_response_format req \<and> req_extra r = req_extra req"

lemma map_filter_JStr [simp]: "List.map_filter as_str (map JStr ss) = ss"
  by (induction ss) (simp_all add: List.map_filter_def)

lemma gem_config_back:
  assumes "pred_option f64_is_finite (req_temperature req)" "pred_option f64_is_finite (req_top_p req)"
    and "pred_option gem_format_ok (req_response_format req)"
  shows "\<exists>c'. gem_config_opt (if gem_config_json req = [] then None else Some (JObj (gem_config_json req)))
      (default_request\<lparr>req_messages := msgs\<rparr>) c =
    (default_request\<lparr>req_messages := msgs, req_max_tokens := req_max_tokens req,
       req_temperature := req_temperature req, req_top_p := req_top_p req, req_stop := req_stop req,
       req_response_format := req_response_format req,
       req_ext := default_ext\<lparr>ext_top_k := ext_top_k (req_ext req)\<rparr>\<rparr>, c')"
proof -
  obtain mime schema where format: "(mime, schema) = (case req_response_format req of
      None \<Rightarrow> (None, None) | Some rf \<Rightarrow> gem_format_fields rf)" by (metis surj_pair)
  define gc where "gc = gem_config_json req"
  have g: "obj_get ''maxOutputTokens'' gc = map_option json_u64 (req_max_tokens req)"
    "obj_get ''temperature'' gc = map_option json_f64 (req_temperature req)"
    "obj_get ''topP'' gc = map_option json_f64 (req_top_p req)"
    "obj_get ''topK'' gc = map_option json_u32 (ext_top_k (req_ext req))"
    "obj_get ''stopSequences'' gc = map_option (\<lambda>ss. JArr (map JStr ss)) (req_stop req)"
    "obj_get ''responseMimeType'' gc = mime" "obj_get ''responseSchema'' gc = schema"
    "obj_get ''candidateCount'' gc = None" "obj_get ''seed'' gc = None"
    by (auto simp: gc_def gem_config_json_def obj_lookup simp flip: format)
  have rf: "gem_response_format (JObj gc) = req_response_format req"
    by (rule gem_format_back [OF assms(3) format]) (simp_all add: g)
  have nums: "as_u64 (jidx (JObj gc) ''maxOutputTokens'') = req_max_tokens req"
    "as_f64 (jidx (JObj gc) ''temperature'') = req_temperature req"
    "as_f64 (jidx (JObj gc) ''topP'') = req_top_p req"
    "small_number (jidx (JObj gc) ''topK'') = (ext_top_k (req_ext req), False)"
    "small_number (jidx (JObj gc) ''candidateCount'') = (None, False)"
    "as_i64 (jidx (JObj gc) ''seed'') = None"
    using assms(1,2)
    by (cases "req_max_tokens req"; cases "req_temperature req"; cases "req_top_p req"; cases "ext_top_k (req_ext req)";
        simp add: g small_number_def)+
  show ?thesis
  proof (cases "gc = []")
    case True
    then have "req_max_tokens req = None" "req_temperature req = None" "req_top_p req = None" "req_stop req = None"
      "ext_top_k (req_ext req) = None" "req_response_format req = None"
      using g rf by (simp_all add: gem_response_format_def)
    with True show ?thesis by (simp add: gem_config_opt_def gc_def default_request_def default_ext_def)
  next
    case False
    have "\<exists>c'. gem_generation_config (JObj gc) (default_request\<lparr>req_messages := msgs\<rparr>) c =
      (default_request\<lparr>req_messages := msgs, req_max_tokens := req_max_tokens req,
         req_temperature := req_temperature req, req_top_p := req_top_p req, req_stop := req_stop req,
         req_response_format := req_response_format req,
         req_ext := default_ext\<lparr>ext_top_k := ext_top_k (req_ext req)\<rparr>\<rparr>, c')"
      unfolding gem_generation_config_def nums rf Let_def
      by (cases "req_stop req") (simp_all add: g or_else_def default_request_def default_ext_def split: option.splits)
    with False show ?thesis by (simp add: gem_config_opt_def gc_def)
  qed
qed

lemma gem_request_back:
  assumes ok: "gem_request_ok js req" and json: "gem_request_from_ir js req ctx = (Inr v, ctx')"
  shows "\<exists>r c'. gem_request_to_ir js v c = (Inr r, c') \<and> gem_same_request r req \<and> req_n r = None \<and> req_seed r = None"
proof -
  define ms where "ms = filter (\<lambda>m. msg_role m \<noteq> RoleSystem) (req_messages req)"
  obtain sys c1 where sys: "map_ctx system_msg_to_parts (filter (\<lambda>m. msg_role m = RoleSystem) (req_messages req))
      (gem_degrade_request req ctx) = (sys, c1)" by force
  obtain vs c2 where vs: "filter_map_ctx (gem_message_to_content js) ms c1 = (vs, c2)" by force
  define t where "t = gem_system_text (req_messages req)"
  have read: "parts_read (concat sys) t" unfolding t_def gem_system_text_def by (rule system_messages_read [OF sys])
  define fs where "fs =
     [(''systemInstruction'', if concat sys = [] then None else Some (json_obj [(''parts'', JArr (concat sys))])),
      (''contents'', if vs = [] then None else Some (JArr vs)),
      (''generationConfig'', if gem_config_json req = [] then None else Some (JObj (gem_config_json req))),
      (''tools'', if req_tools req = [] then None
         else Some (JArr [json_obj [(''functionDeclarations'', JArr (map gem_tool_to_json (req_tools req)))]]))]"
  define W where "W = obj_insert_fields fs (req_extra req)"
  have extra: "extra_ok [''model'', ''systemInstruction'', ''contents'', ''generationConfig'', ''tools''] (req_extra req)"
    using ok by (simp add: gem_request_ok_def)
  then have "obj_ok (req_extra req)" "obj_get ''model'' (req_extra req) = None"
    by (auto simp: extra_ok_def obj_get_None list_all_iff)
  then have no_model: "obj_remove ''model'' (req_extra req) = req_extra req" by (rule obj_remove_None)
  have v: "v = JObj W"
    using json sys vs by (simp add: gem_request_from_ir_def no_model W_def fs_def ms_def Let_def)
  have "set (map fst fs) \<subseteq> set [''model'', ''systemInstruction'', ''contents'', ''generationConfig'', ''tools'']"
    and dist: "distinct (map fst fs)" by (simp_all add: fs_def)
  note p = printed_get(1) [OF extra this]
  have g: "obj_get ''systemInstruction'' W =
      (if concat sys = [] then None else Some (json_obj [(''parts'', JArr (concat sys))]))"
    "obj_get ''contents'' W = (if vs = [] then None else Some (JArr vs))"
    "obj_get ''generationConfig'' W =
      (if gem_config_json req = [] then None else Some (JObj (gem_config_json req)))"
    "obj_get ''tools'' W = (if req_tools req = [] then None
       else Some (JArr [json_obj [(''functionDeclarations'', JArr (map gem_tool_to_json (req_tools req)))]]))"
    unfolding W_def by (subst p, simp, simp add: fs_def)+
  have W_ok: "obj_ok W" unfolding W_def using extra by (intro obj_ok_fields) (simp add: extra_ok_def)
  define sysmsg where "sysmsg = (if t = [] then []
     else [default_message\<lparr>msg_role := RoleSystem, msg_content := Some (ContentText t)\<rparr>])"
  have head: "gem_system_messages v c = (sysmsg, c)"
    using read by (auto simp: gem_system_messages_def v g parts_read_def collect_system_text_def sysmsg_def)
  have turns: "list_all (\<lambda>m. msg_role m \<noteq> RoleSystem \<and> gem_turn_ok js m) ms"
    using ok by (auto simp: ms_def gem_request_ok_def list_all_iff)
  obtain new ids' d' where new: "gem_parse_contents js vs (sysmsg, (\<lambda>_. []), c) = (Inr (), sysmsg @ new, ids', d')"
    "map without_ids new = map without_ids ms"
    using gem_turns_back [OF turns vs] by blast
  have msgs: "\<exists>d. gem_messages js v c = (Inr (sysmsg @ new), d)"
    unfolding gem_messages_def v jget.simps g head [unfolded v] using new(1) by (cases "vs = []") simp_all
  then obtain d where d: "gem_messages js v c = (Inr (sysmsg @ new), d)" by blast
  obtain r1 d2 where r1: "gem_config_opt (jget ''generationConfig'' v)
      (default_request\<lparr>req_messages := sysmsg @ new\<rparr>) d = (r1, d2)"
    "r1 = default_request\<lparr>req_messages := sysmsg @ new, req_max_tokens := req_max_tokens req,
       req_temperature := req_temperature req, req_top_p := req_top_p req, req_stop := req_stop req,
       req_response_format := req_response_format req,
       req_ext := default_ext\<lparr>ext_top_k := ext_top_k (req_ext req)\<rparr>\<rparr>"
    using gem_config_back [of req "sysmsg @ new" d] ok by (auto simp: gem_request_ok_def v g)
  have tools: "gem_tools_opt (jget ''tools'' v) d2 = (Inr (req_tools req), d2)"
    by (simp add: v g gem_tools_opt_def gem_tools_back)
  define X where "X = obj_collect (\<lambda>k. k \<notin> set gem_known_request_fields) W
     (obj_insert_opt ''safetySettings'' (jget ''safetySettings'' v) [])"
  have X: "X = req_extra req"
  proof (rule obj_ext)
    show "obj_ok X" unfolding X_def by (intro obj_ok_collect obj_ok_insert_opt obj_ok_Nil)
    show "obj_ok (req_extra req)" using extra by (simp add: extra_ok_def)
    fix k
    have X_get: "obj_get j X = (if j \<notin> set gem_known_request_fields \<and> obj_get j W \<noteq> None then obj_get j W
        else if j = ''safetySettings'' then obj_get j W else None)" for j
      unfolding X_def v by (simp add: obj_get_collect [OF W_ok] obj_lookup)
    have known: "set gem_known_request_fields = insert ''safetySettings'' (set (map fst fs))"
      by (auto simp: gem_known_request_fields_def fs_def)
    have safety: "''safetySettings'' \<notin> set (map fst fs)" by (simp add: fs_def)
    show "obj_get k X = obj_get k (req_extra req)"
    proof (cases "k \<in> set (map fst fs)")
      case True
      then have "k \<in> {''systemInstruction'', ''contents'', ''generationConfig'', ''tools''}" by (simp add: fs_def)
      then have "obj_get k (req_extra req) = None" using extra by (auto simp: extra_ok_def obj_get_None list_all_iff)
      moreover have "k \<noteq> ''safetySettings''" using True safety by metis
      ultimately show ?thesis using True by (simp add: X_get known)
    next
      case False
      then have "map_of fs k = None" by (simp add: map_of_eq_None_iff)
      then have "obj_get k W = obj_get k (req_extra req)" using dist by (simp add: W_def obj_get_fields)
      then show ?thesis using False by (cases "k = ''safetySettings''") (simp_all add: X_get known)
    qed
  qed
  define r where "r = r1\<lparr>req_tools := req_tools req, req_extra := X\<rparr>"
  have "gem_request_to_ir js v c = (Inr r, d2)"
    unfolding gem_request_to_ir_def d r1(1) tools sum.case prod.case Let_def by (simp add: v r_def X_def)
  moreover have "filter (\<lambda>m. msg_role m \<noteq> RoleSystem) (sysmsg @ new) = new" "gem_system_text (sysmsg @ new) = t"
  proof -
    have "\<forall>m \<in> set new. msg_role m \<noteq> RoleSystem"
    proof
      fix m assume "m \<in> set new"
      then have "without_ids m \<in> set (map without_ids ms)" unfolding new(2) [symmetric] by simp
      then obtain m' where "m' \<in> set ms" "without_ids m = without_ids m'" by auto
      from arg_cong [OF this(2), of msg_role] this(1) show "msg_role m \<noteq> RoleSystem"
        by (simp add: without_ids_def ms_def)
    qed
    then have none: "filter (\<lambda>m. msg_role m = RoleSystem) new = []" and "filter (\<lambda>m. msg_role m \<noteq> RoleSystem) new = new"
      by (auto simp: filter_empty_conv)
    then show "filter (\<lambda>m. msg_role m \<noteq> RoleSystem) (sysmsg @ new) = new" by (simp add: sysmsg_def)
    from none show "gem_system_text (sysmsg @ new) = t"
      by (auto simp: gem_system_text_def sysmsg_def message_text_def)
  qed
  then have "gem_same_request r req" "req_n r = None" "req_seed r = None"
    using new(2) X by (simp_all add: gem_same_request_def r_def r1(2) t_def ms_def default_request_def)
  ultimately show ?thesis by blast
qed

section \<open>Properties\<close>

text \<open>
  C15: a response that fits the Gemini form (\<open>gem_response_ok\<close>) is written by \<open>response_from_ir\<close> and read
  back by \<open>response_to_ir\<close> unchanged: text, images, thoughts, calls with their made up ids, usage
  with cached and thinking tokens, the finish reason and unknown fields. Nothing is logged.
\<close>

theorem gem_response_roundtrip:
  assumes "gem_response_ok js r"
  shows "\<exists>v. gem_response_from_ir js r ctx = (Inr v, ctx) \<and> gem_response_to_ir js v c = (Inr r, c)"
proof -
  obtain v ctx' where v: "gem_response_from_ir js r ctx = (Inr v, ctx')"
    by (simp add: gem_response_from_ir_def Let_def split_def)
  from gem_response_back [OF assms v] v show ?thesis by auto
qed

definition gem_sample_response :: ir_response where
  "gem_sample_response = default_response
     \<lparr>rsp_choices := [\<lparr>cho_index = 0,
        cho_message = default_message
          \<lparr>msg_role := RoleAssistant, msg_content := Some (ContentText ''hi''),
           msg_reasoning_content := Some ''so''\<rparr>,
        cho_finish_reason = Some ''stop''\<rparr>],
      rsp_usage := Some (default_usage\<lparr>us_prompt_tokens := 3, us_cache_read_tokens := Some 4\<rparr>),
      rsp_extra := [(''gemini_finish_reason'', JStr ''STOP'')]\<rparr>"

lemma gem_response_roundtrip_witness:
  "\<exists>v. gem_response_from_ir \<lparr>to_text = (\<lambda>_. []), from_text = (\<lambda>_. Inl [])\<rparr> gem_sample_response [] = (Inr v, []) \<and>
    gem_response_to_ir \<lparr>to_text = (\<lambda>_. []), from_text = (\<lambda>_. Inl [])\<rparr> v [] = (Inr gem_sample_response, [])"
proof (rule gem_response_roundtrip)
  have "gem_content_ok gem_media_ok (Some (ContentText ''hi''))"
    unfolding gem_content_ok_def by (intro exI [of _ "[''hi'']"] exI [of _ "[]"]) (simp add: gem_content_of_def)
  moreover have "normalize_finish_reason ''STOP'' = ''stop''" by code_simp
  ultimately show "gem_response_ok \<lparr>to_text = (\<lambda>_. []), from_text = (\<lambda>_. Inl [])\<rparr> gem_sample_response"
    by (simp add: gem_response_ok_def gem_sample_response_def gem_answer_ok_def default_message_def
        default_response_def default_usage_def gem_usage_ok_def gem_thoughts_ok_def extra_ok_def
        gem_reverse_finish_reason_def obj_ok_def obj_keys_def)
qed


text \<open>A library that prints every value as \<open>[]\<close> and reads every text as the empty array.\<close>

definition array_text :: json_text where
  "array_text = \<lparr>to_text = (\<lambda>_. ''[]''), from_text = (\<lambda>_. Inr (JArr []))\<rparr>"

definition gem_sample_request :: ir_request where
  "gem_sample_request = default_request
     \<lparr>req_n := Some 2,
      req_messages :=
        [default_message\<lparr>msg_role := RoleSystem, msg_content := Some (ContentText ''be brief'')\<rparr>,
         default_message\<lparr>msg_content := Some (ContentText ''hi'')\<rparr>,
         default_message\<lparr>msg_role := RoleAssistant,
           msg_tool_calls := [\<lparr>tc_id = ''t'', tc_name = ''f'', tc_arguments = ''[]''\<rparr>]\<rparr>,
         default_message\<lparr>msg_role := RoleTool, msg_name := Some ''f'', msg_tool_call_id := Some ''t'',
           msg_content := Some (ContentText ''[]'')\<rparr>]\<rparr>"


end
