(* ===== verification/AnthropicStream.thy ===== *)
theory AnthropicStream
  imports Anthropic
begin

text \<open>
  The stream half of \<open>src/protocol/anthropic.rs\<close>: Anthropic events to IR chunks
  (\<open>anth_chunk_to_ir\<close>), IR chunks to Anthropic events (\<open>anth_chunk_from_ir\<close>,
  \<open>anth_stream_end\<close>, \<open>mark_failed\<close>), and the event discipline a client of the Messages stream
  relies on (\<open>client_step\<close>), with the proof that the emitted events obey it.
\<close>

section \<open>State\<close>

datatype open_block = OpenText u32 | OpenThinking u32 | OpenTool u32

record anth_stream =
  st_id :: string
  st_model :: string
  st_usage :: ir_usage
  st_block_to_tool :: "u64 \<Rightarrow> u32 option"
  st_next_tool_index :: u32
  st_start_emitted :: bool
  st_stop_emitted :: bool
  st_delta_emitted :: bool
  st_next_block_index :: u32
  st_open_block :: "open_block option"
  st_tool_block_of :: "u32 \<Rightarrow> u32 option"
  st_tool_meta :: "u32 \<Rightarrow> (string \<times> string) option"
  st_pending_finish :: "string option"

definition anth_stream_new :: anth_stream where
  "anth_stream_new =
     \<lparr>st_id = [], st_model = [], st_usage = default_usage, st_block_to_tool = (\<lambda>_. None),
      st_next_tool_index = 0, st_start_emitted = False, st_stop_emitted = False,
      st_delta_emitted = False, st_next_block_index = 0, st_open_block = None,
      st_tool_block_of = (\<lambda>_. None), st_tool_meta = (\<lambda>_. None), st_pending_finish = None\<rparr>"

section \<open>Anthropic events to IR chunks\<close>

definition anth_chunk :: "anth_stream \<Rightarrow> ir_delta \<Rightarrow> string option \<Rightarrow> ir_usage option \<Rightarrow> ir_chunk" where
  "anth_chunk st delta fr usage =
     default_chunk\<lparr>chk_id := st_id st, chk_model := st_model st,
       chk_choices := [\<lparr>cc_index = 0, cc_delta = delta, cc_finish_reason = fr\<rparr>],
       chk_usage := usage\<rparr>"

type_synonym anth_in = "(convert_error + ir_chunk option) \<times> anth_stream \<times> conv_ctx"

definition in_message_start :: "json \<Rightarrow> anth_stream \<Rightarrow> conv_ctx \<Rightarrow> anth_in" where
  "in_message_start v st ctx =
     (let msg = jidx v ''message'';
          st1 = st\<lparr>st_id := str_or_empty (jidx msg ''id''),
                   st_model := str_or_empty (jidx msg ''model'')\<rparr>;
          st2 = (case jget ''usage'' msg of
                   None \<Rightarrow> st1 | Some u \<Rightarrow> st1\<lparr>st_usage := anth_parse_usage u\<rparr>)
      in (Inr (Some (anth_chunk st2 (default_delta\<lparr>dl_role := Some RoleAssistant\<rparr>) None None)),
          st2, ctx))"

definition in_block_start :: "json \<Rightarrow> anth_stream \<Rightarrow> conv_ctx \<Rightarrow> anth_in" where
  "in_block_start v st ctx =
     (let idx = unwrap_or 0 (as_u64 (jidx v ''index''));
          bt = str_or_empty (jidx (jidx v ''content_block'') ''type'')
      in if bt = ''text'' \<or> bt = ''thinking'' then (Inr None, st, ctx)
         else if bt = ''tool_use'' then
           (let tool_idx = st_next_tool_index st;
                st' = st\<lparr>st_next_tool_index := tool_idx + 1,
                         st_block_to_tool := (st_block_to_tool st)(idx \<mapsto> tool_idx)\<rparr>;
                delta = default_delta\<lparr>dl_tool_calls :=
                  [\<lparr>tcd_index = tool_idx,
                    tcd_id = as_str (jidx (jidx v ''content_block'') ''id''),
                    tcd_name = as_str (jidx (jidx v ''content_block'') ''name''),
                    tcd_arguments = None\<rparr>]\<rparr>
            in (Inr (Some (anth_chunk st' delta None None)), st', ctx))
         else
           (Inr None, st,
            degrade ''stream.content_block_start.type'' (''unknown content block type: '' @ bt) ctx))"

definition in_block_delta :: "json \<Rightarrow> anth_stream \<Rightarrow> conv_ctx \<Rightarrow> anth_in" where
  "in_block_delta v st ctx =
     (let idx = unwrap_or 0 (as_u64 (jidx v ''index''));
          d = jidx v ''delta'';
          dt = str_or_empty (jidx d ''type'')
      in if dt = ''text_delta'' then
           (Inr (Some (anth_chunk st
              (default_delta\<lparr>dl_content := Some (str_or_empty (jidx d ''text''))\<rparr>) None None)),
            st, ctx)
         else if dt = ''thinking_delta'' then
           (Inr (Some (anth_chunk st
              (default_delta\<lparr>dl_reasoning_content := Some (str_or_empty (jidx d ''thinking''))\<rparr>)
              None None)),
            st, ctx)
         else if dt = ''input_json_delta'' then
           (case st_block_to_tool st idx of
              None \<Rightarrow>
                (Inr None, st,
                 degrade ''stream.content_block_delta''
                   ''content block index not registered, tool delta dropped'' ctx)
            | Some tool_idx \<Rightarrow>
                (Inr (Some (anth_chunk st
                   (default_delta\<lparr>dl_tool_calls :=
                      [\<lparr>tcd_index = tool_idx, tcd_id = None, tcd_name = None,
                        tcd_arguments = Some (str_or_empty (jidx d ''partial_json''))\<rparr>]\<rparr>)
                   None None)),
                 st, ctx))
         else
           (Inr None, st,
            degrade ''stream.content_block_delta.type'' (''unknown delta type: '' @ dt) ctx))"

definition in_block_stop :: "json \<Rightarrow> anth_stream \<Rightarrow> conv_ctx \<Rightarrow> anth_in" where
  "in_block_stop v st ctx =
     (Inr None,
      (case as_u64 (jidx v ''index'') of
         None \<Rightarrow> st
       | Some idx \<Rightarrow> st\<lparr>st_block_to_tool := (st_block_to_tool st)(idx := None)\<rparr>),
      ctx)"

definition in_message_delta :: "json \<Rightarrow> anth_stream \<Rightarrow> conv_ctx \<Rightarrow> anth_in" where
  "in_message_delta v st ctx =
     (let us = st_usage st;
          us' = (case jget ''usage'' v of
                   None \<Rightarrow> us
                 | Some u \<Rightarrow>
                     us\<lparr>us_completion_tokens :=
                          max (us_completion_tokens us)
                            (unwrap_or 0 (as_u64 (jidx u ''output_tokens''))),
                        us_cache_read_tokens :=
                          or_else (as_u64 (jidx u ''cache_read_input_tokens''))
                            (us_cache_read_tokens us),
                        us_cache_write_tokens :=
                          or_else (as_u64 (jidx u ''cache_creation_input_tokens''))
                            (us_cache_write_tokens us)\<rparr>);
          st' = st\<lparr>st_usage := us'\<rparr>
      in (Inr (Some (anth_chunk st' default_delta
            (map_option normalize_finish_reason
              (as_str (jidx (jidx v ''delta'') ''stop_reason'')))
            (Some us'))),
          st', ctx))"

definition in_error :: "json \<Rightarrow> anth_stream \<Rightarrow> conv_ctx \<Rightarrow> anth_in" where
  "in_error v st ctx =
     (let msg = unwrap_or ''unknown error'' (as_str (jidx (jidx v ''error'') ''message''))
      in (Inr (Some (anth_chunk st default_delta (Some ''failed'') (Some (st_usage st)))), st,
          degrade ''stream.error'' (''Anthropic stream error: '' @ msg) ctx))"

definition anth_event_to_ir :: "json \<Rightarrow> anth_stream \<Rightarrow> conv_ctx \<Rightarrow> anth_in" where
  "anth_event_to_ir v st ctx =
     (if \<not> is_object v then (Inl (ParseError ''chunk is not an object''), st, ctx)
      else
        (let etype = str_or_empty (jidx v ''type'')
         in if etype = ''message_start'' then in_message_start v st ctx
            else if etype = ''content_block_start'' then in_block_start v st ctx
            else if etype = ''content_block_delta'' then in_block_delta v st ctx
            else if etype = ''content_block_stop'' then in_block_stop v st ctx
            else if etype = ''message_delta'' then in_message_delta v st ctx
            else if etype = ''message_stop'' then (Inr None, st\<lparr>st_stop_emitted := True\<rparr>, ctx)
            else if etype = ''ping'' then (Inr None, st, ctx)
            else if etype = ''error'' then in_error v st ctx
            else (Inr None, st, degrade ''stream.event.type'' (''unknown event: '' @ etype) ctx)))"

definition anth_chunk_to_ir ::
  "json_text \<Rightarrow> string \<Rightarrow> anth_stream \<Rightarrow> conv_ctx \<Rightarrow> anth_in" where
  "anth_chunk_to_ir js data st ctx =
     (case from_text js data of
        Inl e \<Rightarrow> (Inl (ParseError e), st, ctx)
      | Inr v \<Rightarrow> anth_event_to_ir v st ctx)"

section \<open>IR chunks to Anthropic events\<close>

subsection \<open>The events\<close>

definition start_usage :: "ir_usage \<Rightarrow> json" where
  "start_usage u =
     JObj (obj_insert_fields
       [(''input_tokens'', Some (json_u64 (us_prompt_tokens u))),
        (''output_tokens'', Some (json_u64 (us_completion_tokens u))),
        (''cache_read_input_tokens'', map_option json_u64 (us_cache_read_tokens u)),
        (''cache_creation_input_tokens'', map_option json_u64 (us_cache_write_tokens u))] [])"

definition message_start_event :: "anth_stream \<Rightarrow> json" where
  "message_start_event st =
     json_obj
       [(''type'', JStr ''message_start''),
        (''message'', json_obj
           [(''id'', JStr (st_id st)), (''type'', JStr ''message''), (''role'', JStr ''assistant''),
            (''model'', JStr (st_model st)), (''content'', JArr []),
            (''usage'', start_usage (st_usage st)), (''stop_reason'', JNull),
            (''stop_sequence'', JNull)])]"

definition block_event :: "string \<Rightarrow> u32 \<Rightarrow> string \<Rightarrow> json \<Rightarrow> json" where
  "block_event ty idx k v =
     json_obj [(''type'', JStr ty), (''index'', json_u32 idx), (k, v)]"

definition content_block_start_text :: "u32 \<Rightarrow> json" where
  "content_block_start_text idx =
     block_event ''content_block_start'' idx ''content_block''
       (json_obj [(''type'', JStr ''text''), (''text'', JStr [])])"

definition content_block_delta_text :: "u32 \<Rightarrow> string \<Rightarrow> json" where
  "content_block_delta_text idx text =
     block_event ''content_block_delta'' idx ''delta''
       (json_obj [(''type'', JStr ''text_delta''), (''text'', JStr text)])"

definition content_block_start_thinking :: "u32 \<Rightarrow> json" where
  "content_block_start_thinking idx =
     block_event ''content_block_start'' idx ''content_block''
       (json_obj [(''type'', JStr ''thinking''), (''thinking'', JStr []), (''signature'', JStr [])])"

definition content_block_delta_thinking :: "u32 \<Rightarrow> string \<Rightarrow> json" where
  "content_block_delta_thinking idx thinking =
     block_event ''content_block_delta'' idx ''delta''
       (json_obj [(''type'', JStr ''thinking_delta''), (''thinking'', JStr thinking)])"

definition content_block_start_tool_use :: "u32 \<Rightarrow> ir_tool_call_delta \<Rightarrow> json" where
  "content_block_start_tool_use idx tc =
     block_event ''content_block_start'' idx ''content_block''
       (json_obj
         [(''type'', JStr ''tool_use''), (''id'', JStr (unwrap_or [] (tcd_id tc))),
          (''name'', JStr (unwrap_or [] (tcd_name tc))), (''input'', JObj [])])"

definition content_block_delta_input_json :: "u32 \<Rightarrow> ir_tool_call_delta \<Rightarrow> json" where
  "content_block_delta_input_json idx tc =
     block_event ''content_block_delta'' idx ''delta''
       (json_obj
         [(''type'', JStr ''input_json_delta''),
          (''partial_json'', JStr (unwrap_or [] (tcd_arguments tc)))])"

definition content_block_stop :: "u32 \<Rightarrow> json" where
  "content_block_stop idx =
     json_obj [(''type'', JStr ''content_block_stop''), (''index'', json_u32 idx)]"

definition message_delta_event :: "string \<Rightarrow> anth_stream \<Rightarrow> json" where
  "message_delta_event fr st =
     json_obj
       [(''type'', JStr ''message_delta''),
        (''delta'', json_obj
           [(''stop_reason'', JStr (reverse_finish_reason fr)), (''stop_sequence'', JNull)]),
        (''usage'', start_usage (st_usage st))]"

definition message_delta_end_event :: "anth_stream \<Rightarrow> json" where
  "message_delta_end_event st =
     json_obj
       [(''type'', JStr ''message_delta''),
        (''delta'', json_obj [(''stop_reason'', JNull), (''stop_sequence'', JNull)]),
        (''usage'', json_obj
           [(''output_tokens'', json_u64 (us_completion_tokens (st_usage st)))])]"

definition message_stop_event :: json where
  "message_stop_event = json_obj [(''type'', JStr ''message_stop'')]"

subsection \<open>The steps of \<open>chunk_from_ir\<close>\<close>

text \<open>Each step takes the state and gives the events it appends with the new state.\<close>

fun block_index :: "open_block \<Rightarrow> u32" where
  "block_index (OpenText i) = i"
| "block_index (OpenThinking i) = i"
| "block_index (OpenTool i) = i"

definition close_open_block :: "anth_stream \<Rightarrow> json list \<times> anth_stream" where
  "close_open_block st =
     (case st_open_block st of
        None \<Rightarrow> ([], st)
      | Some b \<Rightarrow> ([content_block_stop (block_index b)], st\<lparr>st_open_block := None\<rparr>))"

text \<open>Closing what is open and taking the next index for a new block.\<close>

definition open_new_block ::
  "(u32 \<Rightarrow> open_block) \<Rightarrow> anth_stream \<Rightarrow> json list \<times> u32 \<times> anth_stream" where
  "open_new_block kind st =
     (let (evs, st1) = close_open_block st; idx = st_next_block_index st1
      in (evs, idx, st1\<lparr>st_next_block_index := idx + 1, st_open_block := Some (kind idx)\<rparr>))"

definition out_start :: "ir_chunk \<Rightarrow> anth_stream \<Rightarrow> json list \<times> anth_stream" where
  "out_start chunk st =
     (if st_start_emitted st then ([], st)
      else
        (let st1 = st\<lparr>st_start_emitted := True, st_id := chk_id chunk, st_model := chk_model chunk\<rparr>;
             st2 = (case chk_usage chunk of
                      None \<Rightarrow> st1
                    | Some u \<Rightarrow>
                        st1\<lparr>st_usage := (st_usage st1)
                              \<lparr>us_prompt_tokens := us_prompt_tokens u,
                               us_cache_read_tokens := us_cache_read_tokens u,
                               us_cache_write_tokens := us_cache_write_tokens u\<rparr>\<rparr>)
         in ([message_start_event st2], st2)))"

definition out_text :: "string option \<Rightarrow> anth_stream \<Rightarrow> json list \<times> anth_stream" where
  "out_text content st =
     (case content of
        None \<Rightarrow> ([], st)
      | Some text \<Rightarrow>
          (case st_open_block st of
             Some (OpenText idx) \<Rightarrow> ([content_block_delta_text idx text], st)
           | _ \<Rightarrow>
               (let (evs, idx, st') = open_new_block OpenText st
                in (evs @ [content_block_start_text idx, content_block_delta_text idx text], st'))))"

definition out_thinking :: "string option \<Rightarrow> anth_stream \<Rightarrow> json list \<times> anth_stream" where
  "out_thinking reasoning st =
     (case reasoning of
        None \<Rightarrow> ([], st)
      | Some rc \<Rightarrow>
          (case st_open_block st of
             Some (OpenThinking idx) \<Rightarrow> ([content_block_delta_thinking idx rc], st)
           | _ \<Rightarrow>
               (let (evs, idx, st') = open_new_block OpenThinking st
                in (evs @ [content_block_start_thinking idx, content_block_delta_thinking idx rc],
                    st'))))"

definition merge_tool_meta :: "ir_tool_call_delta \<Rightarrow> anth_stream \<Rightarrow> anth_stream" where
  "merge_tool_meta tc st =
     (let (id, name) = unwrap_or ([], []) (st_tool_meta st (tcd_index tc))
      in st\<lparr>st_tool_meta := (st_tool_meta st)
              (tcd_index tc \<mapsto> (unwrap_or id (tcd_id tc), unwrap_or name (tcd_name tc)))\<rparr>)"

definition nonempty :: "string \<Rightarrow> string option" where
  "nonempty s = (if s = [] then None else Some s)"

definition out_tool ::
  "ir_tool_call_delta \<Rightarrow> anth_stream \<times> conv_ctx \<Rightarrow> json list \<times> anth_stream \<times> conv_ctx" where
  "out_tool tc c =
     (let (st, ctx) = c;
          st1 = merge_tool_meta tc st;
          existed = st_tool_block_of st1 (tcd_index tc)
      in if existed \<noteq> None \<and> st_open_block st1 = map_option OpenTool existed
         then ([content_block_delta_input_json (the existed) tc], st1, ctx)
         else
           (let (evs, b, st2) = open_new_block OpenTool st1;
                ctx' = (if existed \<noteq> None
                        then degrade ''stream.tool_calls''
                               ''interleaved deltas of parallel tool calls, split into several tool_use blocks''
                               ctx
                        else ctx);
                st3 = st2\<lparr>st_tool_block_of := (st_tool_block_of st2)(tcd_index tc \<mapsto> b)\<rparr>;
                (id, name) = unwrap_or ([], []) (st_tool_meta st3 (tcd_index tc));
                tc_full = \<lparr>tcd_index = tcd_index tc,
                           tcd_id = or_else (tcd_id tc) (nonempty id),
                           tcd_name = or_else (tcd_name tc) (nonempty name),
                           tcd_arguments = tcd_arguments tc\<rparr>
            in (evs @ [content_block_start_tool_use b tc_full, content_block_delta_input_json b tc],
                st3, ctx')))"

fun out_tools ::
  "ir_tool_call_delta list \<Rightarrow> anth_stream \<times> conv_ctx \<Rightarrow> json list \<times> anth_stream \<times> conv_ctx" where
  "out_tools [] (st, ctx) = ([], st, ctx)"
| "out_tools (tc # tcs) (st, ctx) =
     (let (evs, st1, ctx1) = out_tool tc (st, ctx);
          (evs', st2, ctx2) = out_tools tcs (st1, ctx1)
      in (evs @ evs', st2, ctx2))"

definition merge_usage :: "ir_usage option \<Rightarrow> anth_stream \<Rightarrow> anth_stream" where
  "merge_usage usage st =
     (case usage of
        None \<Rightarrow> st
      | Some u \<Rightarrow>
          st\<lparr>st_usage := (st_usage st)
               \<lparr>us_prompt_tokens := us_prompt_tokens u,
                us_completion_tokens :=
                  max (us_completion_tokens (st_usage st)) (us_completion_tokens u),
                us_cache_read_tokens :=
                  or_else (us_cache_read_tokens u) (us_cache_read_tokens (st_usage st)),
                us_cache_write_tokens :=
                  or_else (us_cache_write_tokens u) (us_cache_write_tokens (st_usage st))\<rparr>\<rparr>)"

definition out_finish ::
  "string option \<Rightarrow> ir_usage option \<Rightarrow> anth_stream \<Rightarrow> json list \<times> anth_stream" where
  "out_finish finish_reason usage st =
     (case finish_reason of
        Some fr \<Rightarrow>
          (let (evs, st1) = close_open_block st
           in if fr = ''failed'' then
                (evs @ [message_delta_end_event st1], st1\<lparr>st_delta_emitted := True\<rparr>)
              else if usage \<noteq> None then
                (evs @ [message_delta_event fr st1], st1\<lparr>st_delta_emitted := True\<rparr>)
              else (evs, st1\<lparr>st_pending_finish := Some fr\<rparr>))
      | None \<Rightarrow>
          if st_pending_finish st \<noteq> None \<and> usage \<noteq> None \<and> \<not> st_delta_emitted st then
            (let fr = unwrap_or [] (st_pending_finish st); st1 = st\<lparr>st_pending_finish := None\<rparr>
             in ([message_delta_event fr st1], st1\<lparr>st_delta_emitted := True\<rparr>))
          else ([], st))"

definition anth_chunk_events ::
  "ir_chunk \<Rightarrow> anth_stream \<Rightarrow> conv_ctx \<Rightarrow> json list \<times> anth_stream \<times> conv_ctx" where
  "anth_chunk_events chunk st ctx =
     (let (evs1, st1) = out_start chunk st;
          (delta, finish_reason) =
            (case chk_choices chunk of
               c # _ \<Rightarrow> (cc_delta c, cc_finish_reason c) | [] \<Rightarrow> (default_delta, None));
          (evs2, st2) = out_text (dl_content delta) st1;
          (evs3, st3) = out_thinking (dl_reasoning_content delta) st2;
          (evs4, st4, ctx') = out_tools (dl_tool_calls delta) (st3, ctx);
          (evs5, st5) = out_finish finish_reason (chk_usage chunk) (merge_usage (chk_usage chunk) st4)
      in (evs1 @ evs2 @ evs3 @ evs4 @ evs5, st5, ctx'))"

definition anth_chunk_from_ir ::
  "json_text \<Rightarrow> ir_chunk \<Rightarrow> anth_stream \<Rightarrow> conv_ctx \<Rightarrow>
   (convert_error + string list) \<times> anth_stream \<times> conv_ctx" where
  "anth_chunk_from_ir js chunk st ctx =
     (let (evs, st', ctx') = anth_chunk_events chunk st ctx
      in (Inr (map (to_text js) evs), st', ctx'))"

definition anth_mark_failed :: "anth_stream \<Rightarrow> anth_stream" where
  "anth_mark_failed st =
     (if st_delta_emitted st then st else st\<lparr>st_pending_finish := Some ''failed''\<rparr>)"

definition anth_end_events :: "anth_stream \<Rightarrow> json list \<times> anth_stream" where
  "anth_end_events st =
     (let (evs1, st1) = close_open_block st;
          (evs2, st2) =
            (if st_start_emitted st1 \<and> \<not> st_delta_emitted st1 then
               (let st' = st1\<lparr>st_pending_finish := None\<rparr>
                in ([case st_pending_finish st1 of
                       Some fr \<Rightarrow>
                         if fr = ''failed'' then message_delta_end_event st'
                         else message_delta_event fr st'
                     | None \<Rightarrow> message_delta_end_event st'],
                    st'\<lparr>st_delta_emitted := True\<rparr>))
             else ([], st1))
      in if st_start_emitted st2 \<and> \<not> st_stop_emitted st2
         then (evs1 @ evs2 @ [message_stop_event], st2\<lparr>st_stop_emitted := True\<rparr>)
         else (evs1 @ evs2, st2))"

definition anth_stream_end ::
  "json_text \<Rightarrow> anth_stream \<Rightarrow> (convert_error + string list) \<times> anth_stream" where
  "anth_stream_end js st =
     (let (evs, st') = anth_end_events st in (Inr (map (to_text js) evs), st'))"

end
