(* ===== verification/AnthropicClient.thy ===== *)
theory AnthropicClient
  imports AnthropicStream Channels
begin

text \<open>
  What a client of the Messages stream relies on, as an automaton over the JSON events, and the
  proof that the events of \<open>chunk_from_ir\<close> and \<open>stream_end\<close> are accepted: blocks are numbered
  0, 1, 2, \<dots>, at most one is open, a delta belongs to the open block and has its type, and the
  stream ends with one \<open>message_delta\<close> and \<open>message_stop\<close>.
\<close>

section \<open>The client\<close>

record client =
  cl_started :: bool
  cl_stopped :: bool
  cl_delta_seen :: bool
  cl_next :: u32
  cl_open :: "(u32 \<times> string) option" \<comment> \<open>index and type of the open block\<close>

definition client_new :: client where
  "client_new = \<lparr>cl_started = False, cl_stopped = False, cl_delta_seen = False, cl_next = 0,
                 cl_open = None\<rparr>"

definition event_index :: "json \<Rightarrow> u32 option" where
  "event_index v = Option.bind (as_u64 (jidx v ''index'')) u32_try_from"

definition delta_type_of :: "string \<Rightarrow> string option" where
  "delta_type_of block_type =
     (if block_type = ''text'' then Some ''text_delta''
      else if block_type = ''thinking'' then Some ''thinking_delta''
      else if block_type = ''tool_use'' then Some ''input_json_delta''
      else None)"

text \<open>
  With \<open>strict\<close>, the blocks are closed before a \<open>message_delta\<close>, and nothing of the content and
  no second \<open>message_delta\<close> follows it.
\<close>

definition client_step :: "bool \<Rightarrow> json \<Rightarrow> client \<Rightarrow> client option" where
  "client_step strict v c =
     (let ty = str_or_empty (jidx v ''type'');
          live = (cl_started c \<and> \<not> cl_stopped c);
          content = (live \<and> (strict \<longrightarrow> \<not> cl_delta_seen c))
      in if ty = ''message_start'' then
           (if cl_started c then None else Some (c\<lparr>cl_started := True\<rparr>))
         else if ty = ''content_block_start'' then
           (if content \<and> cl_open c = None \<and> event_index v = Some (cl_next c)
            then Some (c\<lparr>cl_next := cl_next c + 1,
                         cl_open := Some (cl_next c,
                           str_or_empty (jidx (jidx v ''content_block'') ''type''))\<rparr>)
            else None)
         else if ty = ''content_block_delta'' then
           (case cl_open c of
              None \<Rightarrow> None
            | Some (idx, bt) \<Rightarrow>
                if content \<and> event_index v = Some idx \<and>
                   as_str (jidx (jidx v ''delta'') ''type'') = delta_type_of bt \<and>
                   delta_type_of bt \<noteq> None
                then Some c else None)
         else if ty = ''content_block_stop'' then
           (case cl_open c of
              None \<Rightarrow> None
            | Some (idx, bt) \<Rightarrow>
                if content \<and> event_index v = Some idx then Some (c\<lparr>cl_open := None\<rparr>) else None)
         else if ty = ''message_delta'' then
           (if content \<and> (strict \<longrightarrow> cl_open c = None)
            then Some (c\<lparr>cl_delta_seen := True\<rparr>) else None)
         else if ty = ''message_stop'' then
           (if live \<and> cl_delta_seen c \<and> cl_open c = None
            then Some (c\<lparr>cl_stopped := True\<rparr>) else None)
         else None)"

section \<open>The converter against the client\<close>

fun block_type :: "open_block \<Rightarrow> string" where
  "block_type (OpenText i) = ''text''"
| "block_type (OpenThinking i) = ''thinking''"
| "block_type (OpenTool i) = ''tool_use''"

text \<open>Where the client stands, read off the converter's state.\<close>

definition client_of :: "anth_stream \<Rightarrow> client" where
  "client_of st =
     \<lparr>cl_started = st_start_emitted st, cl_stopped = st_stop_emitted st,
      cl_delta_seen = st_delta_emitted st, cl_next = st_next_block_index st,
      cl_open = map_option (\<lambda>b. (block_index b, block_type b)) (st_open_block st)\<rparr>"

definition streaming :: "bool \<Rightarrow> anth_stream \<Rightarrow> bool" where
  "streaming strict st \<longleftrightarrow>
     st_start_emitted st \<and> \<not> st_stop_emitted st \<and> (strict \<longrightarrow> \<not> st_delta_emitted st)"

text \<open>The client's answer to each event.\<close>

lemma event_index_block [simp]: "event_index (block_event ty i k v) = Some i"
  if "k \<noteq> ''index''"
  using that by (simp add: event_index_def block_event_def jidx_def)

lemma block_event_fields [simp]:
  "jidx (block_event ty i k v) ''type'' = JStr ty" if "k \<noteq> ''type''"
  using that by (simp add: block_event_def jidx_def)

lemma block_event_payload [simp]: "jidx (block_event ty i k v) k = v"
  if "k \<noteq> ''index''" "k \<noteq> ''type''"
  using that by (simp add: block_event_def jidx_def)

lemma client_start:
  "\<not> cl_started c \<Longrightarrow> client_step s (message_start_event st) c = Some (c\<lparr>cl_started := True\<rparr>)"
  by (simp add: client_step_def message_start_event_def jidx_def Let_def)

lemma client_stop_block:
  "cl_open c = Some (i, bt) \<Longrightarrow> cl_started c \<Longrightarrow> \<not> cl_stopped c \<Longrightarrow> (s \<longrightarrow> \<not> cl_delta_seen c) \<Longrightarrow>
   client_step s (content_block_stop i) c = Some (c\<lparr>cl_open := None\<rparr>)"
  by (simp add: client_step_def content_block_stop_def jidx_def Let_def event_index_def)

lemma client_message_delta:
  "cl_started c \<Longrightarrow> \<not> cl_stopped c \<Longrightarrow> (s \<longrightarrow> \<not> cl_delta_seen c \<and> cl_open c = None) \<Longrightarrow>
   client_step s (message_delta_event fr st) c = Some (c\<lparr>cl_delta_seen := True\<rparr>)"
  "cl_started c \<Longrightarrow> \<not> cl_stopped c \<Longrightarrow> (s \<longrightarrow> \<not> cl_delta_seen c \<and> cl_open c = None) \<Longrightarrow>
   client_step s (message_delta_end_event st) c = Some (c\<lparr>cl_delta_seen := True\<rparr>)"
  by (simp_all add: client_step_def message_delta_event_def message_delta_end_event_def jidx_def
      Let_def)

lemma client_message_stop:
  "cl_open c = None \<Longrightarrow> cl_started c \<Longrightarrow> \<not> cl_stopped c \<Longrightarrow> cl_delta_seen c \<Longrightarrow>
   client_step s message_stop_event c = Some (c\<lparr>cl_stopped := True\<rparr>)"
  by (simp add: client_step_def message_stop_event_def jidx_def Let_def)

lemma client_block_start:
  assumes "cl_open c = None" "cl_started c" "\<not> cl_stopped c" "s \<longrightarrow> \<not> cl_delta_seen c"
    and "as_str (jidx b ''type'') = Some bt"
  shows "client_step s (block_event ''content_block_start'' (cl_next c) ''content_block'' b) c =
    Some (c\<lparr>cl_next := cl_next c + 1, cl_open := Some (cl_next c, bt)\<rparr>)"
  using assms by (simp add: client_step_def Let_def str_or_empty_def)

lemma client_block_delta:
  assumes "cl_open c = Some (i, bt)" "cl_started c" "\<not> cl_stopped c" "s \<longrightarrow> \<not> cl_delta_seen c"
    and "as_str (jidx d ''type'') = delta_type_of bt" "delta_type_of bt \<noteq> None"
  shows "client_step s (block_event ''content_block_delta'' i ''delta'' d) c = Some c"
  using assms by (simp add: client_step_def Let_def)

text \<open>A step of the converter keeps up with the client and stays in the stream.\<close>

definition keeps_up :: "bool \<Rightarrow> anth_stream \<Rightarrow> json list \<Rightarrow> anth_stream \<Rightarrow> bool" where
  "keeps_up s st evs st' \<longleftrightarrow>
     accepts (client_step s) evs (client_of st) = Some (client_of st') \<and> streaming s st' \<and>
     st_delta_emitted st' = st_delta_emitted st \<and> st_pending_finish st' = st_pending_finish st"

lemma keeps_up_refl: "streaming s st \<Longrightarrow> keeps_up s st [] st"
  by (simp add: keeps_up_def)

lemma keeps_up_trans:
  "keeps_up s st evs st1 \<Longrightarrow> keeps_up s st1 evs' st2 \<Longrightarrow> keeps_up s st (evs @ evs') st2"
  by (simp add: keeps_up_def accepts_append)

lemma keeps_up_streaming: "keeps_up s st evs st' \<Longrightarrow> streaming s st'"
  by (simp add: keeps_up_def)

lemma client_of_simps [simp]:
  "cl_started (client_of st) = st_start_emitted st"
  "cl_stopped (client_of st) = st_stop_emitted st"
  "cl_delta_seen (client_of st) = st_delta_emitted st"
  "cl_next (client_of st) = st_next_block_index st"
  "cl_open (client_of st) = map_option (\<lambda>b. (block_index b, block_type b)) (st_open_block st)"
  by (simp_all add: client_of_def)

lemma close_keeps_up:
  assumes "streaming s st" "close_open_block st = (evs, st')"
  shows "keeps_up s st evs st'" "st_open_block st' = None"
    "st_next_block_index st' = st_next_block_index st"
  using assms
  by (auto simp: close_open_block_def keeps_up_def streaming_def client_stop_block client_of_def
      split: option.splits)

lemma open_keeps_up:
  assumes "streaming s st" "open_new_block kind st = (evs, idx, st')"
    and "block_index (kind idx) = idx" "block_type (kind idx) = bt"
    and "as_str (jidx b ''type'') = Some bt"
  shows "keeps_up s st (evs @ [block_event ''content_block_start'' idx ''content_block'' b]) st'"
    "st_open_block st' = Some (kind idx)"
proof -
  obtain st1 where close: "close_open_block st = (evs, st1)"
    and new: "idx = st_next_block_index st1"
      "st' = st1\<lparr>st_next_block_index := idx + 1, st_open_block := Some (kind idx)\<rparr>"
    using assms(2) by (auto simp: open_new_block_def Let_def split: prod.splits)
  note up = close_keeps_up [OF assms(1) close]
  have "keeps_up s st1 [block_event ''content_block_start'' idx ''content_block'' b] st'"
    using up assms(3-5) client_block_start [of "client_of st1" s b bt]
    by (auto simp: keeps_up_def streaming_def new client_of_def)
  with up(1) show "keeps_up s st (evs @ [block_event ''content_block_start'' idx ''content_block'' b]) st'"
    by (rule keeps_up_trans)
  show "st_open_block st' = Some (kind idx)" by (simp add: new)
qed

lemma delta_keeps_up:
  assumes "streaming s st" "st_open_block st = Some b"
    and "as_str (jidx d ''type'') = delta_type_of (block_type b)"
  shows "keeps_up s st [block_event ''content_block_delta'' (block_index b) ''delta'' d] st"
proof -
  have "delta_type_of (block_type b) \<noteq> None" by (cases b) (simp_all add: delta_type_of_def)
  then show ?thesis
    using assms client_block_delta [of "client_of st" "block_index b" "block_type b" s d]
    by (simp add: keeps_up_def streaming_def)
qed

text \<open>The events as block events with their payloads.\<close>

lemmas block_events =
  content_block_start_text_def content_block_delta_text_def content_block_start_thinking_def
  content_block_delta_thinking_def content_block_start_tool_use_def
  content_block_delta_input_json_def

text \<open>Opening a block and sending its first delta.\<close>

lemma open_delta_keeps_up:
  assumes "streaming s st" "open_new_block kind st = (evs, idx, st')"
    and "block_index (kind idx) = idx" "as_str (jidx b ''type'') = Some (block_type (kind idx))"
    and "as_str (jidx d ''type'') = delta_type_of (block_type (kind idx))"
  shows "keeps_up s st (evs @ [block_event ''content_block_start'' idx ''content_block'' b,
                               block_event ''content_block_delta'' idx ''delta'' d]) st'"
proof -
  note start = open_keeps_up [OF assms(1-3) refl assms(4)]
  have "keeps_up s st' [block_event ''content_block_delta'' idx ''delta'' d] st'"
    using delta_keeps_up [of s st' "kind idx" d] start assms(3,5) by (simp add: keeps_up_def)
  from keeps_up_trans [OF start(1) this] show ?thesis by simp
qed

lemma jidx_type_payload [simp]:
  "jidx (json_obj ((''type'', v) # kvs)) ''type'' = v" if "''type'' \<notin> fst ` set kvs"
proof -
  have "map_of (rev kvs) ''type'' = None" using that by (simp add: map_of_eq_None_iff)
  then show ?thesis by (simp add: jidx_def map_add_def)
qed

lemma out_text_keeps_up:
  assumes "streaming s st" "out_text content st = (evs, st')"
  shows "keeps_up s st evs st'"
proof (cases content)
  case None
  with assms show ?thesis by (simp add: out_text_def keeps_up_refl)
next
  case (Some t)
  show ?thesis
  proof (cases "\<exists>i. st_open_block st = Some (OpenText i)")
    case True
    then obtain i where i: "st_open_block st = Some (OpenText i)" ..
    from i Some assms have "evs = [content_block_delta_text i t]" "st' = st"
      by (simp_all add: out_text_def)
    then show ?thesis
      using delta_keeps_up [OF assms(1) i] by (simp add: block_events delta_type_of_def)
  next
    case False
    then obtain pre idx where "open_new_block OpenText st = (pre, idx, st')"
      and "evs = pre @ [content_block_start_text idx, content_block_delta_text idx t]"
      using Some assms(2)
      by (auto simp: out_text_def split: option.splits open_block.splits prod.splits)
    then show ?thesis
      using open_delta_keeps_up [OF assms(1)] by (simp add: block_events delta_type_of_def)
  qed
qed

lemma out_thinking_keeps_up:
  assumes "streaming s st" "out_thinking reasoning st = (evs, st')"
  shows "keeps_up s st evs st'"
proof (cases reasoning)
  case None
  with assms show ?thesis by (simp add: out_thinking_def keeps_up_refl)
next
  case (Some rc)
  show ?thesis
  proof (cases "\<exists>i. st_open_block st = Some (OpenThinking i)")
    case True
    then obtain i where i: "st_open_block st = Some (OpenThinking i)" ..
    from i Some assms have "evs = [content_block_delta_thinking i rc]" "st' = st"
      by (simp_all add: out_thinking_def)
    then show ?thesis
      using delta_keeps_up [OF assms(1) i] by (simp add: block_events delta_type_of_def)
  next
    case False
    then obtain pre idx where "open_new_block OpenThinking st = (pre, idx, st')"
      and "evs = pre @ [content_block_start_thinking idx, content_block_delta_thinking idx rc]"
      using Some assms(2)
      by (auto simp: out_thinking_def split: option.splits open_block.splits prod.splits)
    then show ?thesis
      using open_delta_keeps_up [OF assms(1)] by (simp add: block_events delta_type_of_def)
  qed
qed

lemma merge_tool_meta_simps [simp]:
  "streaming s (merge_tool_meta tc st) = streaming s st"
  "client_of (merge_tool_meta tc st) = client_of st"
  "st_open_block (merge_tool_meta tc st) = st_open_block st"
  "st_tool_block_of (merge_tool_meta tc st) = st_tool_block_of st"
  "st_delta_emitted (merge_tool_meta tc st) = st_delta_emitted st"
  "st_pending_finish (merge_tool_meta tc st) = st_pending_finish st"
  by (simp_all add: merge_tool_meta_def streaming_def client_of_def split: prod.splits)

lemma client_of_tool_block [simp]: "client_of (st\<lparr>st_tool_block_of := f\<rparr>) = client_of st"
  by (simp add: client_of_def)

lemma keeps_up_tool_block [simp]:
  "keeps_up s st evs (st'\<lparr>st_tool_block_of := f\<rparr>) = keeps_up s st evs st'"
  "keeps_up s (merge_tool_meta tc st) evs st' = keeps_up s st evs st'"
  "keeps_up s st evs (merge_tool_meta tc st') = keeps_up s st evs st'"
  by (simp_all add: keeps_up_def streaming_def [of _ "st_tool_block_of_update _ _"]
      streaming_def [of _ st'])

lemma out_tool_keeps_up:
  assumes "streaming s st" "out_tool tc (st, ctx) = (evs, st', ctx')"
  shows "keeps_up s st evs st'"
proof -
  let ?st = "merge_tool_meta tc st"
  have str: "streaming s ?st" using assms(1) by simp
  show ?thesis
  proof (cases "\<exists>b. st_tool_block_of st (tcd_index tc) = Some b \<and> st_open_block st = Some (OpenTool b)")
    case True
    then obtain b where b: "st_tool_block_of st (tcd_index tc) = Some b"
      "st_open_block st = Some (OpenTool b)" by auto
    with assms(2) have "evs = [content_block_delta_input_json b tc]" "st' = ?st"
      by (simp_all add: out_tool_def)
    then show ?thesis
      using delta_keeps_up [OF str, of "OpenTool b"] b(2)
      by (simp add: block_events delta_type_of_def)
  next
    case False
    then obtain pre b st2 tc_full where new: "open_new_block OpenTool ?st = (pre, b, st2)"
      and "evs = pre @ [content_block_start_tool_use b tc_full, content_block_delta_input_json b tc]"
        "st' = st2\<lparr>st_tool_block_of := (st_tool_block_of st2)(tcd_index tc \<mapsto> b)\<rparr>"
      using assms(2)
      by (auto simp: out_tool_def Let_def split: prod.splits if_splits)
    then show ?thesis
      using open_delta_keeps_up [OF str new] by (simp add: block_events delta_type_of_def)
  qed
qed

lemma out_tools_keeps_up:
  "streaming s st \<Longrightarrow> out_tools tcs (st, ctx) = (evs, st', ctx') \<Longrightarrow> keeps_up s st evs st'"
proof (induction tcs arbitrary: st ctx evs)
  case (Cons tc tcs)
  obtain evs1 st1 ctx1 evs2 where step: "out_tool tc (st, ctx) = (evs1, st1, ctx1)"
    "out_tools tcs (st1, ctx1) = (evs2, st', ctx')" and evs: "evs = evs1 @ evs2"
    using Cons.prems(2) by (auto split: prod.splits)
  have "keeps_up s st evs1 st1" by (rule out_tool_keeps_up [OF Cons.prems(1) step(1)])
  moreover from this have "keeps_up s st1 evs2 st'"
    using Cons.IH [OF _ step(2)] by (simp add: keeps_up_def)
  ultimately show ?case unfolding evs by (rule keeps_up_trans)
qed (simp add: keeps_up_refl)

section \<open>Whole chunks\<close>

lemma out_start_keeps_up:
  assumes "\<not> st_stop_emitted st" "s \<longrightarrow> \<not> st_delta_emitted st" "out_start chunk st = (evs, st')"
  shows "keeps_up s st evs st'"
proof (cases "st_start_emitted st")
  case True
  with assms show ?thesis by (simp add: out_start_def keeps_up_def streaming_def)
next
  case False
  then have "evs = [message_start_event st']"
    and "client_of st' = (client_of st)\<lparr>cl_started := True\<rparr>" "streaming s st'"
    and "st_delta_emitted st' = st_delta_emitted st" "st_pending_finish st' = st_pending_finish st"
    using assms by (auto simp: out_start_def Let_def client_of_def streaming_def split: option.splits)
  then show ?thesis using False by (simp add: keeps_up_def client_start)
qed

lemma merge_usage_simps [simp]:
  "client_of (merge_usage u st) = client_of st"
  "streaming s (merge_usage u st) = streaming s st"
  "st_open_block (merge_usage u st) = st_open_block st"
  "st_start_emitted (merge_usage u st) = st_start_emitted st"
  "st_stop_emitted (merge_usage u st) = st_stop_emitted st"
  "st_delta_emitted (merge_usage u st) = st_delta_emitted st"
  "st_pending_finish (merge_usage u st) = st_pending_finish st"
  by (simp_all add: merge_usage_def client_of_def streaming_def split: option.splits)

lemma chunk_body:
  assumes "\<not> st_stop_emitted st" "s \<longrightarrow> \<not> st_delta_emitted st"
    and "anth_chunk_events chunk st ctx = (evs, st', ctx')"
  obtains evs1 st1 evs2 where "keeps_up s st evs1 st1"
    "out_finish (snd (chunk_choice chunk)) (chk_usage chunk) (merge_usage (chk_usage chunk) st1) =
       (evs2, st')"
    "evs = evs1 @ evs2"
proof -
  obtain evs1 st1 where s1: "out_start chunk st = (evs1, st1)" by force
  obtain evs2 st2 where s2: "out_text (dl_content (fst (chunk_choice chunk))) st1 = (evs2, st2)"
    by force
  obtain evs3 st3 where s3: "out_thinking (dl_reasoning_content (fst (chunk_choice chunk))) st2 = (evs3, st3)"
    by force
  obtain evs4 st4 ctx4 where s4:
    "out_tools (dl_tool_calls (fst (chunk_choice chunk))) (st3, ctx) = (evs4, st4, ctx4)"
    by (metis prod_cases3)
  obtain evs5 st5 where s5:
    "out_finish (snd (chunk_choice chunk)) (chk_usage chunk) (merge_usage (chk_usage chunk) st4) = (evs5, st5)"
    by force
  have evs: "evs = evs1 @ evs2 @ evs3 @ evs4 @ evs5" "st' = st5"
    using assms(3) s1 s2 s3 s4 s5
    by (auto simp: anth_chunk_events_def chunk_choice_def split: prod.splits list.splits)
  have "keeps_up s st evs1 st1" by (rule out_start_keeps_up [OF assms(1,2) s1])
  note up1 = this
  note up2 = out_text_keeps_up [OF keeps_up_streaming [OF up1] s2]
  note up3 = out_thinking_keeps_up [OF keeps_up_streaming [OF up2] s3]
  note up4 = out_tools_keeps_up [OF keeps_up_streaming [OF up3] s4]
  have "keeps_up s st (evs1 @ evs2 @ evs3 @ evs4) st4"
    by (intro keeps_up_trans [OF up1] keeps_up_trans [OF up2] keeps_up_trans [OF up3] up4)
  from that [OF this s5 [folded evs(2)]] evs(1) show ?thesis by simp
qed

lemma client_of_delta:
  "client_of (st\<lparr>st_delta_emitted := True\<rparr>) = (client_of st)\<lparr>cl_delta_seen := True\<rparr>"
  "client_of (st\<lparr>st_pending_finish := p\<rparr>) = client_of st"
  "client_of (st\<lparr>st_stop_emitted := True\<rparr>) = (client_of st)\<lparr>cl_stopped := True\<rparr>"
  by (simp_all add: client_of_def)

lemma close_frame:
  "close_open_block st = (evs, st') \<Longrightarrow>
   st_start_emitted st' = st_start_emitted st \<and> st_stop_emitted st' = st_stop_emitted st \<and>
   st_delta_emitted st' = st_delta_emitted st \<and> st_pending_finish st' = st_pending_finish st \<and>
   st_usage st' = st_usage st \<and> st_open_block st' = None"
  by (auto simp: close_open_block_def split: option.splits)

text \<open>
  A finish reason closes the block; the tail without one only adds the delayed
  \<open>message_delta\<close>, which needs a closed block.
\<close>

lemma out_finish_accepted:
  assumes "streaming s st" "out_finish fr usage st = (evs, st')"
    and "s \<and> fr = None \<and> st_pending_finish st \<noteq> None \<longrightarrow> st_open_block st = None"
  shows "accepts (client_step s) evs (client_of st) = Some (client_of st')"
    "st_start_emitted st'" "\<not> st_stop_emitted st'"
    "fr \<noteq> None \<Longrightarrow> st_open_block st' = None"
    "fr = None \<Longrightarrow> st_open_block st' = st_open_block st"
    "fr = None \<Longrightarrow> st_pending_finish st = None \<Longrightarrow>
       st_delta_emitted st' = st_delta_emitted st \<and> st_pending_finish st' = None"
proof -
  obtain evs1 st1 where close: "close_open_block st = (evs1, st1)" by force
  note up = close_keeps_up [OF assms(1) close] and frame = close_frame [OF close]
  have str: "streaming s st1" and acc: "accepts (client_step s) evs1 (client_of st) = Some (client_of st1)"
    using up by (simp_all add: keeps_up_def)
  note defs = out_finish_def Let_def close streaming_def client_of_delta client_message_delta
    accepts_append frame
  show "accepts (client_step s) evs (client_of st) = Some (client_of st')"
    using assms str acc by (cases fr) (auto simp: defs split: if_splits)
  show "st_start_emitted st'" "\<not> st_stop_emitted st'"
    "fr \<noteq> None \<Longrightarrow> st_open_block st' = None"
    "fr = None \<Longrightarrow> st_open_block st' = st_open_block st"
    "fr = None \<Longrightarrow> st_pending_finish st = None \<Longrightarrow>
       st_delta_emitted st' = st_delta_emitted st \<and> st_pending_finish st' = None"
    using assms str by (cases fr; auto simp: defs split: if_splits)+
qed

section \<open>Whole streams\<close>

fun anth_emit :: "stream_op \<Rightarrow> anth_stream \<times> conv_ctx \<Rightarrow> json list \<times> anth_stream \<times> conv_ctx" where
  "anth_emit (OutChunk chunk) (st, ctx) = anth_chunk_events chunk st ctx"
| "anth_emit MarkFailed (st, ctx) = ([], anth_mark_failed st, ctx)"

definition anth_stream_events :: "stream_op list \<Rightarrow> json list" where
  "anth_stream_events ops =
     (let (evs, st, ctx) = emit_all anth_emit ops (anth_stream_new, []);
          (evs', st') = anth_end_events st
      in evs @ evs')"

definition stream_live :: "anth_stream \<Rightarrow> bool" where
  "stream_live st \<longleftrightarrow> \<not> st_stop_emitted st \<and> (st_start_emitted st \<or> st_open_block st = None)"

lemma keeps_up_live: "keeps_up s st evs st' \<Longrightarrow> stream_live st'"
  by (simp add: keeps_up_def streaming_def stream_live_def)

lemma mark_failed_simps [simp]:
  "client_of (anth_mark_failed st) = client_of st"
  "stream_live (anth_mark_failed st) = stream_live st"
  by (simp_all add: anth_mark_failed_def client_of_def stream_live_def)

lemma chunk_accepted:
  assumes "stream_live st" "anth_chunk_events chunk st ctx = (evs, st', ctx')"
  shows "accepts (client_step False) evs (client_of st) = Some (client_of st') \<and> stream_live st'"
proof -
  have "\<not> st_stop_emitted st" "False \<longrightarrow> \<not> st_delta_emitted st"
    using assms(1) by (simp_all add: stream_live_def)
  from chunk_body [OF this assms(2)] obtain evs1 st1 evs2 where up: "keeps_up False st evs1 st1"
    and fin: "out_finish (snd (chunk_choice chunk)) (chk_usage chunk)
                (merge_usage (chk_usage chunk) st1) = (evs2, st')"
    and evs: "evs = evs1 @ evs2" by metis
  have "streaming False (merge_usage (chk_usage chunk) st1)"
    using keeps_up_streaming [OF up] by simp
  note fin_ok = out_finish_accepted [OF this fin]
  show ?thesis using up fin_ok(1-3) by (simp add: evs accepts_append keeps_up_def stream_live_def)
qed

interpretation anth: event_source anth_emit "client_step False" "client_of \<circ> fst" "stream_live \<circ> fst"
proof unfold_locales
  fix i s es s'
  assume "(stream_live \<circ> fst) s" "anth_emit i s = (es, s')"
  then show "accepts (client_step False) es ((client_of \<circ> fst) s) = Some ((client_of \<circ> fst) s') \<and>
    (stream_live \<circ> fst) s'"
    by (cases i; cases s; cases s') (auto dest: chunk_accepted)
qed

lemma end_accepted:
  assumes "stream_live st" "s \<and> st_delta_emitted st \<longrightarrow> st_open_block st = None"
    and "anth_end_events st = (evs, st')"
  shows "\<exists>c. accepts (client_step s) evs (client_of st) = Some c \<and> cl_open c = None \<and>
    cl_started c = st_start_emitted st \<and> cl_stopped c = st_start_emitted st"
proof (cases "st_start_emitted st")
  case False
  then have "evs = []" "st_open_block st = None"
    using assms by (auto simp: anth_end_events_def close_open_block_def stream_live_def Let_def)
  then show ?thesis using assms(1) False by (simp add: stream_live_def)
next
  case True
  obtain evs1 st1 where close: "close_open_block st = (evs1, st1)" by force
  note frame = close_frame [OF close]
  have acc: "accepts (client_step s) evs1 (client_of st) = Some (client_of st1)"
  proof (cases "s \<and> st_delta_emitted st")
    case True
    then show ?thesis using close assms(2) by (auto simp: close_open_block_def)
  next
    case False
    with True assms(1) have "streaming s st" by (auto simp: streaming_def stream_live_def)
    from close_keeps_up [OF this close] show ?thesis by (simp add: keeps_up_def)
  qed
  then show ?thesis
    using assms True frame
    by (auto simp: anth_end_events_def close Let_def accepts_append client_of_delta
        client_message_delta client_message_stop stream_live_def split: if_splits option.splits)
qed

subsection \<open>Streams whose content comes before the finish\<close>

lemma quiet_events:
  assumes "quiet chunk" "st_start_emitted st"
  shows "anth_chunk_events chunk st ctx =
    (let (evs, st') = out_finish None (chk_usage chunk) (merge_usage (chk_usage chunk) st)
     in (evs, st', ctx))"
  using assms
  by (auto simp: anth_chunk_events_def quiet_def chunk_choice_def out_start_def out_text_def
      out_thinking_def default_delta_def split: list.splits prod.splits)

text \<open>What holds after the finish: all blocks closed.\<close>

definition finished :: "anth_stream \<Rightarrow> bool" where
  "finished st \<longleftrightarrow> st_start_emitted st \<and> \<not> st_stop_emitted st \<and> st_open_block st = None"

lemma quiet_accepted:
  assumes "finished st" "quiet chunk" "anth_chunk_events chunk st ctx = (evs, st', ctx')"
  shows "accepts (client_step True) evs (client_of st) = Some (client_of st') \<and> finished st'"
proof (cases "st_delta_emitted st")
  case True
  then have "evs = []" "st' = merge_usage (chk_usage chunk) st"
    using assms by (auto simp: quiet_events finished_def out_finish_def)
  then show ?thesis using assms(1) by (simp add: finished_def)
next
  case False
  then have str: "streaming True (merge_usage (chk_usage chunk) st)"
    using assms(1) by (simp add: finished_def streaming_def)
  have fin: "out_finish None (chk_usage chunk) (merge_usage (chk_usage chunk) st) = (evs, st')"
    using assms by (auto simp: quiet_events finished_def split: prod.splits)
  show ?thesis
    using out_finish_accepted [OF str fin] assms(1) by (simp add: finished_def)
qed

lemma quiet_all_accepted:
  "finished st \<Longrightarrow> list_all quiet cs \<Longrightarrow>
   emit_all anth_emit (map OutChunk cs) (st, ctx) = (evs, st', ctx') \<Longrightarrow>
   accepts (client_step True) evs (client_of st) = Some (client_of st') \<and> finished st'"
proof (induction cs arbitrary: st ctx evs)
  case (Cons c cs)
  obtain evs1 st1 ctx1 evs2 where step: "anth_chunk_events c st ctx = (evs1, st1, ctx1)"
    "emit_all anth_emit (map OutChunk cs) (st1, ctx1) = (evs2, st', ctx')" and evs: "evs = evs1 @ evs2"
    using Cons.prems(3) by (auto split: prod.splits)
  have "accepts (client_step True) evs1 (client_of st) = Some (client_of st1) \<and> finished st1"
    using quiet_accepted [OF Cons.prems(1) _ step(1)] Cons.prems(2) by simp
  with Cons.IH [OF _ _ step(2)] Cons.prems(2) show ?case by (simp add: evs accepts_append)
qed simp

definition unfinished :: "anth_stream \<Rightarrow> bool" where
  "unfinished st \<longleftrightarrow> stream_live st \<and> \<not> st_delta_emitted st \<and> st_pending_finish st = None"

lemma ordered_chunk_accepted:
  assumes "unfinished st" "anth_chunk_events chunk st ctx = (evs, st', ctx')"
  shows "accepts (client_step True) evs (client_of st) = Some (client_of st')"
    "if snd (chunk_choice chunk) \<noteq> None then finished st' else unfinished st'"
    "st_start_emitted st'"
proof -
  have "\<not> st_stop_emitted st" "True \<longrightarrow> \<not> st_delta_emitted st"
    using assms(1) by (simp_all add: unfinished_def stream_live_def)
  from chunk_body [OF this assms(2)] obtain evs1 st1 evs2 where up: "keeps_up True st evs1 st1"
    and fin: "out_finish (snd (chunk_choice chunk)) (chk_usage chunk)
                (merge_usage (chk_usage chunk) st1) = (evs2, st')"
    and evs: "evs = evs1 @ evs2" by metis
  have str: "streaming True (merge_usage (chk_usage chunk) st1)"
    and flags: "\<not> st_delta_emitted st1" "st_pending_finish st1 = None"
    using keeps_up_streaming [OF up] up assms(1) by (simp_all add: unfinished_def keeps_up_def)
  note fin_ok = out_finish_accepted [OF str fin]
  show "accepts (client_step True) evs (client_of st) = Some (client_of st')"
    using up fin_ok(1) flags by (simp add: evs accepts_append keeps_up_def)
  show "if snd (chunk_choice chunk) \<noteq> None then finished st' else unfinished st'"
    using fin_ok(2-) flags by (auto simp: finished_def unfinished_def stream_live_def)
  show "st_start_emitted st'" using fin_ok(2) flags by simp
qed

lemma ordered_all_accepted:
  "unfinished st \<Longrightarrow> finish_last cs \<Longrightarrow>
   emit_all anth_emit (map OutChunk cs) (st, ctx) = (evs, st', ctx') \<Longrightarrow>
   accepts (client_step True) evs (client_of st) = Some (client_of st') \<and>
   stream_live st' \<and> (st_delta_emitted st' \<longrightarrow> st_open_block st' = None) \<and>
   (cs \<noteq> [] \<longrightarrow> st_start_emitted st')"
proof (induction cs arbitrary: st ctx evs)
  case Nil
  then show ?case by (simp add: unfinished_def)
next
  case (Cons c cs)
  obtain evs1 st1 ctx1 evs2 where step: "anth_chunk_events c st ctx = (evs1, st1, ctx1)"
    "emit_all anth_emit (map OutChunk cs) (st1, ctx1) = (evs2, st', ctx')" and evs: "evs = evs1 @ evs2"
    using Cons.prems(3) by (auto split: prod.splits)
  note one = ordered_chunk_accepted [OF Cons.prems(1) step(1)]
  show ?case
  proof (cases "snd (chunk_choice c) = None")
    case True
    with one Cons.prems(2) have "unfinished st1" "finish_last cs" by auto
    from Cons.IH [OF this step(2)] one(1,3) step(2) show ?thesis
      by (cases cs) (simp_all add: evs accepts_append)
  next
    case False
    with one Cons.prems(2) have "finished st1" "list_all quiet cs" by auto
    from quiet_all_accepted [OF this step(2)] one(1) show ?thesis
      by (simp add: evs accepts_append finished_def stream_live_def)
  qed
qed

lemma stream_new_simps [simp]:
  "client_of anth_stream_new = client_new" "unfinished anth_stream_new"
  by (simp_all add: client_of_def client_new_def anth_stream_new_def unfinished_def stream_live_def)

lemma ordered_stream_accepted:
  assumes "finish_last cs" "cs \<noteq> []"
  shows "\<exists>c. accepts (client_step True)
      (anth_stream_events (map OutChunk cs @ (if failed then [MarkFailed] else []))) client_new = Some c \<and>
    cl_stopped c \<and> cl_open c = None"
proof -
  obtain evs st ctx where run: "emit_all anth_emit (map OutChunk cs) (anth_stream_new, []) = (evs, st, ctx)"
    by (metis prod_cases3)
  define st1 where "st1 = (if failed then anth_mark_failed st else st)"
  obtain evs' st' where fin: "anth_end_events st1 = (evs', st')" by force
  have events: "anth_stream_events (map OutChunk cs @ (if failed then [MarkFailed] else [])) = evs @ evs'"
    using fin by (cases failed) (simp_all add: anth_stream_events_def emit_all_append run st1_def)
  from ordered_all_accepted [OF _ assms(1) run] assms(2)
  have ok: "accepts (client_step True) evs client_new = Some (client_of st)" "stream_live st"
    "st_delta_emitted st \<longrightarrow> st_open_block st = None" "st_start_emitted st"
    by simp_all
  have "client_of st1 = client_of st" "stream_live st1" "st_start_emitted st1"
    "True \<and> st_delta_emitted st1 \<longrightarrow> st_open_block st1 = None"
    using ok by (simp_all add: st1_def anth_mark_failed_def stream_live_def)
  with end_accepted [OF this(2) this(4) fin] ok(1) show ?thesis
    by (auto simp: events accepts_append)
qed

lemma any_stream_accepted:
  "\<exists>c. accepts (client_step False) (anth_stream_events ops) client_new = Some c \<and>
    cl_open c = None \<and> cl_stopped c = cl_started c"
proof -
  obtain evs st ctx where run: "emit_all anth_emit ops (anth_stream_new, []) = (evs, st, ctx)"
    by (metis prod_cases3)
  obtain evs' st' where fin: "anth_end_events st = (evs', st')" by force
  have "stream_live anth_stream_new"
    by (simp add: stream_live_def anth_stream_new_def)
  then have "accepts (client_step False) evs client_new = Some (client_of st)" "stream_live st"
    using anth.emit_all_accepted [OF _ run] by simp_all
  with end_accepted [of st False, OF _ _ fin] show ?thesis
    by (auto simp: anth_stream_events_def run fin accepts_append)
qed

section \<open>Nothing is lost and nothing is said twice\<close>

text \<open>What an event, or a chunk, says on each of the three channels.\<close>

fun channel_keys :: "channel \<Rightarrow> string \<times> string" where
  "channel_keys TextChannel = (''text_delta'', ''text'')"
| "channel_keys ThinkingChannel = (''thinking_delta'', ''thinking'')"
| "channel_keys ToolChannel = (''input_json_delta'', ''partial_json'')"

definition event_says :: "channel \<Rightarrow> json \<Rightarrow> string" where
  "event_says ch v =
     (let d = jidx v ''delta''
      in if as_str (jidx v ''type'') = Some ''content_block_delta'' \<and>
            as_str (jidx d ''type'') = Some (fst (channel_keys ch))
         then str_or_empty (jidx d (snd (channel_keys ch))) else [])"

definition events_say :: "channel \<Rightarrow> json list \<Rightarrow> string" where
  "events_say ch evs = concat (map (event_says ch) evs)"

lemma events_say_simps [simp]:
  "events_say ch [] = []" "events_say ch (e # es) = event_says ch e @ events_say ch es"
  "events_say ch (es @ es') = events_say ch es @ events_say ch es'"
  by (simp_all add: events_say_def)

lemma event_says_simps [simp]:
  "event_says ch (content_block_start_text i) = []"
  "event_says ch (content_block_start_thinking i) = []"
  "event_says ch (content_block_start_tool_use i tc) = []"
  "event_says ch (content_block_stop i) = []"
  "event_says ch (message_start_event st) = []"
  "event_says ch (message_delta_event fr st) = []"
  "event_says ch (message_delta_end_event st) = []"
  "event_says ch message_stop_event = []"
  "event_says ch (content_block_delta_text i t) = (if ch = TextChannel then t else [])"
  "event_says ch (content_block_delta_thinking i t) = (if ch = ThinkingChannel then t else [])"
  "event_says ch (content_block_delta_input_json i tc) =
     (if ch = ToolChannel then unwrap_or [] (tcd_arguments tc) else [])"
  by (cases ch; simp add: event_says_def block_event_def block_events content_block_stop_def
      message_start_event_def message_delta_event_def message_delta_end_event_def
      message_stop_event_def jidx_def)+

lemma close_says: "close_open_block st = (evs, st') \<Longrightarrow> events_say ch evs = []"
  by (auto simp: close_open_block_def split: option.splits)

lemma open_says: "open_new_block kind st = (evs, idx, st') \<Longrightarrow> events_say ch evs = []"
  by (auto simp: open_new_block_def Let_def dest: close_says split: prod.splits)

lemma out_text_says:
  "out_text content st = (evs, st') \<Longrightarrow>
   events_say ch evs = (if ch = TextChannel then unwrap_or [] content else [])"
  by (auto simp: out_text_def open_says split: option.splits open_block.splits prod.splits)

lemma out_thinking_says:
  "out_thinking content st = (evs, st') \<Longrightarrow>
   events_say ch evs = (if ch = ThinkingChannel then unwrap_or [] content else [])"
  by (auto simp: out_thinking_def open_says split: option.splits open_block.splits prod.splits)

lemma out_tool_says:
  "out_tool tc c = (evs, c') \<Longrightarrow>
   events_say ch evs = (if ch = ToolChannel then unwrap_or [] (tcd_arguments tc) else [])"
  by (auto simp: out_tool_def Let_def open_says split: prod.splits if_splits)

lemma out_tools_says:
  "out_tools tcs (st, ctx) = (evs, c') \<Longrightarrow>
   events_say ch evs =
     (if ch = ToolChannel then concat (map (\<lambda>tc. unwrap_or [] (tcd_arguments tc)) tcs) else [])"
proof (induction tcs arbitrary: st ctx evs)
  case (Cons tc tcs)
  then show ?case by (auto simp: out_tool_says Let_def split: prod.splits)
qed simp

lemma out_finish_says: "out_finish fr usage st = (evs, st') \<Longrightarrow> events_say ch evs = []"
  by (auto simp: out_finish_def close_says Let_def split: option.splits if_splits prod.splits)

lemma out_start_says: "out_start chunk st = (evs, st') \<Longrightarrow> events_say ch evs = []"
  by (auto simp: out_start_def Let_def split: if_splits)

lemma chunk_events_say:
  "anth_chunk_events chunk st ctx = (evs, st', ctx') \<Longrightarrow> events_say ch evs = chunk_says ch chunk"
  by (cases ch)
    (auto simp: anth_chunk_events_def chunk_says_def chunk_choice_def out_start_says out_text_says
      out_thinking_says out_tools_says out_finish_says split: prod.splits list.splits)

lemma end_events_say: "anth_end_events st = (evs, st') \<Longrightarrow> events_say ch evs = []"
  by (auto simp: anth_end_events_def Let_def close_says split: prod.splits if_splits option.splits)

lemma emit_all_says:
  "emit_all anth_emit ops c = (evs, c') \<Longrightarrow> events_say ch evs = concat (map (op_says ch) ops)"
proof (induction ops arbitrary: c evs)
  case (Cons op ops)
  obtain evs1 c1 evs2 where step: "anth_emit op c = (evs1, c1)" "emit_all anth_emit ops c1 = (evs2, c')"
    and evs: "evs = evs1 @ evs2"
    using Cons.prems by (auto split: prod.splits)
  have "events_say ch evs1 = op_says ch op"
    using step(1) by (cases op; cases c; cases c1) (auto simp: chunk_events_say)
  with Cons.IH [OF step(2)] show ?case by (simp add: evs)
qed simp

lemma stream_says:
  "events_say ch (anth_stream_events ops) = concat (map (op_says ch) ops)"
proof -
  obtain evs st ctx where run: "emit_all anth_emit ops (anth_stream_new, []) = (evs, st, ctx)"
    by (metis prod_cases3)
  obtain evs' st' where fin: "anth_end_events st = (evs', st')" by force
  show ?thesis
    by (simp add: anth_stream_events_def run fin emit_all_says [OF run] end_events_say [OF fin])
qed

section \<open>Reading a stream back\<close>

text \<open>
  The chunks that the inbound side makes of a list of events. Of every list the client accepts,
  also one of another server, it reads on each channel exactly what the events say.
\<close>

definition read_events :: "json list \<Rightarrow> anth_stream \<times> conv_ctx \<Rightarrow> ir_chunk list" where
  "read_events = read_all anth_event_to_ir"

text \<open>The block of a tool that the client has open is registered.\<close>

definition tools_registered :: "client \<Rightarrow> anth_stream \<Rightarrow> bool" where
  "tools_registered c st \<longleftrightarrow>
     (\<forall>i. cl_open c = Some (i, ''tool_use'') \<longrightarrow> st_block_to_tool st (ucast i) \<noteq> None)"

lemma ucast_u32_try_from: "u32_try_from n = Some i \<Longrightarrow> ucast i = n"
  by (auto simp: u32_try_from_def word_unat_eq_iff unsigned_ucast_eq take_bit_nat_eq_self
      split: if_splits)

lemma event_index_Some:
  "event_index v = Some i \<Longrightarrow> as_u64 (jidx v ''index'') = Some (ucast i)"
  by (auto simp: event_index_def ucast_u32_try_from split: Option.bind_splits)

lemma str_or_empty_eq: "s \<noteq> [] \<Longrightarrow> str_or_empty v = s \<longleftrightarrow> as_str v = Some s"
  by (auto simp: str_or_empty_def split: option.splits)

lemma is_object_of_field: "as_str (jidx v k) \<noteq> None \<Longrightarrow> is_object v"
  by (cases v) (simp_all add: jidx_def)

lemma anth_chunk_says [simp]: "chunk_says ch (anth_chunk st d fr u) = delta_says ch d"
  by (simp add: chunk_says_def chunk_choice_def anth_chunk_def default_chunk_def)

lemma read_block_start:
  assumes "cl_open c = None" "event_index v = Some (cl_next c)"
    and "c' = c\<lparr>cl_next := cl_next c + 1,
                cl_open := Some (cl_next c, str_or_empty (jidx (jidx v ''content_block'') ''type''))\<rparr>"
    and "in_block_start v st ctx = (r, st', ctx')"
  shows "tools_registered c' st'" "\<And>chunk. r = Inr (Some chunk) \<Longrightarrow> chunk_says ch chunk = []"
  using assms event_index_Some [OF assms(2)]
  by (cases ch; auto simp: in_block_start_def tools_registered_def default_delta_def Let_def
      split: if_splits)+

lemma read_block_delta:
  assumes "tools_registered c st" "cl_open c = Some (i, bt)" "event_index v = Some i"
    and "as_str (jidx (jidx v ''delta'') ''type'') = delta_type_of bt" "delta_type_of bt \<noteq> None"
    and "as_str (jidx v ''type'') = Some ''content_block_delta''"
    and "in_block_delta v st ctx = (r, st', ctx')"
  shows "st' = st" "\<exists>chunk. r = Inr (Some chunk) \<and> chunk_says ch chunk = event_says ch v"
proof -
  have ix: "as_u64 (jidx v ''index'') = Some (ucast i)" by (rule event_index_Some [OF assms(3)])
  consider "bt = ''text''" | "bt = ''thinking''"
    | t where "bt = ''tool_use''" "st_block_to_tool st (ucast i) = Some t"
    using assms(1,2,5) by (auto simp: delta_type_of_def tools_registered_def split: if_splits)
  then have "st' = st \<and> (\<exists>chunk. r = Inr (Some chunk) \<and> chunk_says ch chunk = event_says ch v)"
    by cases
      (use assms(4,6,7) ix in \<open>cases ch; auto simp: in_block_delta_def delta_type_of_def
        event_says_def str_or_empty_eq default_delta_def Let_def\<close>)+
  then show "st' = st" "\<exists>chunk. r = Inr (Some chunk) \<and> chunk_says ch chunk = event_says ch v"
    by auto
qed

lemma read_message_start:
  "in_message_start v st ctx = (r, st', ctx') \<Longrightarrow> r = Inr (Some chunk) \<Longrightarrow> chunk_says ch chunk = []"
  "in_message_start v st ctx = (r, st', ctx') \<Longrightarrow> st_block_to_tool st' = st_block_to_tool st"
  by (cases ch; auto simp: in_message_start_def Let_def default_delta_def split: option.splits)+

lemma read_message_delta:
  "in_message_delta v st ctx = (r, st', ctx') \<Longrightarrow> r = Inr (Some chunk) \<Longrightarrow> chunk_says ch chunk = []"
  "in_message_delta v st ctx = (r, st', ctx') \<Longrightarrow> st_block_to_tool st' = st_block_to_tool st"
  by (auto simp: in_message_delta_def Let_def)

lemma event_says_other:
  "as_str (jidx v ''type'') \<noteq> Some ''content_block_delta'' \<Longrightarrow> event_says ch v = []"
  by (simp add: event_says_def)

lemma read_event:
  assumes "client_step s v c = Some c'" "tools_registered c st"
    and "anth_event_to_ir v st ctx = (r, st', ctx')"
  shows "tools_registered c' st' \<and> read_says ch r = event_says ch v"
proof -
  define ty where "ty = str_or_empty (jidx v ''type'')"
  have ty: "as_str (jidx v ''type'') = Some t" if "ty = t" "t \<noteq> []" for t
    using that str_or_empty_eq [of t] by (simp add: ty_def)
  have known: "ty \<in> {''message_start'', ''content_block_start'', ''content_block_delta'',
      ''content_block_stop'', ''message_delta'', ''message_stop''}"
  proof (rule ccontr)
    assume "\<not> ?thesis"
    then have "client_step s v c = None" by (simp add: client_step_def ty_def [symmetric] Let_def)
    with assms(1) show False by simp
  qed
  then have "ty \<noteq> []" by (rule contrapos_pn) simp
  then have obj: "is_object v" using ty [OF refl] is_object_of_field [of v "''type''"] by simp
  from known consider "ty = ''message_start''" | "ty = ''content_block_start''"
    | "ty = ''content_block_delta''" | "ty = ''content_block_stop''" | "ty = ''message_delta''"
    | "ty = ''message_stop''" by (elim insertE emptyE) (erule that)+
  then show ?thesis
  proof cases
    case 1
    then have "in_message_start v st ctx = (r, st', ctx')" "c' = c\<lparr>cl_started := True\<rparr>"
      using assms(1,3) obj by (auto simp: anth_event_to_ir_def client_step_def ty_def [symmetric] Let_def split: if_splits)
    with read_message_start [OF this(1)] show ?thesis
      using assms(2) ty [OF 1]
      by (auto simp: tools_registered_def read_says_def event_says_other split: sum.splits option.splits)
  next
    case 2
    then have "in_block_start v st ctx = (r, st', ctx')" "cl_open c = None"
      "event_index v = Some (cl_next c)"
      "c' = c\<lparr>cl_next := cl_next c + 1,
              cl_open := Some (cl_next c, str_or_empty (jidx (jidx v ''content_block'') ''type''))\<rparr>"
      using assms(1,3) obj by (auto simp: anth_event_to_ir_def client_step_def ty_def [symmetric] Let_def split: if_splits)
    from read_block_start [OF this(2-4,1)] show ?thesis
      using ty [OF 2] by (auto simp: read_says_def event_says_other split: sum.splits option.splits)
  next
    case 3
    then obtain i bt where "cl_open c = Some (i, bt)" "event_index v = Some i"
      "as_str (jidx (jidx v ''delta'') ''type'') = delta_type_of bt" "delta_type_of bt \<noteq> None"
      "in_block_delta v st ctx = (r, st', ctx')" "c' = c"
      using assms(1,3) obj
      by (auto simp: anth_event_to_ir_def client_step_def ty_def [symmetric] Let_def split: if_splits option.splits)
    from read_block_delta [OF assms(2) this(1-4) ty [OF 3] this(5)] this(6) show ?thesis
      using assms(2) by (fastforce simp: read_says_def)
  next
    case 4
    then have "in_block_stop v st ctx = (r, st', ctx')" "cl_open c' = None"
      using assms(1,3) obj
      by (auto simp: anth_event_to_ir_def client_step_def ty_def [symmetric] Let_def split: if_splits option.splits)
    then show ?thesis
      using ty [OF 4] by (auto simp: tools_registered_def in_block_stop_def read_says_def event_says_other)
  next
    case 5
    then have "in_message_delta v st ctx = (r, st', ctx')" "c' = c\<lparr>cl_delta_seen := True\<rparr>"
      using assms(1,3) obj
      by (auto simp: anth_event_to_ir_def client_step_def ty_def [symmetric] Let_def split: if_splits)
    with read_message_delta [OF this(1)] show ?thesis
      using assms(2) ty [OF 5]
      by (auto simp: tools_registered_def read_says_def event_says_other split: sum.splits option.splits)
  next
    case 6
    then have "r = Inr None" "st' = st\<lparr>st_stop_emitted := True\<rparr>" "c' = c\<lparr>cl_stopped := True\<rparr>"
      using assms(1,3) obj
      by (auto simp: anth_event_to_ir_def client_step_def ty_def [symmetric] Let_def split: if_splits)
    then show ?thesis
      using assms(2) ty [OF 6] by (auto simp: tools_registered_def read_says_def event_says_other)
  qed
qed

interpretation anth_reader: event_reader anth_event_to_ir "client_step s" tools_registered event_says
  for s
  by unfold_locales (rule read_event)

lemma read_events_say:
  "accepts (client_step s) vs c = Some c' \<Longrightarrow> tools_registered c st \<Longrightarrow>
   concat (map (chunk_says ch) (read_events vs (st, ctx))) = events_say ch vs"
  by (simp only: read_events_def events_say_def anth_reader.read_all_says)

lemma tools_registered_new [simp]: "tools_registered client_new st"
  by (simp add: tools_registered_def client_new_def)

section \<open>Properties\<close>

definition sample_delta :: "string option \<Rightarrow> ir_tool_call_delta list \<Rightarrow> ir_delta" where
  "sample_delta content calls = default_delta\<lparr>dl_content := content, dl_tool_calls := calls\<rparr>"

definition sample_chunk :: "ir_delta \<Rightarrow> string option \<Rightarrow> ir_usage option \<Rightarrow> ir_chunk" where
  "sample_chunk delta fr usage =
     default_chunk\<lparr>chk_choices := [\<lparr>cc_index = 0, cc_delta = delta, cc_finish_reason = fr\<rparr>],
                   chk_usage := usage\<rparr>"

text \<open>A text, a tool call, the finish reason, and the usage in a frame of its own.\<close>

definition sample_stream :: "ir_chunk list" where
  "sample_stream =
     [sample_chunk (sample_delta (Some ''hi'') []) None None,
      sample_chunk (sample_delta None
        [\<lparr>tcd_index = 0, tcd_id = Some ''t1'', tcd_name = Some ''f'', tcd_arguments = Some ''{}''\<rparr>]) None None,
      sample_chunk default_delta (Some ''tool_calls'') None,
      sample_chunk default_delta None (Some default_usage)]"

text \<open>
  C2: when nothing but usage follows the chunk with the finish reason, the events that
  \<open>chunk_from_ir\<close> and \<open>stream_end\<close> send are a legal Messages stream for the strict client:
  one \<open>message_start\<close>, blocks numbered from 0 of which at most one is open, each delta in the
  open block and of its type, all blocks closed before the only \<open>message_delta\<close>, and one
  \<open>message_stop\<close> at the end. This holds also when the upstream breaks off (\<open>mark_failed\<close>).
\<close>

theorem stream_events_ordered:
  assumes "finish_last cs" "cs \<noteq> []"
  shows "\<exists>c. accepts (client_step True)
      (anth_stream_events (map OutChunk cs @ (if failed then [MarkFailed] else []))) client_new = Some c \<and>
    cl_stopped c \<and> cl_open c = None"
  using assms by (rule ordered_stream_accepted)

lemma stream_events_ordered_witness:
  "\<exists>c. accepts (client_step True) (anth_stream_events (map OutChunk sample_stream)) client_new = Some c \<and>
    cl_stopped c \<and> cl_open c = None"
  using stream_events_ordered [of sample_stream False]
  by (simp add: sample_stream_def sample_chunk_def sample_delta_def default_delta_def
      default_chunk_def chunk_choice_def quiet_def)

text \<open>
  C3: whatever chunks come in, in any order and with failures at any point, the block discipline
  holds: blocks are numbered 0, 1, 2, \<dots> (as \<open>u32\<close>), at most one is open, every delta is in
  the open block and of its type, and the stream ends with all blocks closed and, if it
  started, with \<open>message_stop\<close> after a \<open>message_delta\<close>.
\<close>

theorem stream_blocks_disciplined:
  "\<exists>c. accepts (client_step False) (anth_stream_events ops) client_new = Some c \<and>
    cl_open c = None \<and> cl_stopped c = cl_started c"
  by (rule any_stream_accepted)

text \<open>
  The text, thinking and tool argument deltas that the events carry are, joined, exactly
  those of the chunks: nothing is lost, repeated or reordered when blocks are split and closed.
\<close>

theorem stream_content_kept:
  "events_say ch (anth_stream_events ops) = concat (map (op_says ch) ops)"
  by (rule stream_says)


text \<open>
  C5: of any events that obey the block discipline, also those of a real Anthropic server, the
  inbound side \<open>chunk_to_ir\<close> reads on each channel exactly what they say; in particular no tool
  delta is dropped for an unregistered block.
\<close>

theorem reader_says_what_events_say:
  assumes "accepts (client_step s) vs client_new = Some c"
  shows "concat (map (chunk_says ch) (read_events vs (anth_stream_new, ctx))) = events_say ch vs"
  using assms by (rule read_events_say) simp

definition sample_events :: "json list" where
  "sample_events =
     [json_obj [(''type'', JStr ''message_start''), (''message'', json_obj [(''id'', JStr ''m'')])],
      content_block_start_tool_use 0
        \<lparr>tcd_index = 0, tcd_id = Some ''t'', tcd_name = Some ''f'', tcd_arguments = None\<rparr>,
      content_block_delta_input_json 0
        \<lparr>tcd_index = 0, tcd_id = None, tcd_name = None, tcd_arguments = Some ''{}''\<rparr>]"

lemma reader_says_what_events_say_witness:
  "concat (map (chunk_says ToolChannel) (read_events sample_events (anth_stream_new, []))) = ''{}''"
proof -
  have "accepts (client_step True) sample_events client_new =
      Some \<lparr>cl_started = True, cl_stopped = False, cl_delta_seen = False, cl_next = 1,
            cl_open = Some (0, ''tool_use'')\<rparr>"
    by (simp add: sample_events_def client_step_def client_new_def block_events delta_type_of_def
        jidx_def Let_def block_event_def event_index_def u32_try_from_def)
  note says = reader_says_what_events_say [OF this, of ToolChannel "[]"]
  have "events_say ToolChannel sample_events = ''{}''"
    by (simp add: sample_events_def event_says_other jidx_def)
  with says show ?thesis by (rule trans)
qed

end
