(* ===== verification/GeminiStream.thy ===== *)
theory GeminiStream
  imports Gemini Channels "HOL-Library.AList"
begin

text \<open>
  The stream half of \<open>src/protocol/gemini.rs\<close>. A frame is a whole answer; inbound, every function
  call gets the next tool index; outbound, the arguments of a call are gathered until they are
  JSON. The maps over tool indices are association lists in the order of insertion; where the
  code walks over the keys of a hash map, the order of the walk is the argument \<open>walk\<close>.
\<close>

record gem_stream =
  gs_next_tool_index :: u32
  gs_role_sent :: bool
  gs_multi_noted :: bool
  gs_tool_names :: "(u32 \<times> string) list"
  gs_tool_args :: "(u32 \<times> string) list"
  gs_tool_ids :: "(u32 \<times> string) list"
  gs_emitted :: "u32 set"

definition gem_stream_new :: gem_stream where
  "gem_stream_new =
     \<lparr>gs_next_tool_index = 0, gs_role_sent = False, gs_multi_noted = False, gs_tool_names = [],
      gs_tool_args = [], gs_tool_ids = [], gs_emitted = {}\<rparr>"

section \<open>Frames to IR chunks\<close>

definition delta_is_empty :: "ir_delta \<Rightarrow> bool" where
  "delta_is_empty d \<longleftrightarrow>
     dl_role d = None \<and> dl_content d = None \<and> dl_reasoning_content d = None \<and> dl_tool_calls d = []"

definition gem_delta_step ::
  "json_text \<Rightarrow> json \<Rightarrow> ir_delta \<times> u32 \<times> conv_ctx \<Rightarrow> ir_delta \<times> u32 \<times> conv_ctx" where
  "gem_delta_step js p s =
     (let (d, idx, ctx) = s
      in case as_str (jidx p ''text'') of
           Some t \<Rightarrow>
             (if unwrap_or False (as_bool (jidx p ''thought''))
              then d\<lparr>dl_reasoning_content := Some t\<rparr>
              else d\<lparr>dl_content := Some (unwrap_or [] (dl_content d) @ t)\<rparr>, idx, ctx)
         | None \<Rightarrow>
             (case jget ''functionCall'' p of
                Some fc \<Rightarrow>
                  (let name = str_or_empty (jidx fc ''name'')
                   in (d\<lparr>dl_tool_calls := dl_tool_calls d @
                           [\<lparr>tcd_index = idx, tcd_id = Some (made_up_id name idx), tcd_name = Some name,
                             tcd_arguments = Some (args_to_string js (jidx fc ''args''))\<rparr>]\<rparr>,
                       idx + 1, ctx))
              | None \<Rightarrow> (d, idx, degrade ''stream.content.part'' ''unknown part, dropped'' ctx)))"

definition gem_candidate_delta ::
  "json_text \<Rightarrow> json \<Rightarrow> gem_stream \<Rightarrow> conv_ctx \<Rightarrow> ir_delta \<times> gem_stream \<times> conv_ctx" where
  "gem_candidate_delta js c st ctx =
     (case jget ''content'' c of
        None \<Rightarrow> (default_delta, st, ctx)
      | Some content \<Rightarrow>
          (let (d, idx, ctx') =
                 fold (gem_delta_step js) (unwrap_or [] (Option.bind (jget ''parts'' content) as_array))
                   (default_delta, gs_next_tool_index st, ctx)
           in (if gs_role_sent st then d else d\<lparr>dl_role := Some RoleAssistant\<rparr>,
               st\<lparr>gs_next_tool_index := idx, gs_role_sent := True\<rparr>, ctx')))"

definition gem_value_to_ir ::
  "json_text \<Rightarrow> json \<Rightarrow> gem_stream \<Rightarrow> conv_ctx \<Rightarrow>
   (convert_error + ir_chunk option) \<times> gem_stream \<times> conv_ctx" where
  "gem_value_to_ir js v st ctx =
     (case as_object v of
        None \<Rightarrow> (Inl (ParseError ''chunk is not an object''), st, ctx)
      | Some obj \<Rightarrow>
         (let arr = unwrap_or [] (Option.bind (jget ''candidates'' v) as_array);
              several = (1 < length arr \<and> \<not> gs_multi_noted st);
              st1 = (if several then st\<lparr>gs_multi_noted := True\<rparr> else st);
              ctx1 = (if several
                      then degrade ''stream.candidates'' ''only the first candidate is kept'' ctx else ctx);
              (delta, st2, ctx2) =
                (case arr of [] \<Rightarrow> (default_delta, st1, ctx1) | c # _ \<Rightarrow> gem_candidate_delta js c st1 ctx1);
              raw = (case arr of [] \<Rightarrow> None | c # _ \<Rightarrow> as_str (jidx c ''finishReason''));
              usage = map_option parse_usage_metadata (jget ''usageMetadata'' v)
          in (Inr (if raw = None \<and> usage = None \<and> delta_is_empty delta then None
                   else Some (default_chunk
                     \<lparr>chk_choices :=
                        [\<lparr>cc_index = 0, cc_delta = delta,
                          cc_finish_reason = map_option normalize_finish_reason raw\<rparr>],
                      chk_usage := usage,
                      chk_extra :=
                        obj_collect (\<lambda>k. k \<notin> {''candidates'', ''usageMetadata''}) obj
                          (obj_insert_opt ''gemini_finish_reason'' (map_option JStr raw) [])\<rparr>)),
              st2, ctx2)))"

definition gem_chunk_to_ir ::
  "json_text \<Rightarrow> string \<Rightarrow> gem_stream \<Rightarrow> conv_ctx \<Rightarrow>
   (convert_error + ir_chunk option) \<times> gem_stream \<times> conv_ctx" where
  "gem_chunk_to_ir js data st ctx =
     (case from_text js data of
        Inl e \<Rightarrow> (Inl (ParseError e), st, ctx) | Inr v \<Rightarrow> gem_value_to_ir js v st ctx)"

section \<open>IR chunks to frames\<close>

definition flush_tool ::
  "json_text \<Rightarrow> u32 \<Rightarrow> gem_stream \<times> json list \<Rightarrow> gem_stream \<times> json list" where
  "flush_tool js i s =
     (let (st, parts) = s
      in if i \<in> gs_emitted st then (st, parts)
         else (case map_of (gs_tool_names st) i of
                 None \<Rightarrow> (st, parts)
               | Some name \<Rightarrow>
                   (let args = (case map_of (gs_tool_args st) i of
                                  None \<Rightarrow> JObj []
                                | Some a \<Rightarrow> (case from_text js a of Inr v \<Rightarrow> v | Inl _ \<Rightarrow> JObj []))
                    in (st\<lparr>gs_emitted := insert i (gs_emitted st)\<rparr>, parts @ [function_call_part name args]))))"

definition flush_unfinished_tools ::
  "json_text \<Rightarrow> (u32 list \<Rightarrow> u32 list) \<Rightarrow> gem_stream \<times> json list \<Rightarrow> gem_stream \<times> json list" where
  "flush_unfinished_tools js walk s = fold (flush_tool js) (walk (map fst (gs_tool_args (fst s)))) s"

text \<open>What a tool delta adds to the state, and the part it completes.\<close>

definition gather_tool :: "ir_tool_call_delta \<Rightarrow> gem_stream \<Rightarrow> gem_stream" where
  "gather_tool tc st =
     (let i = tcd_index tc;
          st1 = (case tcd_name tc of
                   None \<Rightarrow> st | Some n \<Rightarrow> st\<lparr>gs_tool_names := AList.update i n (gs_tool_names st)\<rparr>);
          st2 = (case tcd_arguments tc of
                   None \<Rightarrow> st1
                 | Some a \<Rightarrow>
                     st1\<lparr>gs_tool_args :=
                       AList.update i (unwrap_or [] (map_of (gs_tool_args st1) i) @ a) (gs_tool_args st1)\<rparr>)
      in (case (tcd_id tc, map_of (gs_tool_ids st2) i) of
            (Some u, None) \<Rightarrow> st2\<lparr>gs_tool_ids := AList.update i u (gs_tool_ids st2)\<rparr>
          | _ \<Rightarrow> st2))"

definition gem_tool_delta_step ::
  "json_text \<Rightarrow> ir_tool_call_delta \<Rightarrow> gem_stream \<times> json list \<Rightarrow> gem_stream \<times> json list" where
  "gem_tool_delta_step js tc s =
     (let (st, parts) = s; i = tcd_index tc; st1 = gather_tool tc st
      in if i \<in> gs_emitted st1 then (st1, parts)
         else (case (map_of (gs_tool_names st1) i, map_of (gs_tool_args st1) i) of
                 (Some name, Some args) \<Rightarrow>
                   (case from_text js args of
                      Inr v \<Rightarrow>
                        (st1\<lparr>gs_emitted := insert i (gs_emitted st1)\<rparr>, parts @ [function_call_part name v])
                    | Inl _ \<Rightarrow> (st1, parts))
               | _ \<Rightarrow> (st1, parts)))"

definition gem_chunk_parts ::
  "json_text \<Rightarrow> (u32 list \<Rightarrow> u32 list) \<Rightarrow> ir_delta \<Rightarrow> string option \<Rightarrow> gem_stream \<Rightarrow>
   gem_stream \<times> json list" where
  "gem_chunk_parts js walk delta finish st =
     (let texts = (case dl_content delta of None \<Rightarrow> [] | Some t \<Rightarrow> [json_obj [(''text'', JStr t)]]);
          thoughts = (case dl_reasoning_content delta of None \<Rightarrow> [] | Some rc \<Rightarrow> [thought_part rc]);
          (st1, parts) = fold (gem_tool_delta_step js) (dl_tool_calls delta) (st, texts @ thoughts)
      in if finish = None then (st1, parts) else flush_unfinished_tools js walk (st1, parts))"

definition gem_chunk_value ::
  "json_text \<Rightarrow> (u32 list \<Rightarrow> u32 list) \<Rightarrow> ir_chunk \<Rightarrow> gem_stream \<Rightarrow> conv_ctx \<Rightarrow>
   json \<times> gem_stream \<times> conv_ctx" where
  "gem_chunk_value js walk chunk st ctx =
     (let (delta, finish) = chunk_choice chunk;
          (st', parts) = gem_chunk_parts js walk delta finish st;
          (usage, ctx') = gem_usage_opt (chk_usage chunk) ctx;
          body = obj_insert_fields
            [(''candidates'', Some (JArr [candidate_json parts (json_u64 0) finish])),
             (''usageMetadata'', usage)] []
      in (JObj (obj_collect_missing (\<lambda>k. k \<noteq> ''gemini_finish_reason'') (chk_extra chunk) body), st', ctx'))"

definition gem_chunk_from_ir ::
  "json_text \<Rightarrow> (u32 list \<Rightarrow> u32 list) \<Rightarrow> ir_chunk \<Rightarrow> gem_stream \<Rightarrow> conv_ctx \<Rightarrow>
   (convert_error + string list) \<times> gem_stream \<times> conv_ctx" where
  "gem_chunk_from_ir js walk chunk st ctx =
     (let (v, st', ctx') = gem_chunk_value js walk chunk st ctx in (Inr [to_text js v], st', ctx'))"

definition gem_end_values ::
  "json_text \<Rightarrow> (u32 list \<Rightarrow> u32 list) \<Rightarrow> gem_stream \<Rightarrow> json list \<times> gem_stream" where
  "gem_end_values js walk st =
     (let (st', parts) = flush_unfinished_tools js walk (st, [])
      in (if parts = [] then []
          else [json_obj [(''candidates'', JArr [candidate_json parts (json_u64 0) None])]], st'))"

definition gem_stream_end ::
  "json_text \<Rightarrow> (u32 list \<Rightarrow> u32 list) \<Rightarrow> gem_stream \<Rightarrow> (convert_error + string list) \<times> gem_stream" where
  "gem_stream_end js walk st =
     (let (vs, st') = gem_end_values js walk st in (Inr (map (to_text js) vs), st'))"

end
