(* ===== verification/GeminiFrames.thy ===== *)
theory GeminiFrames
  imports GeminiStream
begin

text \<open>
  Whole Gemini streams: every call that got a name and arguments is sent exactly once, in
  whatever order the hash map is walked, and text and thinking come through a relay unchanged.
\<close>

section \<open>The stream\<close>

definition gem_emit ::
  "json_text \<Rightarrow> (u32 list \<Rightarrow> u32 list) \<Rightarrow> ir_chunk \<Rightarrow> gem_stream \<times> conv_ctx \<Rightarrow> json list \<times> gem_stream \<times> conv_ctx" where
  "gem_emit js walk chunk s =
     (let (v, st', ctx') = gem_chunk_value js walk chunk (fst s) (snd s) in ([v], st', ctx'))"

definition gem_frames :: "json_text \<Rightarrow> (u32 list \<Rightarrow> u32 list) \<Rightarrow> ir_chunk list \<Rightarrow> json list" where
  "gem_frames js walk cs =
     (let (vs, st, ctx) = emit_all (gem_emit js walk) cs (gem_stream_new, [])
      in vs @ fst (gem_end_values js walk st))"

text \<open>The parts of a frame, and which of them are function calls.\<close>

definition frame_parts :: "json \<Rightarrow> json list" where
  "frame_parts v =
     (case as_array (jidx v ''candidates'') of
        Some (c # _) \<Rightarrow> unwrap_or [] (as_array (jidx (jidx c ''content'') ''parts''))
      | _ \<Rightarrow> [])"

definition is_call_part :: "json \<Rightarrow> bool" where
  "is_call_part p \<longleftrightarrow> jget ''functionCall'' p \<noteq> None"

definition calls_in :: "json list \<Rightarrow> nat" where
  "calls_in parts = length (filter is_call_part parts)"

lemma calls_in_simps [simp]:
  "calls_in [] = 0" "calls_in (ps @ ps') = calls_in ps + calls_in ps'"
  "calls_in (p # ps) = (if is_call_part p then 1 else 0) + calls_in ps"
  by (simp_all add: calls_in_def)

lemma is_call_part_simps [simp]:
  "is_call_part (function_call_part name args)" "\<not> is_call_part (thought_part rc)"
  "\<not> is_call_part (json_obj [(''text'', JStr t)])"
  by (simp_all add: is_call_part_def function_call_part_def thought_part_def)

text \<open>The tool indices that have a name and arguments.\<close>

definition known_tools :: "gem_stream \<Rightarrow> u32 set" where
  "known_tools st = fst ` set (gs_tool_names st) \<inter> fst ` set (gs_tool_args st)"

text \<open>Only calls that are known are sent, and each sent part marks one call.\<close>

definition tools_sent :: "gem_stream \<times> json list \<Rightarrow> gem_stream \<times> json list \<Rightarrow> bool" where
  "tools_sent s s' \<longleftrightarrow>
     (\<exists>calls. snd s' = snd s @ calls \<and> list_all (\<lambda>v. \<exists>n a. v = function_call_part n a) calls \<and>
        (finite (gs_emitted (fst s)) \<longrightarrow>
           finite (gs_emitted (fst s')) \<and>
           calls_in calls + card (gs_emitted (fst s)) = card (gs_emitted (fst s'))) \<and>
        (gs_emitted (fst s) \<subseteq> known_tools (fst s) \<longrightarrow> gs_emitted (fst s') \<subseteq> known_tools (fst s')))"

lemma tools_sent_refl [simp]: "tools_sent s s"
  by (simp add: tools_sent_def)

lemma tools_sent_trans: "tools_sent s s1 \<Longrightarrow> tools_sent s1 s' \<Longrightarrow> tools_sent s s'"
  unfolding tools_sent_def by (elim exE) (rule exI [of _ "_ @ _"], auto)

lemma fold_tools_sent:
  assumes "\<And>x s. tools_sent s (f x s)"
  shows "tools_sent s (fold f xs s)"
proof (induction xs arbitrary: s)
  case (Cons x xs)
  from tools_sent_trans [OF assms [of s x] Cons.IH] show ?case by simp
qed simp

lemma map_of_in_keys: "map_of m k = Some v \<Longrightarrow> k \<in> fst ` set m"
  by (metis domI dom_map_of_conv_image_fst)

lemma flush_tool_sent:
  assumes "i \<in> fst ` set (gs_tool_args (fst s))"
  shows "tools_sent s (flush_tool js i s)"
  using assms
  by (cases s) (auto simp: flush_tool_def tools_sent_def known_tools_def Let_def map_of_in_keys
      split: option.splits sum.splits)

lemma flush_tool_state:
  "gs_tool_args (fst (flush_tool js i s)) = gs_tool_args (fst s)"
  "gs_tool_names (fst (flush_tool js i s)) = gs_tool_names (fst s)"
  "gs_emitted (fst (flush_tool js i s)) = gs_emitted (fst s) \<union> ({i} \<inter> fst ` set (gs_tool_names (fst s)))"
  by (cases s; auto simp: flush_tool_def Let_def map_of_in_keys map_of_eq_None_iff
      split: option.splits)+

lemma flush_all:
  "set is \<subseteq> fst ` set (gs_tool_args (fst s)) \<Longrightarrow>
   tools_sent s (fold (flush_tool js) is s) \<and>
   gs_tool_args (fst (fold (flush_tool js) is s)) = gs_tool_args (fst s) \<and>
   gs_tool_names (fst (fold (flush_tool js) is s)) = gs_tool_names (fst s) \<and>
   gs_emitted (fst (fold (flush_tool js) is s)) =
     gs_emitted (fst s) \<union> (set is \<inter> fst ` set (gs_tool_names (fst s)))"
proof (induction "is" arbitrary: s)
  case (Cons i "is")
  have "tools_sent s (flush_tool js i s)" using Cons.prems by (intro flush_tool_sent) simp
  with Cons.IH [of "flush_tool js i s"] Cons.prems show ?case
    by (auto simp: flush_tool_state intro: tools_sent_trans)
qed simp

lemma flush_unfinished:
  assumes "\<And>ks. set (walk ks) = set ks"
  shows "tools_sent s (flush_unfinished_tools js walk s)"
    "known_tools (fst (flush_unfinished_tools js walk s)) = known_tools (fst s)"
    "gs_emitted (fst (flush_unfinished_tools js walk s)) = gs_emitted (fst s) \<union> known_tools (fst s)"
  using flush_all [of "walk (map fst (gs_tool_args (fst s)))" s js] assms
  by (auto simp: flush_unfinished_tools_def known_tools_def)

lemma keys_update: "fst ` set (AList.update k v m) = insert k (fst ` set m)"
  by (simp add: dom_map_of_conv_image_fst [symmetric] update_conv')

lemma gather_tool_keeps:
  "gs_emitted (gather_tool tc st) = gs_emitted st" "known_tools st \<subseteq> known_tools (gather_tool tc st)"
  by (auto simp: gather_tool_def known_tools_def keys_update Let_def split: option.splits)

definition tools_with :: "(ir_tool_call_delta \<Rightarrow> string option) \<Rightarrow> ir_tool_call_delta list \<Rightarrow> u32 set" where
  "tools_with f tcs = tcd_index ` set (filter (\<lambda>tc. f tc \<noteq> None) tcs)"

lemma tools_with_simps [simp]:
  "tools_with f [] = {}" "tools_with f (tcs @ tcs') = tools_with f tcs \<union> tools_with f tcs'"
  "tools_with f (tc # tcs) = (if f tc \<noteq> None then {tcd_index tc} else {}) \<union> tools_with f tcs"
  by (auto simp: tools_with_def)

lemma gather_tool_known:
  "fst ` set (gs_tool_names (gather_tool tc st)) = fst ` set (gs_tool_names st) \<union> tools_with tcd_name [tc]"
  "fst ` set (gs_tool_args (gather_tool tc st)) = fst ` set (gs_tool_args st) \<union> tools_with tcd_arguments [tc]"
  by (auto simp: gather_tool_def keys_update Let_def split: option.splits)

lemma known_tools_emitted [simp]: "known_tools (st\<lparr>gs_emitted := E\<rparr>) = known_tools st"
  by (simp add: known_tools_def)

lemma gather_sent: "tools_sent (st, parts) (gather_tool tc st, parts)"
  using gather_tool_keeps [where tc = tc and st = st] by (auto simp: tools_sent_def)

lemma one_sent:
  "i \<notin> gs_emitted st \<Longrightarrow> i \<in> known_tools st \<Longrightarrow>
   tools_sent (st, parts) (st\<lparr>gs_emitted := insert i (gs_emitted st)\<rparr>, parts @ [function_call_part n a])"
  by (auto simp: tools_sent_def)

lemma known_toolsI: "map_of (gs_tool_names st) i = Some n \<Longrightarrow> map_of (gs_tool_args st) i = Some a \<Longrightarrow> i \<in> known_tools st"
  by (simp add: known_tools_def map_of_in_keys)

lemma gem_tool_delta_sent: "tools_sent s (gem_tool_delta_step js tc s)"
proof (cases s)
  case (Pair st parts)
  note sent = gather_sent [of st parts tc]
  show ?thesis
    by (auto simp: gem_tool_delta_step_def Pair Let_def sent split: option.splits sum.splits
        intro: tools_sent_trans [OF sent one_sent] known_toolsI)
qed

lemma gem_tool_delta_known:
  "gs_tool_names (fst (gem_tool_delta_step js tc s)) = gs_tool_names (gather_tool tc (fst s))"
  "gs_tool_args (fst (gem_tool_delta_step js tc s)) = gs_tool_args (gather_tool tc (fst s))"
  by (cases s; simp add: gem_tool_delta_step_def Let_def split: option.splits sum.splits)+

lemma gem_deltas_known:
  "fst ` set (gs_tool_names (fst (fold (gem_tool_delta_step js) tcs s))) =
     fst ` set (gs_tool_names (fst s)) \<union> tools_with tcd_name tcs"
  "fst ` set (gs_tool_args (fst (fold (gem_tool_delta_step js) tcs s))) =
     fst ` set (gs_tool_args (fst s)) \<union> tools_with tcd_arguments tcs"
  by (induction tcs arbitrary: s) (simp_all add: gem_tool_delta_known gather_tool_known Un_assoc)

section \<open>Whole chunks\<close>

text \<open>The tool deltas of chunks, and the calls among them.\<close>

definition chunk_tools :: "ir_chunk \<Rightarrow> ir_tool_call_delta list" where
  "chunk_tools chunk = dl_tool_calls (fst (chunk_choice chunk))"

definition text_parts :: "ir_delta \<Rightarrow> json list" where
  "text_parts d =
     (case dl_content d of None \<Rightarrow> [] | Some t \<Rightarrow> [json_obj [(''text'', JStr t)]]) @
     (case dl_reasoning_content d of None \<Rightarrow> [] | Some rc \<Rightarrow> [thought_part rc])"

lemma text_parts_no_calls [simp]: "calls_in (text_parts d) = 0"
  by (simp add: text_parts_def split: option.splits)

lemma gem_chunk_parts_sent:
  assumes walk: "\<And>ks. set (walk ks) = set ks"
    and run: "gem_chunk_parts js walk delta finish st = (st', parts)"
  shows "tools_sent (st, text_parts delta) (st', parts)"
    "fst ` set (gs_tool_names st') = fst ` set (gs_tool_names st) \<union>
       tools_with tcd_name (dl_tool_calls delta)"
    "fst ` set (gs_tool_args st') = fst ` set (gs_tool_args st) \<union>
       tools_with tcd_arguments (dl_tool_calls delta)"
proof -
  define s1 where "s1 = fold (gem_tool_delta_step js) (dl_tool_calls delta) (st, text_parts delta)"
  have sent: "tools_sent (st, text_parts delta) s1"
    unfolding s1_def by (rule fold_tools_sent) (rule gem_tool_delta_sent)
  have out: "(st', parts) = (if finish = None then s1 else flush_unfinished_tools js walk s1)"
    using run by (cases finish) (auto simp: gem_chunk_parts_def s1_def text_parts_def Let_def)
  have flushed: "tools_sent s1 (st', parts) \<and> gs_tool_names st' = gs_tool_names (fst s1) \<and>
      gs_tool_args st' = gs_tool_args (fst s1)"
  proof (cases "finish = None")
    case True
    with out have "s1 = (st', parts)" by simp
    then show ?thesis by simp
  next
    case False
    with out have "fold (flush_tool js) (walk (map fst (gs_tool_args (fst s1)))) s1 = (st', parts)"
      by (simp add: flush_unfinished_tools_def)
    then show ?thesis
      using flush_all [of "walk (map fst (gs_tool_args (fst s1)))" s1 js] by (simp add: walk)
  qed
  show "tools_sent (st, text_parts delta) (st', parts)" by (rule tools_sent_trans [OF sent]) (simp add: flushed)
  show "fst ` set (gs_tool_names st') = fst ` set (gs_tool_names st) \<union>
       tools_with tcd_name (dl_tool_calls delta)"
    "fst ` set (gs_tool_args st') = fst ` set (gs_tool_args st) \<union>
       tools_with tcd_arguments (dl_tool_calls delta)"
    using flushed unfolding s1_def by (simp_all add: gem_deltas_known)
qed

lemma obj_get_collect_kept: "obj_get k acc = Some v \<Longrightarrow> obj_get k (obj_collect_missing p m acc) = Some v"
proof (induction m arbitrary: acc)
  case (Cons kv m)
  obtain j w where kv: "kv = (j, w)" by force
  have "obj_get k (if p j then obj_or_insert j w acc else acc) = Some v"
    using Cons.prems by (auto simp: obj_get_or_insert)
  from Cons.IH [OF this] show ?case by (simp add: kv obj_collect_missing_def)
qed (simp add: obj_collect_missing_def)

lemma frame_parts_candidate:
  assumes "obj_get ''candidates'' m = Some (JArr [candidate_json parts i fr])"
  shows "frame_parts (JObj m) = parts"
  using assms by (simp add: frame_parts_def candidate_json_def model_content_def obj_lookup)

lemma gem_chunk_frame:
  assumes "gem_chunk_value js walk chunk st ctx = (v, st', ctx')"
  obtains parts m where "gem_chunk_parts js walk (fst (chunk_choice chunk)) (snd (chunk_choice chunk)) st = (st', parts)"
    "v = JObj m" "obj_get ''candidates'' m = Some (JArr [candidate_json parts (json_u64 0) (snd (chunk_choice chunk))])"
proof -
  obtain st1 parts where parts:
    "gem_chunk_parts js walk (fst (chunk_choice chunk)) (snd (chunk_choice chunk)) st = (st1, parts)" by force
  obtain usage ctx1 where usage: "gem_usage_opt (chk_usage chunk) ctx = (usage, ctx1)" by force
  show thesis
  proof (rule that)
    show "gem_chunk_parts js walk (fst (chunk_choice chunk)) (snd (chunk_choice chunk)) st = (st', parts)"
      "v = JObj (obj_collect_missing (\<lambda>k. k \<noteq> ''gemini_finish_reason'') (chk_extra chunk)
        (obj_insert_fields
            [(''candidates'', Some (JArr [candidate_json parts (json_u64 0) (snd (chunk_choice chunk))])),
             (''usageMetadata'', usage)] []))"
      using assms parts usage by (simp_all add: gem_chunk_value_def split_def Let_def)
  qed (simp add: obj_get_collect_kept obj_lookup)
qed

lemma finite_calls_new: "finite (gs_emitted gem_stream_new)" "gs_emitted gem_stream_new = {}" "known_tools gem_stream_new = {}"
  by (simp_all add: gem_stream_new_def known_tools_def)

definition stream_tools :: "(ir_tool_call_delta \<Rightarrow> string option) \<Rightarrow> ir_chunk list \<Rightarrow> u32 set" where
  "stream_tools f cs = tools_with f (concat (map (\<lambda>c. dl_tool_calls (fst (chunk_choice c))) cs))"

lemma stream_tools_simps [simp]:
  "stream_tools f [] = {}"
  "stream_tools f (c # cs) = tools_with f (dl_tool_calls (fst (chunk_choice c))) \<union> stream_tools f cs"
  by (simp_all add: stream_tools_def)

definition frames_calls :: "json list \<Rightarrow> nat" where
  "frames_calls vs = calls_in (concat (map frame_parts vs))"

lemma frames_calls_simps [simp]:
  "frames_calls [] = 0" "frames_calls (v # vs) = calls_in (frame_parts v) + frames_calls vs"
  "frames_calls (vs @ vs') = frames_calls vs + frames_calls vs'"
  by (simp_all add: frames_calls_def)

lemma gem_chunk_calls:
  assumes walk: "\<And>ks. set (walk ks) = set ks"
    and run: "gem_chunk_value js walk chunk st ctx = (v, st', ctx')"
    and ok: "finite (gs_emitted st)" "gs_emitted st \<subseteq> known_tools st"
  shows "finite (gs_emitted st') \<and> gs_emitted st' \<subseteq> known_tools st' \<and>
    calls_in (frame_parts v) + card (gs_emitted st) = card (gs_emitted st') \<and>
    fst ` set (gs_tool_names st') = fst ` set (gs_tool_names st) \<union> stream_tools tcd_name [chunk] \<and>
    fst ` set (gs_tool_args st') = fst ` set (gs_tool_args st) \<union> stream_tools tcd_arguments [chunk]"
proof -
  obtain parts m where
    parts: "gem_chunk_parts js walk (fst (chunk_choice chunk)) (snd (chunk_choice chunk)) st = (st', parts)"
    and v: "v = JObj m"
      "obj_get ''candidates'' m = Some (JArr [candidate_json parts (json_u64 0) (snd (chunk_choice chunk))])"
    using run by (rule gem_chunk_frame)
  note sent = gem_chunk_parts_sent [OF walk parts]
  have "frame_parts v = parts" using v by (simp add: frame_parts_candidate)
  with sent ok show ?thesis by (auto simp: tools_sent_def)
qed

lemma gem_stream_calls:
  assumes walk: "\<And>ks. set (walk ks) = set ks"
  shows "emit_all (gem_emit js walk) cs (st, ctx) = (vs, st', ctx') \<Longrightarrow>
    finite (gs_emitted st) \<Longrightarrow> gs_emitted st \<subseteq> known_tools st \<Longrightarrow>
    finite (gs_emitted st') \<and> gs_emitted st' \<subseteq> known_tools st' \<and>
    frames_calls vs + card (gs_emitted st) = card (gs_emitted st') \<and>
    fst ` set (gs_tool_names st') = fst ` set (gs_tool_names st) \<union> stream_tools tcd_name cs \<and>
    fst ` set (gs_tool_args st') = fst ` set (gs_tool_args st) \<union> stream_tools tcd_arguments cs"
proof (induction cs arbitrary: st ctx vs)
  case (Cons c cs)
  obtain v st1 ctx1 where one: "gem_chunk_value js walk c st ctx = (v, st1, ctx1)" by (metis prod_cases3)
  obtain vs1 where rest: "emit_all (gem_emit js walk) cs (st1, ctx1) = (vs1, st', ctx')" "vs = v # vs1"
    using Cons.prems(1) by (auto simp: gem_emit_def [of js walk c] one split: prod.splits)
  note head = gem_chunk_calls [OF walk one Cons.prems(2,3)]
  from Cons.IH [OF rest(1)] head show ?case by (auto simp: rest(2))
qed simp

lemma gem_frames_calls:
  assumes walk: "\<And>ks. set (walk ks) = set ks"
  shows "frames_calls (gem_frames js walk cs) = card (stream_tools tcd_name cs \<inter> stream_tools tcd_arguments cs)"
proof -
  obtain vs st ctx where run: "emit_all (gem_emit js walk) cs (gem_stream_new, []) = (vs, st, ctx)"
    by (metis prod_cases3)
  obtain st' parts where fin: "flush_unfinished_tools js walk (st, []) = (st', parts)" by force
  have new: "fst ` set (gs_tool_names gem_stream_new) = {}" "fst ` set (gs_tool_args gem_stream_new) = {}"
    by (simp_all add: gem_stream_new_def)
  note all = gem_stream_calls [OF walk run, simplified finite_calls_new new, simplified]
  note flush = flush_unfinished [where s = "(st, [])" and js = js and walk = walk, OF walk, unfolded fin]
  have "frames_calls (fst (gem_end_values js walk st)) = calls_in parts"
    by (simp add: gem_end_values_def fin frame_parts_candidate json_obj_def)
  moreover have "calls_in parts + card (gs_emitted st) = card (gs_emitted st')"
    using flush(1) all by (simp add: tools_sent_def)
  moreover have "gs_emitted st' = known_tools st" using flush(3) all by auto
  moreover have "known_tools st = stream_tools tcd_name cs \<inter> stream_tools tcd_arguments cs"
    using all by (simp add: known_tools_def)
  ultimately show ?thesis using all by (simp add: gem_frames_def run)
qed

section \<open>Text and thinking through a relay\<close>

lemma read_call_parts:
  "list_all (\<lambda>v. \<exists>n a. v = function_call_part n a) calls \<Longrightarrow>
   fold (gem_delta_step js) calls (d, idx, ctx) = (d', idx', ctx') \<Longrightarrow>
   dl_content d' = dl_content d \<and> dl_reasoning_content d' = dl_reasoning_content d"
proof (induction calls arbitrary: d idx ctx)
  case (Cons v calls)
  obtain n a where v: "v = function_call_part n a" using Cons.prems(1) by auto
  obtain d1 idx1 ctx1 where one: "gem_delta_step js v (d, idx, ctx) = (d1, idx1, ctx1)" by (metis prod_cases3)
  have "dl_content d1 = dl_content d \<and> dl_reasoning_content d1 = dl_reasoning_content d"
    using one by (auto simp: gem_delta_step_def v function_call_part_def jidx_def Let_def)
  with Cons.IH [of d1 idx1 ctx1] Cons.prems one show ?case by simp
qed simp

lemma read_text_parts:
  "fold (gem_delta_step js) (text_parts d) (default_delta, idx, ctx) =
     (default_delta\<lparr>dl_content := dl_content d, dl_reasoning_content := dl_reasoning_content d\<rparr>, idx, ctx)"
  by (auto simp: text_parts_def gem_delta_step_def thought_part_def jidx_def default_delta_def split: option.splits)

lemma read_frame:
  assumes "obj_get ''candidates'' m = Some (JArr [candidate_json (text_parts d @ calls) i fr])"
    and "list_all (\<lambda>v. \<exists>n a. v = function_call_part n a) calls" "ch \<noteq> ToolChannel"
    and "gem_value_to_ir js (JObj m) st ctx = (r, st', ctx')"
  shows "read_says ch r = delta_says ch d"
proof -
  let ?c = "candidate_json (text_parts d @ calls) i fr"
  obtain d1 idx ctx1 where read: "fold (gem_delta_step js) (text_parts d @ calls)
      (default_delta, gs_next_tool_index st, ctx) = (d1, idx, ctx1)" by (metis prod_cases3)
  have d1: "dl_content d1 = dl_content d" "dl_reasoning_content d1 = dl_reasoning_content d"
    using read_call_parts [OF assms(2)] read by (auto simp: read_text_parts)
  have "jget ''content'' ?c = Some (model_content (text_parts d @ calls))"
    by (simp add: candidate_json_def obj_lookup)
  moreover have "unwrap_or [] (Option.bind (jget ''parts'' (model_content (text_parts d @ calls))) as_array) =
      text_parts d @ calls"
    by (simp add: model_content_def obj_lookup)
  ultimately obtain d2 st2 where delta: "gem_candidate_delta js ?c st ctx = (d2, st2, ctx1)"
    "dl_content d2 = dl_content d" "dl_reasoning_content d2 = dl_reasoning_content d"
    using read d1 by (auto simp: gem_candidate_delta_def Let_def)
  have arr: "unwrap_or [] (Option.bind (obj_get ''candidates'' m) as_array) = [?c]" by (simp add: assms(1))
  have "delta_says ch d2 = delta_says ch d" using delta(2,3) assms(3) by (cases ch) simp_all
  moreover have "delta_is_empty d2 \<Longrightarrow> delta_says ch d = []"
    using delta(2,3) assms(3) by (cases ch) (simp_all add: delta_is_empty_def)
  ultimately show ?thesis
    using assms(4) delta(1)
    by (auto simp: gem_value_to_ir_def arr read_says_def chunk_says_def chunk_choice_def default_chunk_def Let_def)
qed

lemma read_frame_none:
  assumes "ch \<noteq> ToolChannel" "gem_value_to_ir js (json_obj [(''candidates'', JArr [candidate_json calls i fr])]) st ctx = (r, st', ctx')"
    and "list_all (\<lambda>v. \<exists>n a. v = function_call_part n a) calls"
  shows "read_says ch r = []"
proof -
  have "text_parts default_delta = []" by (simp add: text_parts_def default_delta_def)
  with read_frame [of "[(''candidates'', JArr [candidate_json calls i fr])]" default_delta calls i fr ch js st ctx r st' ctx']
    assms show ?thesis by (simp add: json_obj_def)
qed

lemma gem_chunk_shape:
  assumes walk: "\<And>ks. set (walk ks) = set ks"
    and run: "gem_chunk_value js walk chunk st ctx = (v, st', ctx')"
  obtains calls m fr where "v = JObj m" "list_all (\<lambda>v. \<exists>n a. v = function_call_part n a) calls"
    "obj_get ''candidates'' m =
       Some (JArr [candidate_json (text_parts (fst (chunk_choice chunk)) @ calls) (json_u64 0) fr])"
proof -
  obtain parts m where
    parts: "gem_chunk_parts js walk (fst (chunk_choice chunk)) (snd (chunk_choice chunk)) st = (st', parts)"
    and v: "v = JObj m"
      "obj_get ''candidates'' m = Some (JArr [candidate_json parts (json_u64 0) (snd (chunk_choice chunk))])"
    using run by (rule gem_chunk_frame)
  with gem_chunk_parts_sent(1) [OF walk parts] that show thesis by (auto simp: tools_sent_def)
qed

lemma read_all_append:
  "\<exists>c'. read_all f (vs @ vs') c = read_all f vs c @ read_all f vs' c'"
proof (induction vs arbitrary: c)
  case (Cons v vs)
  obtain st ctx where c: "c = (st, ctx)" by force
  obtain r st1 ctx1 where r: "f v st ctx = (r, st1, ctx1)" by (metis prod_cases3)
  from Cons.IH [of "(st1, ctx1)"] show ?case by (auto simp: c r)
qed auto

lemma read_all_one: "concat (map (chunk_says ch) (read_all f [v] (st, ctx))) = read_says ch (fst (f v st ctx))"
  by (cases "f v st ctx") (auto simp: read_says_def split: sum.splits option.splits)

lemma gem_relay:
  assumes walk: "\<And>ks. set (walk ks) = set ks" and ch: "ch \<noteq> ToolChannel"
  shows "emit_all (gem_emit js walk) cs (st, octx) = (vs, st', octx') \<Longrightarrow>
    concat (map (chunk_says ch) (read_all (gem_value_to_ir js) vs (rst, rctx))) = concat (map (chunk_says ch) cs)"
proof (induction cs arbitrary: st octx vs rst rctx)
  case (Cons c cs)
  obtain v st1 octx1 where one: "gem_chunk_value js walk c st octx = (v, st1, octx1)" by (metis prod_cases3)
  obtain vs1 where rest: "emit_all (gem_emit js walk) cs (st1, octx1) = (vs1, st', octx')" "vs = v # vs1"
    using Cons.prems(1) by (auto simp: gem_emit_def [of js walk c] one split: prod.splits)
  obtain r rst1 rctx1 where r: "gem_value_to_ir js v rst rctx = (r, rst1, rctx1)" by (metis prod_cases3)
  obtain calls m fr where v: "v = JObj m" and calls: "list_all (\<lambda>v. \<exists>n a. v = function_call_part n a) calls"
    and m: "obj_get ''candidates'' m =
      Some (JArr [candidate_json (text_parts (fst (chunk_choice c)) @ calls) (json_u64 0) fr])"
    using walk one by (rule gem_chunk_shape)
  have "read_says ch r = chunk_says ch c"
    using read_frame [OF m calls ch r [unfolded v]] by (simp add: chunk_says_def)
  with Cons.IH [OF rest(1), of rst1 rctx1] show ?case
    by (auto simp: rest(2) r read_says_def split: sum.splits option.splits)
qed simp

lemma gem_frames_relay:
  assumes walk: "\<And>ks. set (walk ks) = set ks" and ch: "ch \<noteq> ToolChannel"
  shows "concat (map (chunk_says ch) (read_all (gem_value_to_ir js) (gem_frames js walk cs) (gem_stream_new, ctx))) =
    concat (map (chunk_says ch) cs)"
proof -
  obtain vs st octx where run: "emit_all (gem_emit js walk) cs (gem_stream_new, []) = (vs, st, octx)"
    by (metis prod_cases3)
  obtain st' parts where fin: "flush_unfinished_tools js walk (st, []) = (st', parts)" by force
  have shape: "list_all (\<lambda>v. \<exists>n a. v = function_call_part n a) parts"
    using flush_unfinished(1) [where s = "(st, [])" and js = js and walk = walk, OF walk]
    by (simp add: fin tools_sent_def)
  obtain c' where split: "read_all (gem_value_to_ir js) (gem_frames js walk cs) (gem_stream_new, ctx) =
      read_all (gem_value_to_ir js) vs (gem_stream_new, ctx) @
      read_all (gem_value_to_ir js) (fst (gem_end_values js walk st)) c'"
    using read_all_append [of "gem_value_to_ir js" vs "fst (gem_end_values js walk st)" "(gem_stream_new, ctx)"]
    by (auto simp: gem_frames_def run)
  have "concat (map (chunk_says ch) (read_all (gem_value_to_ir js) (fst (gem_end_values js walk st)) c')) = []"
  proof (cases "parts = []")
    case False
    obtain rst rctx where c': "c' = (rst, rctx)" by force
    obtain r rst1 rctx1 where r: "gem_value_to_ir js
        (json_obj [(''candidates'', JArr [candidate_json parts (json_u64 0) None])]) rst rctx = (r, rst1, rctx1)"
      by (metis prod_cases3)
    have "fst (gem_end_values js walk st) = [json_obj [(''candidates'', JArr [candidate_json parts (json_u64 0) None])]]"
      using False by (simp add: gem_end_values_def fin)
    then show ?thesis
      using read_frame_none [OF ch r shape] by (simp only: c' read_all_one r fst_conv)
  qed (simp add: gem_end_values_def fin)
  with gem_relay [OF walk ch run] show ?thesis by (simp add: split)
qed

section \<open>Properties\<close>


definition gem_sample_chunk :: "ir_delta \<Rightarrow> string option \<Rightarrow> ir_chunk" where
  "gem_sample_chunk delta fr =
     default_chunk\<lparr>chk_choices := [\<lparr>cc_index = 0, cc_delta = delta, cc_finish_reason = fr\<rparr>]\<rparr>"

definition gem_sample_stream :: "ir_chunk list" where
  "gem_sample_stream =
     [gem_sample_chunk (default_delta\<lparr>dl_content := Some ''hi'', dl_reasoning_content := Some ''so''\<rparr>) None,
      gem_sample_chunk (default_delta\<lparr>dl_tool_calls :=
        [\<lparr>tcd_index = 0, tcd_id = Some ''t1'', tcd_name = Some ''f'', tcd_arguments = Some ''{''\<rparr>]\<rparr>) None,
      gem_sample_chunk (default_delta\<lparr>dl_tool_calls :=
        [\<lparr>tcd_index = 0, tcd_id = None, tcd_name = None, tcd_arguments = Some ''}''\<rparr>]\<rparr>) (Some ''stop'')]"


text \<open>
  C13: text and thinking come through a relay over Gemini frames unchanged: what \<open>chunk_to_ir\<close> reads of
  the frames that \<open>chunk_from_ir\<close> and \<open>stream_end\<close> send is what the chunks said.
\<close>

theorem gem_relay_faithful:
  assumes "\<And>ks. set (walk ks) = set ks" "ch \<noteq> ToolChannel"
  shows "concat (map (chunk_says ch) (read_all (gem_value_to_ir js) (gem_frames js walk cs) (gem_stream_new, ctx))) =
    concat (map (chunk_says ch) cs)"
  using assms by (rule gem_frames_relay)

lemma gem_relay_faithful_witness:
  "concat (map (chunk_says ThinkingChannel) (read_all
     (gem_value_to_ir \<lparr>to_text = (\<lambda>_. []), from_text = (\<lambda>_. Inl [])\<rparr>)
     (gem_frames \<lparr>to_text = (\<lambda>_. []), from_text = (\<lambda>_. Inl [])\<rparr> rev gem_sample_stream) (gem_stream_new, []))) = ''so''"
  using gem_relay_faithful [of rev ThinkingChannel _ gem_sample_stream "[]"]
  by (simp add: gem_sample_stream_def gem_sample_chunk_def chunk_says_def chunk_choice_def default_chunk_def
      default_delta_def)

end
