(* ===== verification/Dispatch.thy ===== *)
theory Dispatch
  imports AnthropicClient ResponsesReader GeminiFrames
begin

text \<open>
  The dispatch of \<open>src/protocol/mod.rs\<close> over the four protocols. What the adapters take from outside
  is one environment: the JSON library, the clock behind the item ids of Responses, and the
  order in which a hash map is walked. The process-wide counter of \<open>rand_suffix\<close> is threaded as
  \<open>seq\<close>.
\<close>

record proto_env =
  pe_json :: json_text
  pe_clock :: "u64 \<Rightarrow> nat"
  pe_walk :: "u32 list \<Rightarrow> u32 list"

section \<open>Requests and responses\<close>

definition request_to_ir ::
  "json_text \<Rightarrow> protocol \<Rightarrow> json \<Rightarrow> conv_ctx \<Rightarrow> (convert_error + ir_request) \<times> conv_ctx" where
  "request_to_ir js p v ctx =
     (case p of
        OpenaiChat \<Rightarrow> chat_request_to_ir js v ctx
      | OpenaiResponses \<Rightarrow> resp_request_to_ir js v ctx
      | Anthropic \<Rightarrow> anth_request_to_ir js v ctx
      | Gemini \<Rightarrow> gem_request_to_ir js v ctx)"

definition request_from_ir ::
  "json_text \<Rightarrow> protocol \<Rightarrow> ir_request \<Rightarrow> conv_ctx \<Rightarrow> (convert_error + json) \<times> conv_ctx" where
  "request_from_ir js p req ctx =
     (case p of
        OpenaiChat \<Rightarrow> chat_request_from_ir req ctx
      | OpenaiResponses \<Rightarrow> resp_request_from_ir req ctx
      | Anthropic \<Rightarrow> anth_request_from_ir js req ctx
      | Gemini \<Rightarrow> gem_request_from_ir js req ctx)"

definition response_to_ir ::
  "json_text \<Rightarrow> protocol \<Rightarrow> json \<Rightarrow> conv_ctx \<Rightarrow> (convert_error + ir_response) \<times> conv_ctx" where
  "response_to_ir js p v ctx =
     (case p of
        OpenaiChat \<Rightarrow> chat_response_to_ir js v ctx
      | OpenaiResponses \<Rightarrow> resp_response_to_ir js v ctx
      | Anthropic \<Rightarrow> anth_response_to_ir js v ctx
      | Gemini \<Rightarrow> gem_response_to_ir js v ctx)"

definition response_from_ir ::
  "proto_env \<Rightarrow> protocol \<Rightarrow> ir_response \<Rightarrow> u64 \<Rightarrow> conv_ctx \<Rightarrow> (convert_error + json) \<times> u64 \<times> conv_ctx" where
  "response_from_ir env p resp seq ctx =
     (case p of
        OpenaiChat \<Rightarrow> (let (r, ctx') = chat_response_from_ir resp ctx in (r, seq, ctx'))
      | OpenaiResponses \<Rightarrow> resp_response_from_ir (pe_clock env) resp seq ctx
      | Anthropic \<Rightarrow> (let (r, ctx') = anth_response_from_ir (pe_json env) resp ctx in (r, seq, ctx'))
      | Gemini \<Rightarrow> (let (r, ctx') = gem_response_from_ir (pe_json env) resp ctx in (r, seq, ctx')))"

section \<open>Streams\<close>

datatype any_stream =
  ChatStream | ResponsesStream resp_stream | AnthropicStream anth_stream | GeminiStream gem_stream

definition any_stream_new :: "protocol \<Rightarrow> any_stream" where
  "any_stream_new p =
     (case p of
        OpenaiChat \<Rightarrow> ChatStream
      | OpenaiResponses \<Rightarrow> ResponsesStream resp_stream_new
      | Anthropic \<Rightarrow> AnthropicStream anth_stream_new
      | Gemini \<Rightarrow> GeminiStream gem_stream_new)"

definition mismatch :: convert_error where
  "mismatch = UnsupportedError ''stream state does not match the protocol''"

fun chunk_to_ir ::
  "json_text \<Rightarrow> protocol \<Rightarrow> string \<Rightarrow> any_stream \<Rightarrow> conv_ctx \<Rightarrow>
   (convert_error + ir_chunk option) \<times> any_stream \<times> conv_ctx" where
  "chunk_to_ir js OpenaiChat data ChatStream ctx =
     (let (r, ctx') = chat_chunk_to_ir js data ctx in (r, ChatStream, ctx'))"
| "chunk_to_ir js OpenaiResponses data (ResponsesStream st) ctx =
     (let (r, st', ctx') = resp_chunk_to_ir js data st ctx in (r, ResponsesStream st', ctx'))"
| "chunk_to_ir js Anthropic data (AnthropicStream st) ctx =
     (let (r, st', ctx') = anth_chunk_to_ir js data st ctx in (r, AnthropicStream st', ctx'))"
| "chunk_to_ir js Gemini data (GeminiStream st) ctx =
     (let (r, st', ctx') = gem_chunk_to_ir js data st ctx in (r, GeminiStream st', ctx'))"
| "chunk_to_ir js p data st ctx = (Inl mismatch, st, ctx)"

fun chunk_from_ir ::
  "proto_env \<Rightarrow> protocol \<Rightarrow> ir_chunk \<Rightarrow> any_stream \<Rightarrow> u64 \<Rightarrow> conv_ctx \<Rightarrow>
   (convert_error + string list) \<times> any_stream \<times> u64 \<times> conv_ctx" where
  "chunk_from_ir env OpenaiChat chunk ChatStream seq ctx =
     (let (r, ctx') = chat_chunk_from_ir (pe_json env) chunk ctx in (r, ChatStream, seq, ctx'))"
| "chunk_from_ir env OpenaiResponses chunk (ResponsesStream st) seq ctx =
     (let (r, st', seq', ctx') = resp_chunk_from_ir (pe_json env) (pe_clock env) chunk st seq ctx
      in (r, ResponsesStream st', seq', ctx'))"
| "chunk_from_ir env Anthropic chunk (AnthropicStream st) seq ctx =
     (let (r, st', ctx') = anth_chunk_from_ir (pe_json env) chunk st ctx in (r, AnthropicStream st', seq, ctx'))"
| "chunk_from_ir env Gemini chunk (GeminiStream st) seq ctx =
     (let (r, st', ctx') = gem_chunk_from_ir (pe_json env) (pe_walk env) chunk st ctx
      in (r, GeminiStream st', seq, ctx'))"
| "chunk_from_ir env p chunk st seq ctx = (Inl mismatch, st, seq, ctx)"

fun stream_end ::
  "proto_env \<Rightarrow> protocol \<Rightarrow> any_stream \<Rightarrow> conv_ctx \<Rightarrow> (convert_error + string list) \<times> any_stream \<times> conv_ctx" where
  "stream_end env OpenaiChat ChatStream ctx = (Inr chat_stream_end, ChatStream, ctx)"
| "stream_end env OpenaiResponses (ResponsesStream st) ctx =
     (let (r, st', ctx') = resp_stream_end (pe_json env) st ctx in (r, ResponsesStream st', ctx'))"
| "stream_end env Anthropic (AnthropicStream st) ctx =
     (let (r, st') = anth_stream_end (pe_json env) st in (r, AnthropicStream st', ctx))"
| "stream_end env Gemini (GeminiStream st) ctx =
     (let (r, st') = gem_stream_end (pe_json env) (pe_walk env) st in (r, GeminiStream st', ctx))"
| "stream_end env p st ctx = (Inl mismatch, st, ctx)"

fun stream_fail_end ::
  "proto_env \<Rightarrow> protocol \<Rightarrow> any_stream \<Rightarrow> conv_ctx \<Rightarrow> (convert_error + string list) \<times> any_stream \<times> conv_ctx" where
  "stream_fail_end env OpenaiResponses (ResponsesStream st) ctx =
     (let (r, st', ctx') = resp_stream_end (pe_json env) (resp_mark_failed st) ctx in (r, ResponsesStream st', ctx'))"
| "stream_fail_end env Anthropic (AnthropicStream st) ctx =
     (let (r, st') = anth_stream_end (pe_json env) (anth_mark_failed st) in (r, AnthropicStream st', ctx))"
| "stream_fail_end env p st ctx = stream_end env p st ctx"

section \<open>States that match\<close>

fun stream_of :: "any_stream \<Rightarrow> protocol" where
  "stream_of ChatStream = OpenaiChat"
| "stream_of (ResponsesStream st) = OpenaiResponses"
| "stream_of (AnthropicStream st) = Anthropic"
| "stream_of (GeminiStream st) = Gemini"

lemma stream_of_new [simp]: "stream_of (any_stream_new p) = p"
  by (cases p) (simp_all add: any_stream_new_def)

text \<open>A state stays with its protocol, whatever comes in and goes out.\<close>

lemma chunk_to_ir_keeps: "chunk_to_ir js p data st ctx = (r, st', ctx') \<Longrightarrow> stream_of st' = stream_of st"
  by (cases "(js, p, data, st, ctx)" rule: chunk_to_ir.cases) (auto split: prod.splits)

lemma chunk_from_ir_keeps: "chunk_from_ir env p chunk st seq ctx = (r, st', seq', ctx') \<Longrightarrow> stream_of st' = stream_of st"
  by (cases "(env, p, chunk, st, seq, ctx)" rule: chunk_from_ir.cases) (auto split: prod.splits)

end
