(* ===== verification/Sse.thy ===== *)
theory Sse
  imports Json
begin

text \<open>
  The line parser and the encoder of Server-Sent Events, \<open>src/protocol/sse.rs\<close>. Bytes are
  characters. The parser may get the bytes in any pieces: what it produces depends only on their
  concatenation, and it reads back what the encoder writes.
\<close>

section \<open>Decoding bytes\<close>

text \<open>
  \<open>String::from_utf8_lossy\<close>: every maximal prefix of an ill-formed sequence becomes U+FFFD. Past
  the end the decoder sees a zero byte, which continues nothing.
\<close>

definition byte_in :: "char \<Rightarrow> nat \<Rightarrow> nat \<Rightarrow> bool" where
  "byte_in c lo hi \<longleftrightarrow> lo \<le> (of_char c :: nat) \<and> (of_char c :: nat) \<le> hi"

definition continuation :: "char \<Rightarrow> bool" where
  "continuation c = byte_in c 128 191"

definition replacement :: string where
  "replacement = [CHR 0xEF, CHR 0xBF, CHR 0xBD]"

definition second_ok :: "char \<Rightarrow> char \<Rightarrow> bool" where
  "second_ok b c =
     (if byte_in b 224 224 then byte_in c 160 191
      else if byte_in b 237 237 then byte_in c 128 159
      else if byte_in b 240 240 then byte_in c 144 191
      else if byte_in b 244 244 then byte_in c 128 143
      else continuation c)"

definition lead_width :: "char \<Rightarrow> nat" where
  "lead_width b =
     (if byte_in b 0 127 then 1 else if byte_in b 194 223 then 2
      else if byte_in b 224 239 then 3 else if byte_in b 240 244 then 4 else 0)"

text \<open>How many bytes the next step consumes, and whether they are well formed.\<close>

definition head_byte :: "string \<Rightarrow> char" where
  "head_byte s = (case s of [] \<Rightarrow> CHR 0x00 | c # _ \<Rightarrow> c)"

definition utf8_step :: "char \<Rightarrow> string \<Rightarrow> nat \<times> bool" where
  "utf8_step b bs =
     (let w = lead_width b in
      if w = 0 then (0, False)
      else if w = 1 then (0, True)
      else if \<not> second_ok b (head_byte bs) then (0, False)
      else if w = 2 then (1, True)
      else if \<not> continuation (head_byte (drop 1 bs)) then (1, False)
      else if w = 3 then (2, True)
      else if \<not> continuation (head_byte (drop 2 bs)) then (2, False)
      else (3, True))"

function from_utf8_lossy :: "string \<Rightarrow> string" where
  "from_utf8_lossy [] = []"
| "from_utf8_lossy (b # bs) =
     (let (n, ok) = utf8_step b bs
      in (if ok then b # take n bs else replacement) @ from_utf8_lossy (drop n bs))"
  by pat_completeness auto
termination
  by (relation "measure length") auto

section \<open>The parser\<close>

abbreviation newline :: char where "newline \<equiv> CHR 0x0A"
abbreviation carriage :: char where "carriage \<equiv> CHR 0x0D"

record sse_parser =
  sse_buf :: string
  sse_data_lines :: "string list"

definition sse_new :: sse_parser where
  "sse_new = \<lparr>sse_buf = [], sse_data_lines = []\<rparr>"

definition trim_line :: "string \<Rightarrow> string" where
  "trim_line s = trim_end (\<lambda>c. c = newline \<or> c = carriage) s"

definition strip_space :: "string \<Rightarrow> string" where
  "strip_space rest = unwrap_or rest (strip_prefix '' '' rest)"

text \<open>One decoded and trimmed line: the events it completes and the data lines that remain.\<close>

definition sse_line :: "string \<Rightarrow> string list \<Rightarrow> string list \<times> string list" where
  "sse_line line dl =
     (if line = [] then (if dl \<noteq> [] then ([join_with [newline] dl], []) else ([], dl))
      else (case strip_prefix ''data:'' line of
              Some rest \<Rightarrow> ([], dl @ [strip_space rest])
            | None \<Rightarrow> if line = ''data'' then ([], dl @ [[]]) else ([], dl)))"

function sse_lines :: "string \<Rightarrow> string list \<Rightarrow> string list \<times> string \<times> string list" where
  "sse_lines buf dl =
     (case split_at_char newline buf of
        None \<Rightarrow> ([], buf, dl)
      | Some (before, after) \<Rightarrow>
          (let (out, dl') = sse_line (trim_line (from_utf8_lossy (before @ [newline]))) dl;
               (out', buf', dl'') = sse_lines after dl'
           in (out @ out', buf', dl'')))"
  by pat_completeness auto
termination
  by (relation "measure (length \<circ> fst)") (auto simp: split_at_char_Some)

declare sse_lines.simps [simp del]

definition sse_feed :: "string \<Rightarrow> sse_parser \<Rightarrow> string list \<times> sse_parser" where
  "sse_feed bytes p =
     (let (out, buf, dl) = sse_lines (sse_buf p @ bytes) (sse_data_lines p)
      in (out, \<lparr>sse_buf = buf, sse_data_lines = dl\<rparr>))"

definition sse_finish :: "sse_parser \<Rightarrow> string list \<times> sse_parser" where
  "sse_finish p =
     (let dl =
        (if sse_buf p = [] then sse_data_lines p
         else (case strip_prefix ''data:'' (trim_line (from_utf8_lossy (sse_buf p))) of
                 Some rest \<Rightarrow> sse_data_lines p @ [strip_space rest]
               | None \<Rightarrow> sse_data_lines p))
      in (if dl \<noteq> [] then [join_with [newline] dl] else [], \<lparr>sse_buf = [], sse_data_lines = []\<rparr>))"

section \<open>The encoder\<close>

fun split_lines :: "string \<Rightarrow> string list" where
  "split_lines [] = [[]]"
| "split_lines (c # cs) =
     (if c = newline then [] # split_lines cs
      else (case split_lines cs of [] \<Rightarrow> [[c]] | l # ls \<Rightarrow> (c # l) # ls))"

definition encode_event :: "string \<Rightarrow> string" where
  "encode_event data =
     concat (map (\<lambda>line. ''data: '' @ line @ [newline]) (split_lines data)) @ [newline]"

definition encode_typed_event_with_type :: "string \<Rightarrow> string option \<Rightarrow> string" where
  "encode_typed_event_with_type data event =
     (case event of
        Some name \<Rightarrow>
          if name \<noteq> [] then ''event: '' @ name @ [newline] @ encode_event data else encode_event data
      | None \<Rightarrow> encode_event data)"

definition encode_typed_event :: "json_text \<Rightarrow> string \<Rightarrow> string" where
  "encode_typed_event js data =
     encode_typed_event_with_type data
       (case from_text js data of
          Inl _ \<Rightarrow> None
        | Inr v \<Rightarrow>
            (case Option.bind (jget ''type'' v) as_str of
               Some t \<Rightarrow> if t \<noteq> [] then Some t else None
             | None \<Rightarrow> None))"

section \<open>The pieces do not matter\<close>

text \<open>
  A parser that takes its input in pieces, and whose answer to two pieces is its answer to them
  together, gives the same for every way of cutting the input.
\<close>

locale incremental_parser =
  fixes feed :: "'b list \<Rightarrow> 's \<Rightarrow> 'o list \<times> 's"
    and idle :: "'s \<Rightarrow> bool"
  assumes feed_append:
      "feed (xs @ ys) s = (let (o1, s1) = feed xs s; (o2, s2) = feed ys s1 in (o1 @ o2, s2))"
    and feed_idle: "idle (snd (feed xs s))"
    and feed_Nil: "idle s \<Longrightarrow> feed [] s = ([], s)"
begin

lemma feed_pieces: "idle s \<Longrightarrow> emit_all feed pieces s = feed (concat pieces) s"
proof (induction pieces arbitrary: s)
  case Nil
  then show ?case by (simp add: feed_Nil)
next
  case (Cons p ps)
  obtain o1 s1 where p: "feed p s = (o1, s1)" by force
  have "idle s1" using feed_idle [of p s] by (simp add: p)
  from Cons.IH [OF this] show ?case by (simp add: feed_append p)
qed

lemma feed_same: "idle s \<Longrightarrow> concat ps = concat qs \<Longrightarrow> emit_all feed ps s = emit_all feed qs s"
  by (simp add: feed_pieces)

end

lemma sse_lines_None: "newline \<notin> set buf \<Longrightarrow> sse_lines buf dl = ([], buf, dl)"
  by (subst sse_lines.simps) (simp add: split_at_char_None [THEN iffD2])

lemma sse_lines_Some:
  "newline \<notin> set before \<Longrightarrow> sse_lines (before @ newline # after) dl =
     (let (out, dl') = sse_line (trim_line (from_utf8_lossy (before @ [newline]))) dl;
          (out', buf', dl'') = sse_lines after dl'
      in (out @ out', buf', dl''))"
  by (subst sse_lines.simps) (simp add: split_at_char_append)

lemma sse_lines_append:
  "sse_lines (xs @ ys) dl =
     (let (out, buf, dl') = sse_lines xs dl; (out', buf', dl'') = sse_lines (buf @ ys) dl'
      in (out @ out', buf', dl''))"
proof (induction xs dl rule: sse_lines.induct)
  case (1 buf dl)
  show ?case
  proof (cases "split_at_char newline buf")
    case None
    then show ?thesis by (simp add: split_at_char_None sse_lines_None)
  next
    case (Some p)
    then obtain before after where p: "split_at_char newline buf = Some (before, after)"
      by (cases p) auto
    then have buf: "buf = before @ newline # after" "newline \<notin> set before"
      by (simp_all add: split_at_char_Some)
    obtain o1 dl1 where line: "sse_line (trim_line (from_utf8_lossy (before @ [newline]))) dl = (o1, dl1)"
      by force
    from 1 [OF p refl line [symmetric]] show ?thesis
      by (simp add: buf sse_lines_Some line split: prod.splits)
  qed
qed

lemma sse_lines_rest: "sse_lines buf dl = (out, buf', dl') \<Longrightarrow> newline \<notin> set buf'"
proof (induction buf dl arbitrary: out rule: sse_lines.induct)
  case (1 buf dl)
  then show ?case
    by (subst (asm) (2) sse_lines.simps)
      (auto simp: split_at_char_None Let_def split: option.splits prod.splits)
qed

interpretation sse: incremental_parser sse_feed "\<lambda>p. newline \<notin> set (sse_buf p)"
proof unfold_locales
  fix xs ys and p :: sse_parser
  show "sse_feed (xs @ ys) p =
      (let (o1, s1) = sse_feed xs p; (o2, s2) = sse_feed ys s1 in (o1 @ o2, s2))"
    using sse_lines_append [of "sse_buf p @ xs" ys "sse_data_lines p"]
    by (simp add: sse_feed_def split: prod.splits)
  show "newline \<notin> set (sse_buf (snd (sse_feed xs p)))"
    by (auto simp: sse_feed_def dest: sse_lines_rest split: prod.splits)
  show "newline \<notin> set (sse_buf p) \<Longrightarrow> sse_feed [] p = ([], p)"
    by (simp add: sse_feed_def sse_lines_None)
qed

section \<open>Reading back what was written\<close>

lemma byte_in_newline [simp]: "byte_in newline 0 127" "\<not> continuation newline"
  by (simp_all add: byte_in_def continuation_def)

lemma second_ok_newline [simp]: "\<not> second_ok b newline"
  by (simp add: second_ok_def byte_in_def continuation_def)

lemma lossy_ascii:
  "byte_in b 0 127 \<Longrightarrow> from_utf8_lossy (b # bs) = b # from_utf8_lossy bs"
  by (simp add: utf8_step_def lead_width_def)

lemma lossy_ascii_prefix:
  "list_all (\<lambda>b. byte_in b 0 127) p \<Longrightarrow> from_utf8_lossy (p @ bs) = p @ from_utf8_lossy bs"
  by (induction p) (simp_all add: lossy_ascii del: from_utf8_lossy.simps)

lemma zero_byte [simp]: "\<not> continuation (CHR 0x00)" "\<not> second_ok b (CHR 0x00)"
  by (simp_all add: continuation_def second_ok_def byte_in_def)

text \<open>
  A newline continues no sequence, so the step before it never looks past it: the decoder cuts
  at newlines.
\<close>

lemma utf8_step_newline: "utf8_step b (bs @ newline # cs) = utf8_step b bs"
proof (cases bs)
  case Nil
  then show ?thesis by (simp add: utf8_step_def head_byte_def Let_def)
next
  case (Cons b1 bs1)
  show ?thesis
  proof (cases bs1)
    case Nil
    with Cons show ?thesis by (simp add: utf8_step_def head_byte_def Let_def)
  next
    case (Cons b2 bs2)
    with \<open>bs = b1 # bs1\<close> show ?thesis by (cases bs2) (simp_all add: utf8_step_def head_byte_def Let_def)
  qed
qed

lemma utf8_step_length: "fst (utf8_step b bs) \<le> length bs"
  by (cases bs; cases "drop 1 bs"; cases "drop 2 bs")
    (auto simp: utf8_step_def head_byte_def Let_def)

lemma lossy_newline:
  "from_utf8_lossy (bs @ newline # cs) = from_utf8_lossy bs @ newline # from_utf8_lossy cs"
proof (induction bs rule: from_utf8_lossy.induct)
  case 1
  then show ?case by (simp add: lossy_ascii del: from_utf8_lossy.simps(2))
next
  case (2 b bs)
  obtain n good where step: "utf8_step b bs = (n, good)" by force
  have "n \<le> length bs" using utf8_step_length [of b bs] by (simp add: step)
  with 2 [OF step [symmetric]] show ?case by (simp add: utf8_step_newline step)
qed

lemma step_no_newline:
  "utf8_step b bs = (n, True) \<Longrightarrow> newline \<notin> set (take n bs)"
proof -
  have c: "c \<noteq> newline" if "continuation c \<or> second_ok b c" for c
    using that by auto
  assume "utf8_step b bs = (n, True)"
  then show ?thesis
    using c
    by (cases bs; cases "drop 1 bs"; cases "drop 2 bs")
      (force simp: utf8_step_def head_byte_def Let_def split: if_splits)+
qed

lemma replacement_no_newline [simp]: "newline \<notin> set replacement"
  by (simp add: replacement_def)

lemma lossy_no_newline: "newline \<notin> set bs \<Longrightarrow> newline \<notin> set (from_utf8_lossy bs)"
proof (induction bs rule: from_utf8_lossy.induct)
  case (2 b bs)
  obtain n good where step: "utf8_step b bs = (n, good)" by force
  have "newline \<notin> set (drop n bs)" using "2.prems" by (auto dest: in_set_dropD)
  with "2.IH" [OF step [symmetric]] show ?case
    using "2.prems" by (auto simp: step dest: in_set_takeD)
qed simp

lemma split_lines_join: "join_with [newline] (split_lines s) = s"
proof (induction s)
  case (Cons c cs)
  have "split_lines cs \<noteq> []" by (cases cs) (auto split: list.splits)
  then obtain l ls where "split_lines cs = l # ls" by (cases "split_lines cs") auto
  with Cons show ?case by (cases ls) auto
qed simp

lemma split_lines_newline: "l \<in> set (split_lines s) \<Longrightarrow> newline \<notin> set l"
  by (induction s arbitrary: l) (auto split: if_splits list.splits)

lemma split_lines_chars: "l \<in> set (split_lines s) \<Longrightarrow> set l \<subseteq> set s"
  by (induction s arbitrary: l) (auto split: if_splits list.splits, blast+)

lemma split_lines_cut:
  "newline \<notin> set l \<Longrightarrow> split_lines (l @ newline # s) = l # split_lines s"
  by (induction l) auto

lemma split_lines_nonempty [simp]: "split_lines s \<noteq> []"
  by (cases s) (auto split: list.splits)

text \<open>The lines of a well-formed text are well formed.\<close>

lemma lossy_lines:
  "from_utf8_lossy s = s \<Longrightarrow> l \<in> set (split_lines s) \<Longrightarrow> from_utf8_lossy l = l"
proof (induction "length s" arbitrary: s rule: less_induct)
  case less
  show ?case
  proof (cases "split_at_char newline s")
    case None
    then have "split_lines s = [s]"
      by (simp add: split_at_char_None) (induction s; auto)
    with less.prems show ?thesis by simp
  next
    case (Some p)
    then obtain a b where s: "s = a @ newline # b" "newline \<notin> set a"
      by (cases p) (auto simp: split_at_char_Some)
    have "from_utf8_lossy a @ newline # from_utf8_lossy b = a @ newline # b"
      using less.prems(1) by (simp add: s lossy_newline)
    with s(2) lossy_no_newline [OF s(2)] have "from_utf8_lossy a = a" "from_utf8_lossy b = b"
      by (metis option.inject prod.inject split_at_char_append)+
    with less.hyps [of b] less.prems(2) show ?thesis by (auto simp: s split_lines_cut)
  qed
qed

definition plain_line :: "string \<Rightarrow> bool" where
  "plain_line l \<longleftrightarrow> newline \<notin> set l \<and> carriage \<notin> set l \<and> from_utf8_lossy l = l"

lemma trim_line_plain:
  "newline \<notin> set l \<Longrightarrow> carriage \<notin> set l \<Longrightarrow> trim_line (l @ [newline]) = l"
  by (cases l rule: rev_cases) (auto simp: trim_line_def trim_end_def)

lemma read_line:
  assumes "newline \<notin> set l" "carriage \<notin> set l" "from_utf8_lossy l = l"
  shows "sse_lines (l @ newline # rest) dl =
    (let (out, dl') = sse_line l dl; (out', buf', dl'') = sse_lines rest dl' in (out @ out', buf', dl''))"
  using assms lossy_newline [of l "[]"] by (simp add: sse_lines_Some trim_line_plain)

lemma data_prefix: "list_all (\<lambda>b. byte_in b 0 127) ''data: ''"
  by (simp add: byte_in_def)

lemma read_data_line:
  assumes "plain_line l"
  shows "sse_lines ((''data: '' @ l @ [newline]) @ rest) dl = sse_lines rest (dl @ [l])"
proof -
  have "from_utf8_lossy (''data: '' @ l) = ''data: '' @ l"
    using lossy_ascii_prefix [OF data_prefix] assms by (simp only: plain_line_def)
  then show ?thesis
    using read_line [of "''data: '' @ l" rest dl] assms
    by (simp add: plain_line_def sse_line_def strip_space_def)
qed

lemma read_data_lines:
  "list_all plain_line ls \<Longrightarrow>
   sse_lines (concat (map (\<lambda>l. ''data: '' @ l @ [newline]) ls) @ rest) dl = sse_lines rest (dl @ ls)"
proof (induction ls arbitrary: dl)
  case (Cons l ls)
  then show ?case using read_data_line [of l _ dl] by simp
qed simp

lemma read_event_end:
  "dl \<noteq> [] \<Longrightarrow> sse_lines (newline # rest) dl =
     (let (out, buf, dl') = sse_lines rest [] in (join_with [newline] dl # out, buf, dl'))"
  using read_line [of "[]" rest dl] by (simp add: sse_line_def)

lemma read_encoded:
  assumes "from_utf8_lossy data = data" "carriage \<notin> set data"
  shows "sse_lines (encode_event data @ rest) [] =
    (let (out, buf, dl) = sse_lines rest [] in (data # out, buf, dl))"
proof -
  have "\<forall>l \<in> set (split_lines data). carriage \<notin> set l"
    using split_lines_chars assms(2) by blast
  then have "list_all plain_line (split_lines data)"
    using assms(1) split_lines_newline lossy_lines by (auto simp: list_all_iff plain_line_def)
  from read_data_lines [OF this, of "newline # rest" "[]"] show ?thesis
    by (simp add: encode_event_def read_event_end split_lines_join)
qed

lemma read_typed:
  assumes "from_utf8_lossy data = data" "carriage \<notin> set data"
    and "\<And>name. event = Some name \<Longrightarrow> newline \<notin> set name \<and> carriage \<notin> set name \<and> from_utf8_lossy name = name"
  shows "sse_lines (encode_typed_event_with_type data event @ rest) [] =
    (let (out, buf, dl) = sse_lines rest [] in (data # out, buf, dl))"
proof (cases "\<exists>name. event = Some name \<and> name \<noteq> []")
  case True
  then obtain name where name: "event = Some name" "name \<noteq> []" by auto
  have "list_all (\<lambda>b. byte_in b 0 127) ''event: ''" by (simp add: byte_in_def)
  from lossy_ascii_prefix [OF this, of name] assms(3) [OF name(1)]
  show ?thesis
    using read_line [of "''event: '' @ name" "encode_event data @ rest" "[]"] read_encoded [OF assms(1,2)]
    by (simp add: encode_typed_event_with_type_def name sse_line_def)
next
  case False
  then have "encode_typed_event_with_type data event = encode_event data"
    by (auto simp: encode_typed_event_with_type_def split: option.splits)
  with read_encoded [OF assms(1,2)] show ?thesis by simp
qed

lemma read_stream:
  assumes "\<forall>(data, event) \<in> set evs. from_utf8_lossy data = data \<and> carriage \<notin> set data \<and>
      (case event of None \<Rightarrow> True
       | Some name \<Rightarrow> newline \<notin> set name \<and> carriage \<notin> set name \<and> from_utf8_lossy name = name)"
  shows "sse_feed (concat (map (\<lambda>(data, event). encode_typed_event_with_type data event) evs)) sse_new =
    (map fst evs, sse_new)"
proof -
  have "sse_lines (concat (map (\<lambda>(data, event). encode_typed_event_with_type data event) evs)) [] =
      (map fst evs, [], [])"
    using assms
  proof (induction evs)
    case Nil
    then show ?case by (simp add: sse_lines_None)
  next
    case (Cons e evs)
    obtain data event where e: "e = (data, event)" by force
    show ?case
      using Cons read_typed [of data event] by (auto simp: e split: option.splits)
  qed
  then show ?thesis by (simp add: sse_feed_def sse_new_def)
qed

text \<open>The end mark of the Chat protocol.\<close>

lemma done_mark: "trim ''[DONE]'' = ''[DONE]''" "from_utf8_lossy ''[DONE]'' = ''[DONE]''"
  by code_simp+

section \<open>Properties\<close>

text \<open>
  The parser's events and its state after a stream do not depend on how the transport cuts
  the bytes into pieces, also inside a line or inside a UTF-8 sequence.
\<close>

theorem sse_any_pieces:
  "emit_all sse_feed pieces sse_new = sse_feed (concat pieces) sse_new"
  by (rule sse.feed_pieces) (simp add: sse_new_def)

text \<open>
  C26: what \<open>encode_typed_event_with_type\<close> writes for a list of payloads (of several lines too),
  each with or without an event name, the parser reads back as exactly these payloads, however
  the bytes are cut, and it ends in its initial state. The texts must be well-formed UTF-8
  without carriage returns, and a name must be one line.
\<close>

theorem sse_encode_roundtrip:
  assumes "\<forall>(data, event) \<in> set evs. from_utf8_lossy data = data \<and> carriage \<notin> set data \<and>
      (case event of None \<Rightarrow> True
       | Some name \<Rightarrow> newline \<notin> set name \<and> carriage \<notin> set name \<and> from_utf8_lossy name = name)"
    and "concat pieces = concat (map (\<lambda>(data, event). encode_typed_event_with_type data event) evs)"
  shows "emit_all sse_feed pieces sse_new = (map fst evs, sse_new)"
proof -
  have "emit_all sse_feed pieces sse_new = sse_feed (concat pieces) sse_new"
    by (rule sse.feed_pieces) (simp add: sse_new_def)
  then show ?thesis using read_stream [OF assms(1)] by (simp add: assms(2))
qed

lemma sse_encode_roundtrip_witness:
  "emit_all sse_feed
     [''event: ping'' @ [newline] @ ''da'', ''ta: {}'' @ [newline, newline] @ ''data: a'' @ [newline],
      ''data: b'' @ [newline, newline]] sse_new = ([''{}'', ''a'' @ [newline] @ ''b''], sse_new)"
proof -
  have "from_utf8_lossy ''{}'' = ''{}''" "from_utf8_lossy ''ping'' = ''ping''"
    "from_utf8_lossy (''a'' @ [newline] @ ''b'') = ''a'' @ [newline] @ ''b''"
    by code_simp+
  then show ?thesis
    using sse_encode_roundtrip [of "[(''{}'', Some ''ping''), (''a'' @ [newline] @ ''b'', None)]"
      "[''event: ping'' @ [newline] @ ''da'', ''ta: {}'' @ [newline, newline] @ ''data: a'' @ [newline],
        ''data: b'' @ [newline, newline]]"]
    by (simp add: encode_typed_event_with_type_def encode_event_def)
qed

end
