(* ===== verification/Relay.thy ===== *)
theory Relay
  imports Dispatch ChatRoundtrip Sse
begin

text \<open>
  The two streams of \<open>src/upstream/mod.rs\<close> that carry an answer from the upstream to the client:
  the passthrough, which only writes the gateway's model name into the payloads, and the
  conversion between protocols. Both are an \<open>unfold\<close> over the bytes of the upstream: the client
  pulls one item, and while the queue is empty the next piece is read. The counter behind the
  item ids is threaded through; other requests may advance it, which changes ids only.
\<close>

section \<open>The payload of the passthrough\<close>

definition set_model_in :: "string \<Rightarrow> (string \<times> json) list \<Rightarrow> (string \<times> json) list" where
  "set_model_in model obj = (if obj_get ''model'' obj \<noteq> None then obj_insert ''model'' (JStr model) obj else obj)"

definition set_nested_model :: "string \<Rightarrow> string \<Rightarrow> (string \<times> json) list \<Rightarrow> (string \<times> json) list" where
  "set_nested_model model k obj =
     (case obj_get k obj of
        Some (JObj inner) \<Rightarrow> obj_insert k (JObj (set_model_in model inner)) obj
      | _ \<Rightarrow> obj)"

definition rewrite_model :: "string \<Rightarrow> json \<Rightarrow> json" where
  "rewrite_model model v =
     (case v of
        JObj obj \<Rightarrow> JObj (fold (set_nested_model model) [''message'', ''response''] (set_model_in model obj))
      | _ \<Rightarrow> v)"

definition rewrite_sse_payload :: "json_text \<Rightarrow> string \<Rightarrow> string \<Rightarrow> string" where
  "rewrite_sse_payload js data model =
     (if trim data = ''[DONE]'' then encode_typed_event js data
      else (case from_text js data of
              Inr v \<Rightarrow>
                (let v = rewrite_model model v
                 in encode_typed_event_with_type (to_text js v) (Option.bind (jget ''type'' v) as_str))
            | Inl _ \<Rightarrow> encode_typed_event js data))"

section \<open>The stream that the client pulls\<close>

text \<open>The bytes of the upstream: pieces, perhaps an error; the end of the list is the end of the stream.\<close>

datatype net_event = Piece string | Broken string

text \<open>An item is an I/O error (\<open>Inl\<close>) or bytes.\<close>

record 's sse_relay =
  sr_parser :: sse_parser
  sr_queue :: "(string + string) list"
  sr_done :: bool
  sr_inner :: 's

definition push_frames ::
  "(string \<Rightarrow> 's \<Rightarrow> string list \<times> 's) \<Rightarrow> string list \<Rightarrow> 's sse_relay \<Rightarrow> 's sse_relay" where
  "push_frames frame evs st =
     (let (out, inner) = emit_all frame evs (sr_inner st)
      in st\<lparr>sr_queue := sr_queue st @ map Inr out, sr_inner := inner\<rparr>)"

text \<open>\<open>closing failed\<close> gives the closing events; \<open>None\<close> is the end of the upstream's bytes.\<close>

definition relay_event ::
  "(string \<Rightarrow> 's \<Rightarrow> string list \<times> 's) \<Rightarrow> (bool \<Rightarrow> 's \<Rightarrow> string list \<times> 's) \<Rightarrow> net_event option \<Rightarrow>
   's sse_relay \<Rightarrow> 's sse_relay" where
  "relay_event frame closing e st =
     (case e of
        Some (Piece bytes) \<Rightarrow>
          (let (evs, p) = sse_feed bytes (sr_parser st) in push_frames frame evs (st\<lparr>sr_parser := p\<rparr>))
      | _ \<Rightarrow>
          (let (evs, p) = sse_finish (sr_parser st);
               st1 = push_frames frame evs (st\<lparr>sr_parser := p, sr_done := True\<rparr>);
               (out, inner) = closing (e \<noteq> None) (sr_inner st1)
           in st1\<lparr>sr_queue := sr_queue st1 @ map Inr out @
                    (case e of Some (Broken msg) \<Rightarrow> [Inl msg] | _ \<Rightarrow> []),
                  sr_inner := inner\<rparr>))"

fun relay_fill ::
  "(string \<Rightarrow> 's \<Rightarrow> string list \<times> 's) \<Rightarrow> (bool \<Rightarrow> 's \<Rightarrow> string list \<times> 's) \<Rightarrow> net_event list \<Rightarrow>
   's sse_relay \<Rightarrow> net_event list \<times> 's sse_relay" where
  "relay_fill frame closing [] st =
     ([], if sr_queue st = [] \<and> \<not> sr_done st then relay_event frame closing None st else st)"
| "relay_fill frame closing (e # es) st =
     (if sr_queue st = [] \<and> \<not> sr_done st
      then relay_fill frame closing es (relay_event frame closing (Some e) st) else (e # es, st))"

definition relay_next ::
  "(string \<Rightarrow> 's \<Rightarrow> string list \<times> 's) \<Rightarrow> (bool \<Rightarrow> 's \<Rightarrow> string list \<times> 's) \<Rightarrow> net_event list \<Rightarrow>
   's sse_relay \<Rightarrow> ((string + string) \<times> net_event list \<times> 's sse_relay) option" where
  "relay_next frame closing es st =
     (let (es', st') = relay_fill frame closing es st
      in (case sr_queue st' of [] \<Rightarrow> None | item # q \<Rightarrow> Some (item, es', st'\<lparr>sr_queue := q\<rparr>)))"

definition relay_start :: "'s \<Rightarrow> 's sse_relay" where
  "relay_start inner = \<lparr>sr_parser = sse_new, sr_queue = [], sr_done = False, sr_inner = inner\<rparr>"

text \<open>The first \<open>n\<close> items that the client pulls.\<close>

fun relay_pull ::
  "(string \<Rightarrow> 's \<Rightarrow> string list \<times> 's) \<Rightarrow> (bool \<Rightarrow> 's \<Rightarrow> string list \<times> 's) \<Rightarrow> nat \<Rightarrow> net_event list \<Rightarrow>
   's sse_relay \<Rightarrow> (string + string) list" where
  "relay_pull frame closing 0 es st = []"
| "relay_pull frame closing (Suc n) es st =
     (case relay_next frame closing es st of
        None \<Rightarrow> [] | Some (item, es', st') \<Rightarrow> item # relay_pull frame closing n es' st')"

text \<open>All items at once, without a queue: what the client gets in the end.\<close>

fun relay_items ::
  "(string \<Rightarrow> 's \<Rightarrow> string list \<times> 's) \<Rightarrow> (bool \<Rightarrow> 's \<Rightarrow> string list \<times> 's) \<Rightarrow> net_event list \<Rightarrow>
   sse_parser \<Rightarrow> 's \<Rightarrow> (string + string) list" where
  "relay_items frame closing [] p inner =
     (let (out, inner1) = emit_all frame (fst (sse_finish p)) inner
      in map Inr (out @ fst (closing False inner1)))"
| "relay_items frame closing (Piece bytes # es) p inner =
     (let (evs, p') = sse_feed bytes p; (out, inner1) = emit_all frame evs inner
      in map Inr out @ relay_items frame closing es p' inner1)"
| "relay_items frame closing (Broken msg # es) p inner =
     (let (out, inner1) = emit_all frame (fst (sse_finish p)) inner
      in map Inr (out @ fst (closing True inner1)) @ [Inl msg])"

section \<open>The two relays\<close>

definition passthrough_frame :: "json_text \<Rightarrow> string \<Rightarrow> string \<Rightarrow> unit \<Rightarrow> string list \<times> unit" where
  "passthrough_frame js model ev u = ([rewrite_sse_payload js ev model], u)"

definition passthrough_closing :: "bool \<Rightarrow> unit \<Rightarrow> string list \<times> unit" where
  "passthrough_closing failed u = ([], u)"

definition sse_passthrough_stream :: "json_text \<Rightarrow> string \<Rightarrow> nat \<Rightarrow> net_event list \<Rightarrow> (string + string) list" where
  "sse_passthrough_stream js model n es =
     relay_pull (passthrough_frame js model) passthrough_closing n es (relay_start ())"

record convert_state =
  cv_from :: protocol
  cv_to :: protocol
  cv_model :: string
  cv_from_state :: any_stream
  cv_to_state :: any_stream
  cv_seq :: u64

definition convert_new :: "protocol \<Rightarrow> protocol \<Rightarrow> string \<Rightarrow> u64 \<Rightarrow> convert_state" where
  "convert_new from to model seq =
     \<lparr>cv_from = from, cv_to = to, cv_model = model, cv_from_state = any_stream_new from,
      cv_to_state = any_stream_new to, cv_seq = seq\<rparr>"

text \<open>Errors of a frame are logged and the frame gives nothing.\<close>

definition process_convert_frame ::
  "proto_env \<Rightarrow> string \<Rightarrow> convert_state \<Rightarrow> string list \<times> convert_state" where
  "process_convert_frame env data st =
     (let (r, fst', ctx) = chunk_to_ir (pe_json env) (cv_from st) data (cv_from_state st) [];
          st1 = st\<lparr>cv_from_state := fst'\<rparr>
      in (case r of
            Inr (Some chunk) \<Rightarrow>
              (let (w, tst, seq, _) = chunk_from_ir env (cv_to st) (chunk\<lparr>chk_model := cv_model st\<rparr>)
                     (cv_to_state st) (cv_seq st) ctx;
                   st2 = st1\<lparr>cv_to_state := tst, cv_seq := seq\<rparr>
               in (case w of
                     Inr events \<Rightarrow> (map (encode_typed_event (pe_json env)) events, st2)
                   | Inl _ \<Rightarrow> ([], st2)))
          | Inr None \<Rightarrow> ([], st1)
          | Inl _ \<Rightarrow> ([], st1)))"

definition convert_closing :: "proto_env \<Rightarrow> bool \<Rightarrow> convert_state \<Rightarrow> string list \<times> convert_state" where
  "convert_closing env failed st =
     (let (w, tst, _) = (if failed then stream_fail_end env (cv_to st) (cv_to_state st) []
                         else stream_end env (cv_to st) (cv_to_state st) []);
          st1 = st\<lparr>cv_to_state := tst\<rparr>
      in (case w of Inr events \<Rightarrow> (map (encode_typed_event (pe_json env)) events, st1) | Inl _ \<Rightarrow> ([], st1)))"

definition sse_convert_stream ::
  "proto_env \<Rightarrow> protocol \<Rightarrow> protocol \<Rightarrow> string \<Rightarrow> u64 \<Rightarrow> nat \<Rightarrow> net_event list \<Rightarrow> (string + string) list" where
  "sse_convert_stream env from to model seq n es =
     relay_pull (process_convert_frame env) (convert_closing env) n es (relay_start (convert_new from to model seq))"

section \<open>Pulling gives the items in order\<close>

text \<open>What is still to come: the queue, then, unless the stream is done, the items of the rest.\<close>

definition to_come ::
  "(string \<Rightarrow> 's \<Rightarrow> string list \<times> 's) \<Rightarrow> (bool \<Rightarrow> 's \<Rightarrow> string list \<times> 's) \<Rightarrow> net_event list \<Rightarrow>
   's sse_relay \<Rightarrow> (string + string) list" where
  "to_come frame closing es st =
     sr_queue st @ (if sr_done st then [] else relay_items frame closing es (sr_parser st) (sr_inner st))"

lemma to_come_event: "\<not> sr_done st \<Longrightarrow>
    to_come frame closing es (relay_event frame closing (Some e) st) = to_come frame closing (e # es) st"
  by (cases e) (auto simp: to_come_def relay_event_def push_frames_def Let_def split: prod.splits)

lemma to_come_end: "\<not> sr_done st \<Longrightarrow>
    to_come frame closing [] (relay_event frame closing None st) = to_come frame closing [] st \<and>
    sr_done (relay_event frame closing None st)"
  by (auto simp: to_come_def relay_event_def push_frames_def Let_def split: prod.splits)

lemma fill_to_come:
  "relay_fill frame closing es st = (es', st') \<Longrightarrow>
   to_come frame closing es' st' = to_come frame closing es st \<and> (sr_queue st' = [] \<longrightarrow> sr_done st')"
proof (induction es arbitrary: st)
  case Nil
  then show ?case using to_come_end [of st frame closing] by (auto split: if_splits)
next
  case (Cons e es)
  show ?case
  proof (cases "sr_queue st = [] \<and> \<not> sr_done st")
    case True
    with Cons show ?thesis by (simp add: to_come_event)
  next
    case False
    with Cons.prems show ?thesis by auto
  qed
qed

lemma next_to_come:
  "to_come frame closing es st =
     (case relay_next frame closing es st of
        None \<Rightarrow> [] | Some (item, es', st') \<Rightarrow> item # to_come frame closing es' st')"
proof -
  obtain es' st' where fill: "relay_fill frame closing es st = (es', st')" by force
  from fill_to_come [OF fill] show ?thesis
    by (auto simp: relay_next_def fill to_come_def split: list.splits)
qed

lemma pull_to_come: "relay_pull frame closing n es st = take n (to_come frame closing es st)"
proof (induction n arbitrary: es st)
  case (Suc n)
  show ?case
    using next_to_come [of frame closing es st]
    by (cases "relay_next frame closing es st") (auto simp: Suc.IH)
qed simp

lemma pull_items:
  "relay_pull frame closing n es (relay_start inner) = take n (relay_items frame closing es sse_new inner)"
  by (simp add: pull_to_come to_come_def relay_start_def)

text \<open>The cut of the bytes does not matter.\<close>

lemma relay_pieces:
  "relay_items frame closing (map Piece ps @ rest) p inner =
     (let (evs, p') = emit_all sse_feed ps p; (out, inner1) = emit_all frame evs inner
      in map Inr out @ relay_items frame closing rest p' inner1)"
proof (induction ps arbitrary: p inner)
  case (Cons bytes ps)
  then show ?case by (auto simp: emit_all_append Let_def split: prod.splits)
qed simp

section \<open>What is written, as JSON values\<close>

fun chunk_values ::
  "proto_env \<Rightarrow> protocol \<Rightarrow> ir_chunk \<Rightarrow> any_stream \<Rightarrow> u64 \<Rightarrow> conv_ctx \<Rightarrow> json list \<times> any_stream \<times> u64" where
  "chunk_values env OpenaiChat chunk ChatStream seq ctx =
     ([fst (chat_chunk_to_value chunk ctx)], ChatStream, seq)"
| "chunk_values env OpenaiResponses chunk (ResponsesStream st) seq ctx =
     (let (evs, st', seq', _) = resp_chunk_events (pe_clock env) chunk st seq ctx in (evs, ResponsesStream st', seq'))"
| "chunk_values env Anthropic chunk (AnthropicStream st) seq ctx =
     (let (evs, st', _) = anth_chunk_events chunk st ctx in (evs, AnthropicStream st', seq))"
| "chunk_values env Gemini chunk (GeminiStream st) seq ctx =
     (let (v, st', _) = gem_chunk_value (pe_json env) (pe_walk env) chunk st ctx in ([v], GeminiStream st', seq))"
| "chunk_values env p chunk st seq ctx = ([], st, seq)"

fun end_values :: "proto_env \<Rightarrow> protocol \<Rightarrow> bool \<Rightarrow> any_stream \<Rightarrow> json list" where
  "end_values env OpenaiResponses failed (ResponsesStream st) =
     fst (resp_end_events (if failed then resp_mark_failed st else st) [])"
| "end_values env Anthropic failed (AnthropicStream st) =
     fst (anth_end_events (if failed then anth_mark_failed st else st))"
| "end_values env Gemini failed (GeminiStream st) = fst (gem_end_values (pe_json env) (pe_walk env) st)"
| "end_values env p failed st = []"

definition done_marks :: "protocol \<Rightarrow> string list" where
  "done_marks p = (if p = OpenaiChat then [''[DONE]''] else [])"

lemma chunk_from_values:
  assumes "stream_of st = p" "chunk_from_ir env p chunk st seq ctx = (w, st', seq', ctx')"
  shows "w = Inr (map (to_text (pe_json env)) (fst (chunk_values env p chunk st seq ctx)))"
    "snd (chunk_values env p chunk st seq ctx) = (st', seq')"
  using assms
  by (cases st; auto simp: chat_chunk_from_ir_def resp_chunk_from_ir_def anth_chunk_from_ir_def
      gem_chunk_from_ir_def Let_def split: prod.splits)+

lemma stream_end_values:
  assumes "stream_of st = p"
    and "(if failed then stream_fail_end env p st ctx else stream_end env p st ctx) = (w, st', ctx')" "ctx = []"
  shows "w = Inr (map (to_text (pe_json env)) (end_values env p failed st) @ done_marks p)"
  using assms
  by (cases st; auto simp: chat_stream_end_def resp_stream_end_def anth_stream_end_def
      gem_stream_end_def done_marks_def Let_def split: prod.splits if_splits)+

text \<open>The inbound side behind the JSON parser.\<close>

fun value_to_ir ::
  "json_text \<Rightarrow> protocol \<Rightarrow> json \<Rightarrow> any_stream \<Rightarrow> conv_ctx \<Rightarrow>
   (convert_error + ir_chunk option) \<times> any_stream \<times> conv_ctx" where
  "value_to_ir js OpenaiChat v ChatStream ctx =
     (let (r, ctx') = chat_chunk_value_to_ir v ctx in (r, ChatStream, ctx'))"
| "value_to_ir js OpenaiResponses v (ResponsesStream st) ctx =
     (let (r, st', ctx') = resp_event_to_ir v st ctx in (r, ResponsesStream st', ctx'))"
| "value_to_ir js Anthropic v (AnthropicStream st) ctx =
     (let (r, st', ctx') = anth_event_to_ir v st ctx in (r, AnthropicStream st', ctx'))"
| "value_to_ir js Gemini v (GeminiStream st) ctx =
     (let (r, st', ctx') = gem_value_to_ir js v st ctx in (r, GeminiStream st', ctx'))"
| "value_to_ir js p v st ctx = (Inl mismatch, st, ctx)"

lemma chunk_to_ir_value:
  assumes "stream_of st = p" "from_text js data = Inr v" "trim data \<noteq> ''[DONE]''"
  shows "chunk_to_ir js p data st ctx = value_to_ir js p v st ctx"
  using assms
  by (cases st) (auto simp: chat_chunk_to_ir_def resp_chunk_to_ir_def anth_chunk_to_ir_def gem_chunk_to_ir_def)

lemma value_to_ir_keeps: "value_to_ir js p v st ctx = (r, st', ctx') \<Longrightarrow> stream_of st' = stream_of st"
  by (cases "(js, p, v, st, ctx)" rule: value_to_ir.cases) (auto split: prod.splits)

section \<open>The frames of a conversion\<close>

text \<open>A payload read: the chunk, if any, with the log that goes on to the outbound side.\<close>

definition read_payload ::
  "json_text \<Rightarrow> protocol \<Rightarrow> string \<Rightarrow> any_stream \<Rightarrow> (ir_chunk \<times> conv_ctx) list \<times> any_stream" where
  "read_payload js p data st =
     (let (r, st', ctx) = chunk_to_ir js p data st []
      in (case r of Inr (Some chunk) \<Rightarrow> [(chunk, ctx)] | _ \<Rightarrow> [], st'))"

definition read_payloads :: "json_text \<Rightarrow> protocol \<Rightarrow> string list \<Rightarrow> ir_chunk list" where
  "read_payloads js p ds = map fst (fst (emit_all (read_payload js p) ds (any_stream_new p)))"

definition write_chunk ::
  "proto_env \<Rightarrow> string \<Rightarrow> protocol \<Rightarrow> ir_chunk \<times> conv_ctx \<Rightarrow> any_stream \<times> u64 \<Rightarrow> json list \<times> any_stream \<times> u64" where
  "write_chunk env model p c s = chunk_values env p ((fst c)\<lparr>chk_model := model\<rparr>) (fst s) (snd s) (snd c)"

lemma process_frame:
  assumes "stream_of (cv_from_state st) = cv_from st" "stream_of (cv_to_state st) = cv_to st"
    and "process_convert_frame env data st = (out, st')"
    and "read_payload (pe_json env) (cv_from st) data (cv_from_state st) = (cs, fst')"
    and "emit_all (write_chunk env (cv_model st) (cv_to st)) cs (cv_to_state st, cv_seq st) = (vs, tst, seq)"
  shows "out = map (encode_typed_event (pe_json env) \<circ> to_text (pe_json env)) vs \<and>
    st' = st\<lparr>cv_from_state := fst', cv_to_state := tst, cv_seq := seq\<rparr> \<and>
    stream_of fst' = cv_from st \<and> stream_of tst = cv_to st"
proof -
  obtain r fst1 ctx where r: "chunk_to_ir (pe_json env) (cv_from st) data (cv_from_state st) [] = (r, fst1, ctx)"
    by (metis prod_cases3)
  have keeps: "stream_of fst1 = cv_from st" using chunk_to_ir_keeps [OF r] assms(1) by simp
  show ?thesis
  proof (cases "\<exists>chunk. r = Inr (Some chunk)")
    case True
    then obtain chunk where chunk: "r = Inr (Some chunk)" by blast
    obtain w tst1 seq1 ctx1 where w: "chunk_from_ir env (cv_to st) (chunk\<lparr>chk_model := cv_model st\<rparr>)
        (cv_to_state st) (cv_seq st) ctx = (w, tst1, seq1, ctx1)" by (metis prod_cases4)
    note vals = chunk_from_values [OF assms(2) w]
    have "stream_of tst1 = cv_to st" using chunk_from_ir_keeps [OF w] assms(2) by simp
    with assms(3-5) keeps vals show ?thesis
      by (auto simp: process_convert_frame_def read_payload_def r chunk w write_chunk_def split: prod.splits)
  next
    case False
    then have "process_convert_frame env data st = ([], st\<lparr>cv_from_state := fst1\<rparr>)" "cs = []" "fst' = fst1"
      using assms(4) by (auto simp: process_convert_frame_def read_payload_def r split: sum.splits option.splits)
    with assms(2,3,5) keeps show ?thesis by auto
  qed
qed

lemma process_frames:
  "stream_of (cv_from_state st) = cv_from st \<Longrightarrow> stream_of (cv_to_state st) = cv_to st \<Longrightarrow>
   emit_all (process_convert_frame env) ds st = (out, st') \<Longrightarrow>
   emit_all (read_payload (pe_json env) (cv_from st)) ds (cv_from_state st) = (cs, fst') \<Longrightarrow>
   emit_all (write_chunk env (cv_model st) (cv_to st)) cs (cv_to_state st, cv_seq st) = (vs, tst, seq) \<Longrightarrow>
   out = map (encode_typed_event (pe_json env) \<circ> to_text (pe_json env)) vs \<and>
   st' = st\<lparr>cv_from_state := fst', cv_to_state := tst, cv_seq := seq\<rparr> \<and>
   stream_of fst' = cv_from st \<and> stream_of tst = cv_to st"
proof (induction ds arbitrary: st out cs vs)
  case (Cons d ds)
  obtain out1 st1 where p: "process_convert_frame env d st = (out1, st1)" by force
  obtain cs1 fst1 where r: "read_payload (pe_json env) (cv_from st) d (cv_from_state st) = (cs1, fst1)" by force
  obtain vs1 tst1 seq1 where w:
    "emit_all (write_chunk env (cv_model st) (cv_to st)) cs1 (cv_to_state st, cv_seq st) = (vs1, tst1, seq1)"
    by (metis prod_cases3)
  from process_frame [OF Cons.prems(1,2) p r w]
  have one: "out1 = map (encode_typed_event (pe_json env) \<circ> to_text (pe_json env)) vs1"
    "st1 = st\<lparr>cv_from_state := fst1, cv_to_state := tst1, cv_seq := seq1\<rparr>"
    "stream_of fst1 = cv_from st" "stream_of tst1 = cv_to st" by auto
  obtain out2 where out: "emit_all (process_convert_frame env) ds st1 = (out2, st')" "out = out1 @ out2"
    using Cons.prems(3) by (auto simp: p split: prod.splits)
  obtain cs2 where cs: "emit_all (read_payload (pe_json env) (cv_from st)) ds fst1 = (cs2, fst')" "cs = cs1 @ cs2"
    using Cons.prems(4) by (auto simp: r split: prod.splits)
  obtain vs2 where vs: "emit_all (write_chunk env (cv_model st) (cv_to st)) cs2 (tst1, seq1) = (vs2, tst, seq)" "vs = vs1 @ vs2"
    using Cons.prems(5) by (auto simp: cs(2) emit_all_append w split: prod.splits)
  from Cons.IH [of st1 out2 cs2 vs2] out cs vs show ?case by (simp add: one)
qed simp

section \<open>Every protocol reads back what it wrote\<close>

text \<open>A reader that starts every frame with an empty log, as the relay does.\<close>

definition fresh ::
  "(json \<Rightarrow> 's \<Rightarrow> conv_ctx \<Rightarrow> (convert_error + ir_chunk option) \<times> 's \<times> conv_ctx) \<Rightarrow>
   json \<Rightarrow> 's \<Rightarrow> conv_ctx \<Rightarrow> (convert_error + ir_chunk option) \<times> 's \<times> conv_ctx" where
  "fresh f v st ctx = (let (r, st', _) = f v st [] in (r, st', []))"

definition read_values :: "json_text \<Rightarrow> protocol \<Rightarrow> json list \<Rightarrow> any_stream \<Rightarrow> ir_chunk list" where
  "read_values js p vs st = read_all (fresh (value_to_ir js p)) vs (st, [])"

definition chunks_say :: "channel \<Rightarrow> ir_chunk list \<Rightarrow> string" where
  "chunks_say ch cs = concat (map (chunk_says ch) cs)"

lemma chunks_say_simps [simp]:
  "chunks_say ch [] = []" "chunks_say ch (c # cs) = chunk_says ch c @ chunks_say ch cs"
  "chunks_say ch (cs @ cs') = chunks_say ch cs @ chunks_say ch cs'"
  by (simp_all add: chunks_say_def)

lemma read_values_append:
  "\<exists>st'. stream_of st' = stream_of st \<and> read_values js p (vs @ ws) st = read_values js p vs st @ read_values js p ws st'"
proof (induction vs arbitrary: st)
  case (Cons v vs)
  obtain r st1 ctx1 where r: "value_to_ir js p v st [] = (r, st1, ctx1)" by (metis prod_cases3)
  from Cons.IH [of st1] value_to_ir_keeps [OF r] show ?case by (auto simp: read_values_def fresh_def r)
qed (auto simp: read_values_def)

lemma read_values_one:
  "chunks_say ch (read_values js p [v] st) = read_says ch (fst (value_to_ir js p v st []))"
  by (cases "value_to_ir js p v st []")
    (auto simp: read_values_def fresh_def read_says_def chunks_say_def split: sum.splits option.splits)

lemma emit_all_concat:
  assumes "\<And>i s es s'. fine s \<Longrightarrow> emit i s = (es, s') \<Longrightarrow> h es = g i \<and> fine s'"
    and "h [] = []" "\<And>es es'. h (es @ es') = h es @ h es'"
  shows "fine s \<Longrightarrow> emit_all emit is s = (es, s') \<Longrightarrow> h es = concat (map g is) \<and> fine s'"
proof (induction "is" arbitrary: s es)
  case (Cons i "is")
  obtain es1 s1 es2 where step: "emit i s = (es1, s1)" "emit_all emit is s1 = (es2, s')" "es = es1 @ es2"
    using Cons.prems(2) by (auto split: prod.splits)
  with assms(1) [OF Cons.prems(1) step(1)] Cons.IH [OF _ step(2)] show ?case by (simp add: assms(3))
qed (simp add: assms(2))

text \<open>Two protocols whose frames are read one by one.\<close>

lemma frames_read_back:
  assumes one: "\<And>c s es s' rst. stream_of (fst s) = p \<Longrightarrow> write_chunk env model p c s = (es, s') \<Longrightarrow>
      stream_of rst = p \<Longrightarrow> chunks_say ch (read_values js p es rst) = chunk_says ch (fst c) \<and> stream_of (fst s') = p"
  shows "emit_all (write_chunk env model p) cs s = (es, s') \<Longrightarrow> stream_of (fst s) = p \<Longrightarrow> stream_of rst = p \<Longrightarrow>
    chunks_say ch (read_values js p es rst) = chunks_say ch (map fst cs) \<and> stream_of (fst s') = p"
proof (induction cs arbitrary: s es rst)
  case Nil
  then show ?case by (auto simp: read_values_def)
next
  case (Cons c cs)
  obtain es1 s1 es2 where step: "write_chunk env model p c s = (es1, s1)"
      "emit_all (write_chunk env model p) cs s1 = (es2, s')" "es = es1 @ es2"
    using Cons.prems(1) by (auto split: prod.splits)
  obtain rst1 where rst1: "stream_of rst1 = p"
    "read_values js p (es1 @ es2) rst = read_values js p es1 rst @ read_values js p es2 rst1"
    using read_values_append [of rst js p es1 es2] Cons.prems(3) by auto
  have "chunks_say ch (read_values js p es1 rst) = chunk_says ch (fst c)" "stream_of (fst s1) = p"
    using one [OF Cons.prems(2) step(1) Cons.prems(3)] by simp_all
  with Cons.IH [OF step(2) _ rst1(1)] show ?case by (simp add: step(3) rst1(2))
qed

subsection \<open>Chat\<close>

lemma chat_choices_back:
  "\<exists>choices' ctx'. try_map_ctx chat_parse_chunk_choice (map chat_chunk_choice_to_json choices) ctx = (Inr choices', ctx') \<and>
     map cc_delta choices' = map cc_delta choices"
proof (induction choices arbitrary: ctx)
  case (Cons c choices)
  have "is_object (chat_chunk_choice_to_json c)"
    "jget ''delta'' (chat_chunk_choice_to_json c) = Some (chat_delta_to_json (cc_delta c))"
    by (simp_all add: chat_chunk_choice_to_json_def obj_lookup)
  then obtain c' ctx1 where "chat_parse_chunk_choice (chat_chunk_choice_to_json c) ctx = (Inr c', ctx1)" "cc_delta c' = cc_delta c"
    by (simp add: chat_parse_chunk_choice_def chat_delta_back)
  with Cons.IH [of ctx1] show ?case by (auto simp: split: prod.splits)
qed simp

lemma chat_chunk_says_back:
  assumes "chat_chunk_to_value chunk ctx = (v, ctx')"
  shows "read_says ch (fst (chat_chunk_value_to_ir v c)) = chunk_says ch chunk"
proof -
  obtain obj where v: "v = JObj obj" and choices: "obj_get ''choices'' obj = Some (JArr (map chat_chunk_choice_to_json (chk_choices chunk)))"
    using assms by (auto simp: chat_chunk_to_value_def obj_lookup split: prod.splits)
  obtain choices' c' where "try_map_ctx chat_parse_chunk_choice (map chat_chunk_choice_to_json (chk_choices chunk)) c = (Inr choices', c')"
    and "map cc_delta choices' = map cc_delta (chk_choices chunk)"
    using chat_choices_back by blast
  then show ?thesis
    by (cases choices'; cases "chk_choices chunk")
      (auto simp del: try_map_ctx.simps simp: chat_chunk_value_to_ir_def v choices read_says_def chunk_says_def chunk_choice_def)
qed

lemma chunk_says_model [simp]: "chunk_says ch (chunk\<lparr>chk_model := m\<rparr>) = chunk_says ch chunk"
  by (simp add: chunk_says_def chunk_choice_def)

lemma chat_reads_back:
  assumes "stream_of (fst s) = OpenaiChat" "write_chunk env model OpenaiChat c s = (es, s')" "stream_of rst = OpenaiChat"
  shows "chunks_say ch (read_values js OpenaiChat es rst) = chunk_says ch (fst c) \<and> stream_of (fst s') = OpenaiChat"
proof -
  have states: "fst s = ChatStream" "rst = ChatStream" using assms(1,3) by (cases "fst s"; cases rst; simp)+
  obtain v ctx' where v: "chat_chunk_to_value ((fst c)\<lparr>chk_model := model\<rparr>) (snd c) = (v, ctx')" by force
  have "es = [v]" "fst s' = ChatStream"
    using assms(2) states(1) v by (auto simp: write_chunk_def)
  moreover have "fst (value_to_ir js OpenaiChat v ChatStream []) = fst (chat_chunk_value_to_ir v [])"
    by (simp split: prod.splits)
  ultimately show ?thesis
    using chat_chunk_says_back [OF v, of ch "[]"] by (simp add: read_values_one states)
qed

subsection \<open>Gemini\<close>

lemma gem_reads_back:
  assumes walk: "\<And>ks. set (pe_walk env ks) = set ks" and ch: "ch \<noteq> ToolChannel"
    and "stream_of (fst s) = Gemini" "write_chunk env model Gemini c s = (es, s')" "stream_of rst = Gemini"
  shows "chunks_say ch (read_values js Gemini es rst) = chunk_says ch (fst c) \<and> stream_of (fst s') = Gemini"
proof -
  obtain st where st: "fst s = GeminiStream st" using assms(3) by (cases "fst s") simp_all
  obtain rs where rs: "rst = GeminiStream rs" using assms(5) by (cases rst) simp_all
  obtain v st' ctx' where v: "gem_chunk_value (pe_json env) (pe_walk env) ((fst c)\<lparr>chk_model := model\<rparr>) st (snd c) = (v, st', ctx')"
    by (metis prod_cases3)
  have es: "es = [v]" "fst s' = GeminiStream st'"
    using assms(4) st v by (auto simp: write_chunk_def)
  obtain r rs' rctx where r: "gem_value_to_ir js v rs [] = (r, rs', rctx)" by (metis prod_cases3)
  obtain calls m fr where shape: "v = JObj m" "list_all (\<lambda>v. \<exists>n a. v = function_call_part n a) calls"
    "obj_get ''candidates'' m =
      Some (JArr [candidate_json (text_parts (fst (chunk_choice ((fst c)\<lparr>chk_model := model\<rparr>))) @ calls) (json_u64 0) fr])"
    using walk v by (rule gem_chunk_shape)
  have "read_says ch r = chunk_says ch ((fst c)\<lparr>chk_model := model\<rparr>)"
    using read_frame [OF shape(3,2) ch r [unfolded shape(1)]] by (simp add: chunk_says_def)
  then show ?thesis by (simp add: es rs read_values_one r)
qed

lemma gem_end_reads:
  assumes walk: "\<And>ks. set (pe_walk env ks) = set ks" and ch: "ch \<noteq> ToolChannel" and "stream_of rst = Gemini"
  shows "chunks_say ch (read_values js Gemini (end_values env Gemini failed (GeminiStream st)) rst) = []"
proof -
  obtain rs where rs: "rst = GeminiStream rs" using assms(3) by (cases rst) simp_all
  obtain st' parts where fin: "flush_unfinished_tools (pe_json env) (pe_walk env) (st, []) = (st', parts)" by force
  have shape: "list_all (\<lambda>v. \<exists>n a. v = function_call_part n a) parts"
    using flush_unfinished(1) [where s = "(st, [])" and js = "pe_json env" and walk = "pe_walk env", OF walk]
    by (simp add: fin tools_sent_def)
  obtain r rs' rctx where r: "gem_value_to_ir js
      (json_obj [(''candidates'', JArr [candidate_json parts (json_u64 0) None])]) rs [] = (r, rs', rctx)"
    by (metis prod_cases3)
  show ?thesis
  proof (cases "parts = []")
    case True
    then show ?thesis by (simp add: gem_end_values_def fin read_values_def)
  next
    case False
    then have "end_values env Gemini failed (GeminiStream st) =
        [json_obj [(''candidates'', JArr [candidate_json parts (json_u64 0) None])]]"
      by (simp add: gem_end_values_def fin)
    then show ?thesis using read_frame_none [OF ch r shape] by (simp only: read_values_one rs value_to_ir.simps r) simp
  qed
qed

subsection \<open>Anthropic and Responses\<close>

text \<open>The client automata and the readers, on the dispatched states and with a fresh log per frame.\<close>

fun as_anth :: "any_stream \<Rightarrow> anth_stream" where
  "as_anth (AnthropicStream st) = st" | "as_anth st = anth_stream_new"

fun as_resp :: "any_stream \<Rightarrow> resp_stream" where
  "as_resp (ResponsesStream st) = st" | "as_resp st = resp_stream_new"

interpretation anth_out: event_source "write_chunk env model Anthropic" "client_step False"
  "client_of \<circ> as_anth \<circ> fst" "\<lambda>s. stream_of (fst s) = Anthropic \<and> stream_live (as_anth (fst s))" for env model
proof unfold_locales
  fix i s es s'
  assume s: "stream_of (fst s) = Anthropic \<and> stream_live (as_anth (fst s))" and w: "write_chunk env model Anthropic i s = (es, s')"
  then obtain st where st: "fst s = AnthropicStream st" by (cases "fst s") simp_all
  obtain evs st' ctx' where ev: "anth_chunk_events ((fst i)\<lparr>chk_model := model\<rparr>) st (snd i) = (evs, st', ctx')"
    by (metis prod_cases3)
  have "es = evs" "fst s' = AnthropicStream st'" using w by (auto simp: write_chunk_def st ev)
  with chunk_accepted [OF _ ev] s st
  show "accepts (client_step False) es ((client_of \<circ> as_anth \<circ> fst) s) = Some ((client_of \<circ> as_anth \<circ> fst) s') \<and>
    stream_of (fst s') = Anthropic \<and> stream_live (as_anth (fst s'))" by simp
qed

interpretation resp_out: event_source "write_chunk env model OpenaiResponses" "rclient_step False"
  "rclient_of \<circ> as_resp \<circ> fst" "\<lambda>s. stream_of (fst s) = OpenaiResponses \<and> resp_live (as_resp (fst s))" for env model
proof unfold_locales
  fix i s es s'
  assume s: "stream_of (fst s) = OpenaiResponses \<and> resp_live (as_resp (fst s))"
    and w: "write_chunk env model OpenaiResponses i s = (es, s')"
  then obtain st where st: "fst s = ResponsesStream st" by (cases "fst s") simp_all
  obtain evs st' seq' ctx' where ev: "resp_chunk_events (pe_clock env) ((fst i)\<lparr>chk_model := model\<rparr>) st (snd s) (snd i) = (evs, st', seq', ctx')"
    by (metis prod_cases4)
  have "es = evs" "fst s' = ResponsesStream st'" using w by (auto simp: write_chunk_def st ev)
  with resp_chunk_accepted [OF _ ev] s st
  show "accepts (rclient_step False) es ((rclient_of \<circ> as_resp \<circ> fst) s) = Some ((rclient_of \<circ> as_resp \<circ> fst) s') \<and>
    stream_of (fst s') = OpenaiResponses \<and> resp_live (as_resp (fst s'))" by simp
qed

interpretation anth_in: event_reader "fresh (value_to_ir js Anthropic)" "client_step False"
  "\<lambda>c st. stream_of st = Anthropic \<and> tools_registered c (as_anth st)" event_says for js
proof unfold_locales
  fix v c c' st ctx r st' ctx' ch
  assume c: "client_step False v c = Some c'" and st: "stream_of st = Anthropic \<and> tools_registered c (as_anth st)"
    and run: "fresh (value_to_ir js Anthropic) v st ctx = (r, st', ctx')"
  obtain s where s: "st = AnthropicStream s" using st by (cases st) simp_all
  obtain r1 s1 ctx1 where r: "anth_event_to_ir v s [] = (r1, s1, ctx1)" by (metis prod_cases3)
  from anth_reader.read_says_event [OF c _ r, of ch] st run
  show "(stream_of st' = Anthropic \<and> tools_registered c' (as_anth st')) \<and> read_says ch r = event_says ch v"
    by (simp add: s fresh_def r) auto
qed

interpretation resp_in: event_reader "fresh (value_to_ir js OpenaiResponses)" "rclient_step False"
  "\<lambda>c st. stream_of st = OpenaiResponses \<and> items_registered c (as_resp st)" resp_event_says for js
proof unfold_locales
  fix v c c' st ctx r st' ctx' ch
  assume c: "rclient_step False v c = Some c'" and st: "stream_of st = OpenaiResponses \<and> items_registered c (as_resp st)"
    and run: "fresh (value_to_ir js OpenaiResponses) v st ctx = (r, st', ctx')"
  obtain s where s: "st = ResponsesStream s" using st by (cases st) simp_all
  obtain r1 s1 ctx1 where r: "resp_event_to_ir v s [] = (r1, s1, ctx1)" by (metis prod_cases3)
  from resp_reader.read_says_event [OF c _ r, of ch] st run
  show "(stream_of st' = OpenaiResponses \<and> items_registered c' (as_resp st')) \<and> read_says ch r = resp_event_says ch v"
    by (simp add: s fresh_def r) auto
qed

lemma anth_stream_back:
  assumes run: "emit_all (write_chunk env model Anthropic) cs (any_stream_new Anthropic, seq) = (vs, tst, seq')"
  shows "chunks_say ch (read_values js Anthropic (vs @ end_values env Anthropic failed tst) (any_stream_new Anthropic)) =
    chunks_say ch (map fst cs)"
proof -
  let ?s0 = "(any_stream_new Anthropic, seq)"
  have s0: "stream_of (fst ?s0) = Anthropic \<and> stream_live (as_anth (fst ?s0))" "client_of (as_anth (fst ?s0)) = client_new"
    by (simp_all add: any_stream_new_def stream_live_def client_of_def client_new_def anth_stream_new_def)
  have acc: "accepts (client_step False) vs client_new = Some (client_of (as_anth tst))"
    "stream_of tst = Anthropic" "stream_live (as_anth tst)"
    using anth_out.emit_all_accepted [OF s0(1) run] s0(2) by simp_all
  have "events_say ch es = chunk_says ch (fst c) \<and> stream_of (fst s') = Anthropic"
    if "stream_of (fst s) = Anthropic" "write_chunk env model Anthropic c s = (es, s')" for c s es s'
    using that chunk_events_say [of "(fst c)\<lparr>chk_model := model\<rparr>" _ "snd c"]
    by (cases "fst s") (auto simp: write_chunk_def split: prod.splits)
  from emit_all_concat [where fine = "\<lambda>s. stream_of (fst s) = Anthropic" and h = "events_say ch", OF this _ _ _ run]
  have says: "events_say ch vs = chunks_say ch (map fst cs)" by (simp add: chunks_say_def comp_def)
  obtain st where st: "tst = AnthropicStream st" using acc(2) by (cases tst) simp_all
  obtain evs st' where fin: "anth_end_events (if failed then anth_mark_failed st else st) = (evs, st')" by force
  obtain c where "accepts (client_step False) evs (client_of st) = Some c"
    using end_accepted [OF _ _ fin, of False] acc(3) st by (cases failed) auto
  with acc(1) st have all: "accepts (client_step False) (vs @ evs) client_new = Some c" by (simp add: accepts_append)
  have "stream_of (any_stream_new Anthropic) = Anthropic \<and> tools_registered client_new (as_anth (any_stream_new Anthropic))"
    by simp
  from anth_in.read_all_says [OF all this, of ch js "[]"] end_events_say [OF fin, of ch] says
  show ?thesis by (simp add: st fin read_values_def chunks_say_def events_say_def)
qed

lemma resp_stream_back:
  assumes run: "emit_all (write_chunk env model OpenaiResponses) cs (any_stream_new OpenaiResponses, seq) = (vs, tst, seq')"
  shows "chunks_say ch (read_values js OpenaiResponses (vs @ end_values env OpenaiResponses failed tst) (any_stream_new OpenaiResponses)) =
    chunks_say ch (map fst cs)"
proof -
  let ?s0 = "(any_stream_new OpenaiResponses, seq)"
  have s0: "stream_of (fst ?s0) = OpenaiResponses \<and> resp_live (as_resp (fst ?s0))" "rclient_of (as_resp (fst ?s0)) = rclient_new"
    by (simp_all add: any_stream_new_def)
  have acc: "accepts (rclient_step False) vs rclient_new = Some (rclient_of (as_resp tst))" "stream_of tst = OpenaiResponses"
    using resp_out.emit_all_accepted [OF s0(1) run] s0(2) by simp_all
  have "resp_events_say ch es = chunk_says ch (fst c) \<and> stream_of (fst s') = OpenaiResponses"
    if "stream_of (fst s) = OpenaiResponses" "write_chunk env model OpenaiResponses c s = (es, s')" for c s es s'
    using that resp_chunk_events_say [of _ "(fst c)\<lparr>chk_model := model\<rparr>" _ _ "snd c"]
    by (cases "fst s") (auto simp: write_chunk_def split: prod.splits)
  from emit_all_concat [where fine = "\<lambda>s. stream_of (fst s) = OpenaiResponses" and h = "resp_events_say ch", OF this _ _ _ run]
  have says: "resp_events_say ch vs = chunks_say ch (map fst cs)" by (simp add: chunks_say_def comp_def)
  obtain st where st: "tst = ResponsesStream st" using acc(2) by (cases tst) simp_all
  obtain evs st' ctx' where fin: "resp_end_events (if failed then resp_mark_failed st else st) [] = (evs, st', ctx')"
    by (metis prod_cases3)
  obtain c where "accepts (rclient_step False) evs (rclient_of st) = Some c"
    using resp_end_accepted [OF fin, of False] by (auto split: if_splits)
  with acc(1) st have all: "accepts (rclient_step False) (vs @ evs) rclient_new = Some c" by (simp add: accepts_append)
  have "stream_of (any_stream_new OpenaiResponses) = OpenaiResponses \<and>
      items_registered rclient_new (as_resp (any_stream_new OpenaiResponses))" by simp
  from resp_in.read_all_says [OF all this, of ch js "[]"] resp_end_says [OF fin, of ch] says
  show ?thesis by (simp add: st fin read_values_def chunks_say_def resp_events_say_def)
qed

text \<open>What a client of any protocol reads of the values written for a list of chunks.\<close>

lemma values_read_back:
  assumes walk: "\<And>ks. set (pe_walk env ks) = set ks" and ch: "p = Gemini \<Longrightarrow> ch \<noteq> ToolChannel"
    and run: "emit_all (write_chunk env model p) cs (any_stream_new p, seq) = (vs, tst, seq')"
  shows "chunks_say ch (read_values js p (vs @ end_values env p failed tst) (any_stream_new p)) = chunks_say ch (map fst cs)"
proof (cases p)
  case OpenaiChat
  have "chunks_say ch (read_values js OpenaiChat vs (any_stream_new OpenaiChat)) = chunks_say ch (map fst cs) \<and>
      stream_of (fst (tst, seq')) = OpenaiChat"
    by (rule frames_read_back [OF _ run [unfolded OpenaiChat]], rule chat_reads_back) simp_all
  then show ?thesis by (cases tst) (simp_all add: OpenaiChat)
next
  case Gemini
  have "chunks_say ch (read_values js Gemini vs (any_stream_new Gemini)) = chunks_say ch (map fst cs) \<and>
      stream_of (fst (tst, seq')) = Gemini"
    by (rule frames_read_back [OF _ run [unfolded Gemini]], rule gem_reads_back, rule walk, rule ch, rule Gemini) simp_all
  then have again: "chunks_say ch (read_values js Gemini vs (any_stream_new Gemini)) = chunks_say ch (map fst cs)" "stream_of tst = Gemini"
    by simp_all
  obtain st where st: "tst = GeminiStream st" using again(2) by (cases tst) simp_all
  obtain st' where "stream_of st' = Gemini" "read_values js Gemini (vs @ end_values env Gemini failed tst) (any_stream_new Gemini) =
      read_values js Gemini vs (any_stream_new Gemini) @ read_values js Gemini (end_values env Gemini failed tst) st'"
    using read_values_append [of "any_stream_new Gemini" js Gemini vs "end_values env Gemini failed tst"] by auto
  with again(1) gem_end_reads [OF walk ch [OF Gemini], of st'] show ?thesis
    by (simp only: Gemini st chunks_say_simps append_Nil2)
qed (use run anth_stream_back resp_stream_back in simp_all)

section \<open>The bytes\<close>

text \<open>The payloads of the upstream, and whether it broke off.\<close>

fun net_payloads :: "net_event list \<Rightarrow> sse_parser \<Rightarrow> string list \<times> bool" where
  "net_payloads [] p = (fst (sse_finish p), False)"
| "net_payloads (Piece bytes # es) p =
     (let (evs, p') = sse_feed bytes p; (evs', failed) = net_payloads es p' in (evs @ evs', failed))"
| "net_payloads (Broken msg # es) p = (fst (sse_finish p), True)"

definition sent_bytes :: "(string + string) list \<Rightarrow> string" where
  "sent_bytes items = concat (map (case_sum (\<lambda>_. []) id) items)"

lemma sent_bytes_simps [simp]:
  "sent_bytes (map Inr out) = concat out" "sent_bytes (is @ is') = sent_bytes is @ sent_bytes is'"
  "sent_bytes [Inl msg] = []"
  by (simp_all add: sent_bytes_def comp_def)

lemma items_bytes:
  "net_payloads es p = (ds, failed) \<Longrightarrow> emit_all frame ds inner = (out, inner1) \<Longrightarrow>
   sent_bytes (relay_items frame closing es p inner) = concat (out @ fst (closing failed inner1))"
proof (induction es p arbitrary: ds inner out rule: net_payloads.induct)
  case (2 bytes es p)
  obtain evs p' where feed: "sse_feed bytes p = (evs, p')" by force
  obtain evs' where rest: "net_payloads es p' = (evs', failed)" "ds = evs @ evs'"
    using 2(2) by (auto simp: feed split: prod.splits)
  obtain out1 inner0 where one: "emit_all frame evs inner = (out1, inner0)" by force
  obtain out2 where two: "emit_all frame evs' inner0 = (out2, inner1)" "out = out1 @ out2"
    using 2(3) by (auto simp: rest(2) emit_all_append one split: prod.splits)
  from 2(1) [OF feed [symmetric] refl rest(1) two(1)] show ?case by (simp add: feed one two(2))
qed (auto simp: Let_def split: prod.splits)

text \<open>The values that a conversion writes, from the bytes of the upstream.\<close>

definition sent_values ::
  "proto_env \<Rightarrow> protocol \<Rightarrow> protocol \<Rightarrow> string \<Rightarrow> u64 \<Rightarrow> net_event list \<Rightarrow> json list" where
  "sent_values env from to model seq es =
     (let (ds, failed) = net_payloads es sse_new;
          (cs, _) = emit_all (read_payload (pe_json env) from) ds (any_stream_new from);
          (vs, tst, _) = emit_all (write_chunk env model to) cs (any_stream_new to, seq)
      in vs @ end_values env to failed tst)"

text \<open>What the JSON library does with a value: it is printed as clean text and read back.\<close>

definition event_name :: "json \<Rightarrow> string option" where
  "event_name v =
     (case Option.bind (jget ''type'' v) as_str of Some t \<Rightarrow> if t \<noteq> [] then Some t else None | None \<Rightarrow> None)"

definition clean_text :: "string \<Rightarrow> bool" where
  "clean_text t \<longleftrightarrow> from_utf8_lossy t = t \<and> carriage \<notin> set t"

definition text_fits :: "json_text \<Rightarrow> json \<Rightarrow> bool" where
  "text_fits js v \<longleftrightarrow>
     from_text js (to_text js v) = Inr v \<and> clean_text (to_text js v) \<and> trim (to_text js v) \<noteq> ''[DONE]'' \<and>
     (case event_name v of None \<Rightarrow> True | Some name \<Rightarrow> clean_text name \<and> newline \<notin> set name)"

lemma convert_bytes:
  "sent_bytes (relay_items (process_convert_frame env) (convert_closing env) es sse_new (convert_new from to model seq)) =
     concat (map (encode_typed_event (pe_json env))
       (map (to_text (pe_json env)) (sent_values env from to model seq es) @ done_marks to))"
proof -
  obtain ds failed where net: "net_payloads es sse_new = (ds, failed)" by force
  let ?st = "convert_new from to model seq"
  obtain out st' where run: "emit_all (process_convert_frame env) ds ?st = (out, st')" by force
  obtain cs fst' where r: "emit_all (read_payload (pe_json env) from) ds (any_stream_new from) = (cs, fst')" by force
  obtain vs tst seq' where w: "emit_all (write_chunk env model to) cs (any_stream_new to, seq) = (vs, tst, seq')"
    by (metis prod_cases3)
  have st: "cv_from ?st = from" "cv_to ?st = to" "cv_model ?st = model" "cv_from_state ?st = any_stream_new from"
    "cv_to_state ?st = any_stream_new to" "cv_seq ?st = seq" by (simp_all add: convert_new_def)
  have frames: "out = map (encode_typed_event (pe_json env) \<circ> to_text (pe_json env)) vs"
    "st' = ?st\<lparr>cv_from_state := fst', cv_to_state := tst, cv_seq := seq'\<rparr>" "stream_of tst = to"
    using process_frames [of ?st env ds out st' cs fst' vs tst seq'] run r w by (simp_all add: st)
  obtain e tst' ctx' where fin:
    "(if failed then stream_fail_end env to tst [] else stream_end env to tst []) = (e, tst', ctx')"
    by (metis prod_cases3)
  have "fst (convert_closing env failed st') =
      map (encode_typed_event (pe_json env)) (map (to_text (pe_json env)) (end_values env to failed tst) @ done_marks to)"
    using stream_end_values [OF frames(3) fin refl] fin
    by (auto simp: convert_closing_def frames(2) st split: prod.splits if_splits)
  then show ?thesis
    using items_bytes [OF net run, of "convert_closing env"]
    by (simp add: sent_values_def net r w frames(1))
qed

lemma encode_value:
  "text_fits js v \<Longrightarrow> encode_typed_event js (to_text js v) = encode_typed_event_with_type (to_text js v) (event_name v)"
  by (simp add: encode_typed_event_def text_fits_def event_name_def)

lemma client_payloads:
  assumes fits: "\<forall>v \<in> set vs. text_fits js v" and mark: "from_text js ''[DONE]'' = Inl e"
    and bytes: "concat pieces = concat (map (encode_typed_event js) (map (to_text js) vs @ done_marks p))"
  shows "fst (emit_all sse_feed pieces sse_new) = map (to_text js) vs @ done_marks p"
proof -
  define evs where "evs = map (\<lambda>v. (to_text js v, event_name v)) vs @ map (\<lambda>d. (d, None)) (done_marks p)"
  have "encode_typed_event js ''[DONE]'' = encode_typed_event_with_type ''[DONE]'' None"
    by (simp add: encode_typed_event_def mark)
  then have "concat pieces = concat (map (\<lambda>(data, event). encode_typed_event_with_type data event) evs)"
    using fits by (auto simp: bytes evs_def done_marks_def encode_value intro!: arg_cong [where f = concat])
  moreover have "\<forall>(data, event) \<in> set evs. from_utf8_lossy data = data \<and> carriage \<notin> set data \<and>
      (case event of None \<Rightarrow> True
       | Some name \<Rightarrow> newline \<notin> set name \<and> carriage \<notin> set name \<and> from_utf8_lossy name = name)"
    using fits by (auto simp del: from_utf8_lossy.simps simp: evs_def done_marks_def done_mark text_fits_def clean_text_def split: option.splits)
  moreover have "emit_all sse_feed pieces sse_new = sse_feed (concat pieces) sse_new"
    by (rule sse.feed_pieces) (simp add: sse_new_def)
  ultimately show ?thesis using read_stream [of evs] by (simp add: evs_def comp_def)
qed

lemma read_payloads_fit:
  "\<forall>v \<in> set vs. text_fits js v \<Longrightarrow> stream_of st = p \<Longrightarrow>
   map fst (fst (emit_all (read_payload js p) (map (to_text js) vs @ done_marks p) st)) = read_values js p vs st"
proof (induction vs arbitrary: st)
  case Nil
  then show ?case
    by (cases st) (simp_all add: done_mark done_marks_def read_values_def read_payload_def chat_chunk_to_ir_def)
next
  case (Cons v vs)
  obtain r st1 ctx1 where r: "value_to_ir js p v st [] = (r, st1, ctx1)" by (metis prod_cases3)
  have "chunk_to_ir js p (to_text js v) st [] = (r, st1, ctx1)"
    using chunk_to_ir_value [OF Cons.prems(2)] Cons.prems(1) r by (simp add: text_fits_def)
  moreover have "stream_of st1 = p" using value_to_ir_keeps [OF r] Cons.prems(2) by simp
  ultimately show ?case
    using Cons.IH [of st1] Cons.prems(1)
    by (auto simp: read_payload_def read_values_def fresh_def r split: prod.splits sum.splits option.splits)
qed

text \<open>The same for the whole relay.\<close>

lemma convert_faithful:
  assumes walk: "\<And>ks. set (pe_walk env ks) = set ks" and ch: "to = Gemini \<Longrightarrow> ch \<noteq> ToolChannel"
    and fits: "\<forall>v \<in> set (sent_values env from to model seq es). text_fits (pe_json env) v"
    and mark: "from_text (pe_json env) ''[DONE]'' = Inl e"
    and bytes: "concat pieces = sent_bytes
      (relay_items (process_convert_frame env) (convert_closing env) es sse_new (convert_new from to model seq))"
  shows "chunks_say ch (read_payloads (pe_json env) to (fst (emit_all sse_feed pieces sse_new))) =
    chunks_say ch (read_payloads (pe_json env) from (fst (net_payloads es sse_new)))"
proof -
  obtain ds failed where net: "net_payloads es sse_new = (ds, failed)" by force
  obtain cs fst' where r: "emit_all (read_payload (pe_json env) from) ds (any_stream_new from) = (cs, fst')" by force
  obtain vs tst seq' where w: "emit_all (write_chunk env model to) cs (any_stream_new to, seq) = (vs, tst, seq')"
    by (metis prod_cases3)
  have sent: "sent_values env from to model seq es = vs @ end_values env to failed tst"
    by (simp add: sent_values_def net r w)
  from client_payloads [OF fits mark bytes [unfolded convert_bytes]]
  have "read_payloads (pe_json env) to (fst (emit_all sse_feed pieces sse_new)) =
      read_values (pe_json env) to (sent_values env from to model seq es) (any_stream_new to)"
    using read_payloads_fit [OF fits, of "any_stream_new to" to] by (simp add: read_payloads_def)
  with values_read_back [OF walk ch w] show ?thesis by (simp add: sent read_payloads_def net r)
qed

lemma convert_bytes_new:
  "length (sse_convert_stream env from to model seq n es) < n \<Longrightarrow>
   sse_convert_stream env from to model seq n es =
     relay_items (process_convert_frame env) (convert_closing env) es sse_new (convert_new from to model seq)"
  by (simp add: sse_convert_stream_def pull_items)

section \<open>The passthrough\<close>

text \<open>Two objects that differ in their model only; a member that is missing stays missing.\<close>

definition model_set :: "string \<Rightarrow> json \<Rightarrow> json \<Rightarrow> bool" where
  "model_set model w w' \<longleftrightarrow>
     is_object w' = is_object w \<and>
     (if is_object w
      then \<forall>k. jget k w' = (if k = ''model'' then map_option (\<lambda>_. JStr model) (jget k w) else jget k w)
      else w' = w)"

definition only_model :: "string \<Rightarrow> json \<Rightarrow> json \<Rightarrow> bool" where
  "only_model model v v' \<longleftrightarrow>
     (if is_object v
      then is_object v' \<and>
        (\<forall>k. if k = ''model'' then jget k v' = map_option (\<lambda>_. JStr model) (jget k v)
             else if k \<in> {''message'', ''response''} then rel_option (model_set model) (jget k v) (jget k v')
             else jget k v' = jget k v)
      else v' = v)"

lemma set_model_in_get:
  "obj_get k (set_model_in model obj) =
     (if k = ''model'' then map_option (\<lambda>_. JStr model) (obj_get k obj) else obj_get k obj)"
  by (auto simp: set_model_in_def obj_get_insert)

lemma set_nested_get:
  "k \<noteq> k' \<Longrightarrow> obj_get k (set_nested_model model k' obj) = obj_get k obj"
  "rel_option (model_set model) (obj_get k obj) (obj_get k (set_nested_model model k obj))"
  by (auto simp: set_nested_model_def obj_get_insert model_set_def set_model_in_get
      split: option.splits json.splits intro!: option.rel_refl)

lemma rewrite_only_model: "only_model model v (rewrite_model model v)"
proof (cases v)
  case (JObj obj)
  let ?m = "set_model_in model obj"
  have "rel_option (model_set model) (obj_get ''message'' obj)
      (obj_get ''message'' (set_nested_model model ''response'' (set_nested_model model ''message'' ?m)))"
    using set_nested_get(2) [of model "''message''" ?m] by (simp add: set_nested_get(1) set_model_in_get)
  moreover have "rel_option (model_set model) (obj_get ''response'' obj)
      (obj_get ''response'' (set_nested_model model ''response'' (set_nested_model model ''message'' ?m)))"
    using set_nested_get(2) [of model "''response''" "set_nested_model model ''message'' ?m"]
    by (simp add: set_nested_get(1) set_model_in_get)
  ultimately show ?thesis
    by (auto simp: JObj only_model_def rewrite_model_def set_nested_get(1) set_model_in_get)
qed (simp_all add: only_model_def rewrite_model_def)

text \<open>What becomes of a payload.\<close>

definition rewritten :: "json_text \<Rightarrow> string \<Rightarrow> string \<Rightarrow> string" where
  "rewritten js model d =
     (if trim d = ''[DONE]'' then d
      else (case from_text js d of Inr v \<Rightarrow> to_text js (rewrite_model model v) | Inl _ \<Rightarrow> d))"

text \<open>The name on the event line.\<close>

definition rewritten_name :: "json_text \<Rightarrow> string \<Rightarrow> string \<Rightarrow> string option" where
  "rewritten_name js model d =
     (case from_text js d of
        Inr v \<Rightarrow> Option.bind (jget ''type'' (if trim d = ''[DONE]'' then v else rewrite_model model v)) as_str
      | Inl _ \<Rightarrow> None)"

definition passes :: "json_text \<Rightarrow> string \<Rightarrow> string \<Rightarrow> bool" where
  "passes js model d \<longleftrightarrow>
     clean_text (rewritten js model d) \<and>
     (case rewritten_name js model d of None \<Rightarrow> True | Some name \<Rightarrow> clean_text name \<and> newline \<notin> set name)"

lemma rewrite_payload:
  "rewrite_sse_payload js d model = encode_typed_event_with_type (rewritten js model d) (rewritten_name js model d)"
  by (auto simp: rewrite_sse_payload_def rewritten_def rewritten_name_def encode_typed_event_def
      encode_typed_event_with_type_def Let_def split: sum.splits option.splits)

lemma passthrough_frames:
  "emit_all (passthrough_frame js model) ds u = (map (\<lambda>d. rewrite_sse_payload js d model) ds, u)"
  by (induction ds) (simp_all add: passthrough_frame_def)

lemma passthrough_payloads:
  assumes ok: "\<forall>d \<in> set (fst (net_payloads es sse_new)). passes js model d"
    and bytes: "concat pieces = sent_bytes (relay_items (passthrough_frame js model) passthrough_closing es sse_new ())"
  shows "fst (emit_all sse_feed pieces sse_new) = map (rewritten js model) (fst (net_payloads es sse_new))"
proof -
  obtain ds failed where net: "net_payloads es sse_new = (ds, failed)" by force
  define evs where "evs = map (\<lambda>d. (rewritten js model d, rewritten_name js model d)) ds"
  have "concat pieces = concat (map (\<lambda>(data, event). encode_typed_event_with_type data event) evs)"
    using items_bytes [OF net passthrough_frames, where closing = passthrough_closing]
    by (simp add: bytes evs_def passthrough_closing_def rewrite_payload comp_def)
  moreover have "\<forall>(data, event) \<in> set evs. from_utf8_lossy data = data \<and> carriage \<notin> set data \<and>
      (case event of None \<Rightarrow> True
       | Some name \<Rightarrow> newline \<notin> set name \<and> carriage \<notin> set name \<and> from_utf8_lossy name = name)"
    using ok by (auto simp: net evs_def passes_def clean_text_def split: option.splits)
  moreover have "emit_all sse_feed pieces sse_new = sse_feed (concat pieces) sse_new"
    by (rule sse.feed_pieces) (simp add: sse_new_def)
  ultimately show ?thesis using read_stream [of evs] by (simp add: evs_def comp_def net)
qed

section \<open>Properties\<close>


text \<open>
  C24: the items that a client pulls do not depend on how the transport cuts the upstream's bytes,
  in a conversion and in a passthrough, also when the upstream breaks off after them.
\<close>

theorem relay_any_pieces:
  "sse_convert_stream env from to model seq n (map Piece ps @ rest) =
     sse_convert_stream env from to model seq n (Piece (concat ps) # rest) \<and>
   sse_passthrough_stream js model n (map Piece ps @ rest) =
     sse_passthrough_stream js model n (Piece (concat ps) # rest)"
proof -
  have "emit_all sse_feed ps sse_new = sse_feed (concat ps) sse_new"
    by (rule sse.feed_pieces) (simp add: sse_new_def)
  then show ?thesis by (simp add: sse_convert_stream_def sse_passthrough_stream_def pull_items relay_pieces)
qed

text \<open>
  C25: a passthrough changes nothing but model names: the client gets as many payloads as the
  upstream sent, in order, and each is the upstream's, or is JSON that differs from the
  upstream's in the \<open>model\<close> of the object, of its \<open>message\<close> and of its \<open>response\<close>, which is now the
  gateway's wherever there was one.
\<close>

theorem passthrough_changes_model:
  assumes "\<forall>d \<in> set (fst (net_payloads es sse_new)). passes js model d"
    and "length (sse_passthrough_stream js model n es) < n"
    and "concat pieces = sent_bytes (sse_passthrough_stream js model n es)"
  shows "list_all2 (\<lambda>d d'. d' = d \<or> (\<exists>v v'. from_text js d = Inr v \<and> d' = to_text js v' \<and> only_model model v v'))
    (fst (net_payloads es sse_new)) (fst (emit_all sse_feed pieces sse_new))"
proof -
  have "sse_passthrough_stream js model n es = relay_items (passthrough_frame js model) passthrough_closing es sse_new ()"
    using assms(2) by (simp add: sse_passthrough_stream_def pull_items)
  from passthrough_payloads [OF assms(1) assms(3) [unfolded this]] show ?thesis
    by (auto simp: list_all2_map2 list_all2_same rewritten_def rewrite_only_model split: sum.splits)
qed

text \<open>A JSON library that knows the chunk of a Chat stream and the frame that comes of it.\<close>

definition sample_upstream_value :: json where
  "sample_upstream_value = fst (chat_chunk_to_value sample_chat_chunk [])"

definition sample_frame :: json where
  "sample_frame = fst (gem_chunk_value sample_json_text id (sample_chat_chunk\<lparr>chk_model := ''g''\<rparr>) gem_stream_new [])"

definition relay_json :: json_text where
  "relay_json =
     \<lparr>to_text = (\<lambda>v. if v = sample_upstream_value then ''{a}'' else ''{b}''),
      from_text = (\<lambda>s. if s = ''{a}'' then Inr sample_upstream_value
                       else if s = ''{b}'' then Inr sample_frame else Inl [])\<rparr>"

definition relay_env :: proto_env where
  "relay_env = \<lparr>pe_json = relay_json, pe_clock = (\<lambda>_. 0), pe_walk = id\<rparr>"

definition relay_net :: "net_event list" where
  "relay_net = [Piece (encode_event ''{a}''), Broken ''reset'']"

lemma relay_words:
  "from_utf8_lossy ''{a}'' = ''{a}''" "from_utf8_lossy ''{b}'' = ''{b}''"
  "trim ''{a}'' = ''{a}''" "trim ''{b}'' = ''{b}''"
  by code_simp+

lemma relay_net_payloads: "net_payloads relay_net sse_new = ([''{a}''], True)"
proof -
  have "sse_feed (encode_event ''{a}'') sse_new = ([''{a}''], sse_new)"
    using read_stream [of "[(''{a}'', None)]"] relay_words(1) by (simp add: encode_typed_event_with_type_def)
  then show ?thesis by (simp add: relay_net_def sse_finish_def sse_new_def)
qed

lemma relay_reads: "read_payload relay_json OpenaiChat ''{a}'' ChatStream = ([(sample_chat_chunk, [])], ChatStream)"
proof -
  have "chat_chunk_ok sample_chat_chunk"
    by (simp add: sample_chat_chunk_def default_chunk_def chat_chunk_ok_def finish_ok_def
        normalize_finish_reason_def normalize_words usage_opt_ok_def extra_ok_def)
  then have "chat_chunk_value_to_ir sample_upstream_value [] = (Inr (Some sample_chat_chunk), [])"
    using chat_chunk_back(2) [of sample_chat_chunk "[]" sample_upstream_value _ "[]"]
    by (simp add: sample_upstream_value_def sample_chat_chunk_def delta_note_def default_delta_def prod_eq_iff)
  then show ?thesis by (simp add: read_payload_def chat_chunk_to_ir_def relay_words relay_json_def)
qed

lemma relay_sample_frame:
  "gem_chunk_value js id (sample_chat_chunk\<lparr>chk_model := ''g''\<rparr>) gem_stream_new [] = (sample_frame, gem_stream_new, [])"
  "jget ''type'' sample_frame = None"
  by (simp_all add: sample_frame_def sample_chat_chunk_def gem_chunk_value_def default_delta_def default_chunk_def
      chunk_choice_def gem_chunk_parts_def gem_stream_new_def Let_def gem_usage_opt_def flush_unfinished_tools_def
      obj_lookup obj_collect_missing_def)

lemma relay_sent: "sent_values relay_env OpenaiChat Gemini ''g'' 0 relay_net = [sample_frame]"
proof -
  have "write_chunk relay_env ''g'' Gemini (sample_chat_chunk, []) (GeminiStream gem_stream_new, 0) =
      ([sample_frame], GeminiStream gem_stream_new, 0)"
    by (simp add: write_chunk_def relay_env_def relay_sample_frame)
  moreover have "end_values relay_env Gemini True (GeminiStream gem_stream_new) = []"
    by (simp add: gem_end_values_def flush_unfinished_tools_def gem_stream_new_def relay_env_def)
  ultimately show ?thesis
    using relay_reads by (simp add: sent_values_def relay_net_payloads any_stream_new_def relay_env_def)
qed


text \<open>A passthrough of one frame with the upstream's model, and a library for it.\<close>

definition pass_value :: "string \<Rightarrow> json" where
  "pass_value m = JObj [(''model'', JStr m)]"

definition pass_json :: json_text where
  "pass_json =
     \<lparr>to_text = (\<lambda>v. if v = pass_value ''up'' then ''{a}'' else ''{b}''),
      from_text = (\<lambda>s. if s = ''{a}'' then Inr (pass_value ''up'') else Inl [])\<rparr>"

lemma pass_rewritten: "rewritten pass_json ''g'' ''{a}'' = ''{b}''" "rewritten_name pass_json ''g'' ''{a}'' = None"
  by (simp_all add: rewritten_def rewritten_name_def pass_json_def relay_words pass_value_def rewrite_model_def
      set_model_in_def set_nested_model_def)

lemma passthrough_changes_model_witness:
  "\<exists>n. list_all2 (\<lambda>d d'. d' = d \<or> (\<exists>v v'. from_text pass_json d = Inr v \<and> d' = to_text pass_json v' \<and> only_model ''g'' v v'))
    [''{a}''] (fst (emit_all sse_feed [sent_bytes (sse_passthrough_stream pass_json ''g'' n relay_net)] sse_new))"
proof -
  have passes: "\<forall>d \<in> set (fst (net_payloads relay_net sse_new)). passes pass_json ''g'' d"
    by (simp del: from_utf8_lossy.simps add: relay_net_payloads passes_def pass_rewritten clean_text_def relay_words)
  let ?items = "relay_items (passthrough_frame pass_json ''g'') passthrough_closing relay_net sse_new ()"
  let ?n = "Suc (length ?items)"
  have len: "length (sse_passthrough_stream pass_json ''g'' ?n relay_net) < ?n"
    by (simp only: sse_passthrough_stream_def pull_items length_take)
  from passthrough_changes_model [OF passes len, of "[sent_bytes (sse_passthrough_stream pass_json ''g'' ?n relay_net)]"]
  show ?thesis by (intro exI [of _ ?n]) (simp add: relay_net_payloads)
qed

end
