(* ===== verification/Idempotency.thy ===== *)
theory Idempotency
  imports Entities
begin

text \<open>
  The idempotency keys of \<open>src/idempotency.rs\<close>. The table is a list of rows; its primary key and
  its \<open>UNIQUE (key_id, idem_key)\<close> are the invariant \<open>idem_table_ok\<close>. Every SQL statement is one
  atomic function of the table and the instant \<open>now()\<close>; \<open>begin\<close> is a machine that takes one
  statement per step, so that requests can interleave between any two of them. A row's id comes
  from \<open>gen_random_uuid\<close> and is an argument; the digest and the JSON library are arguments.
\<close>

section \<open>The key and the fingerprint\<close>

definition idem_char_ok :: "char \<Rightarrow> bool" where
  "idem_char_ok c \<longleftrightarrow>
     (let n = (of_char c :: nat)
      in (48 \<le> n \<and> n \<le> 57) \<or> (65 \<le> n \<and> n \<le> 90) \<or> (97 \<le> n \<and> n \<le> 122) \<or>
         c \<in> {CHR ''.'', CHR ''_'', CHR '':'', CHR ''-'', CHR ''/''})"

definition validate_key :: "string \<Rightarrow> string + string" where
  "validate_key k =
     (let k = trim k
      in if length k < 8 \<or> 128 < length k then Inl ''Idempotency-Key must have 8 to 128 characters''
         else if \<not> list_all idem_char_ok k
         then Inl ''Idempotency-Key may only have letters, digits and . _ : - /''
         else Inr k)"

text \<open>The canonical text: keys sorted, no spaces; numbers and strings as the library writes them.\<close>

fun canon :: "json_text \<Rightarrow> json \<Rightarrow> string" where
  "canon js JNull = ''null''"
| "canon js (JBool b) = (if b then ''true'' else ''false'')"
| "canon js (JNum n) = to_text js (JNum n)"
| "canon js (JStr s) = to_text js (JStr s)"
| "canon js (JArr vs) = ''['' @ join_with '','' (map (canon js) vs) @ '']''"
| "canon js (JObj m) =
     ''{'' @ join_with '',''
       (map (\<lambda>(k, t). to_text js (JStr k) @ '':'' @ t)
         (sort_key fst (map (\<lambda>(k, v). (k, canon js v)) m))) @ ''}''"

definition fingerprint :: "json_text \<Rightarrow> (string \<Rightarrow> string) \<Rightarrow> json \<Rightarrow> string" where
  "fingerprint js sha256_hex body = sha256_hex (canon js body)"

text \<open>The order of the entries of an object does not show.\<close>

lemma sort_key_unique:
  assumes "distinct (map fst xs)" "mset xs = mset ys"
  shows "sort_key fst xs = sort_key fst (ys :: ('k::linorder \<times> 'v) list)"
proof -
  have set: "set xs = set ys" using assms(2) by (rule mset_eq_setD)
  have "mset (map fst xs) = mset (map fst ys)" using assms(2) by (simp add: mset_map)
  then have dist: "distinct (map fst ys)" using assms(1) by (metis mset_eq_imp_distinct_iff)
  have perm: "mset (map fst (sort_key fst xs)) = mset (map fst xs)"
    "mset (map fst (sort_key fst ys)) = mset (map fst ys)" by (simp_all add: mset_map)
  show ?thesis
    using assms(1) dist set mset_eq_imp_distinct_iff [OF perm(1)] mset_eq_imp_distinct_iff [OF perm(2)]
    by (intro map_sorted_distinct_set_unique [where f = fst]) (auto simp: distinct_map)
qed

lemma canon_order:
  assumes "distinct (map fst m)" "mset m = mset m'"
  shows "canon js (JObj m) = canon js (JObj m')"
proof -
  have "distinct (map fst (map (\<lambda>(k, v). (k, canon js v)) m))"
    using assms(1) by (simp add: comp_def split_def)
  moreover have "mset (map (\<lambda>(k, v). (k, canon js v)) m) = mset (map (\<lambda>(k, v). (k, canon js v)) m')"
    using assms(2) by (simp add: mset_map)
  ultimately show ?thesis unfolding canon.simps by (subst sort_key_unique) simp_all
qed

section \<open>The table and its statements\<close>

text \<open>The status column: the code writes three texts and treats every other as failed.\<close>

datatype idem_status = Processing | Completed | Failed

record idem_row =
  ir_id :: uuid
  ir_key_id :: uuid
  ir_idem_key :: string
  ir_fingerprint :: string
  ir_status :: idem_status
  ir_response :: "json option"
  ir_response_status :: "int option"
  ir_task_id :: "uuid option"
  ir_expires_at :: instant

definition idem_ttl_hours :: int where
  "idem_ttl_hours = 24"

definition idem_expiry :: "instant \<Rightarrow> instant" where
  "idem_expiry now = now + seconds (3600 * idem_ttl_hours)"

definition idem_select :: "instant \<Rightarrow> uuid \<Rightarrow> string \<Rightarrow> idem_row list \<Rightarrow> idem_row option" where
  "idem_select now kid idem_key rows =
     find (\<lambda>r. ir_key_id r = kid \<and> ir_idem_key r = idem_key \<and> now < ir_expires_at r) rows"

definition idem_update :: "uuid \<Rightarrow> (idem_row \<Rightarrow> idem_row) \<Rightarrow> idem_row list \<Rightarrow> idem_row list" where
  "idem_update rid f rows = map (\<lambda>r. if ir_id r = rid then f r else r) rows"

definition idem_take_over :: "instant \<Rightarrow> uuid \<Rightarrow> idem_row list \<Rightarrow> idem_row list" where
  "idem_take_over now rid =
     idem_update rid (\<lambda>r. r\<lparr>ir_status := Processing, ir_response := None, ir_response_status := None,
       ir_task_id := None, ir_expires_at := idem_expiry now\<rparr>)"

text \<open>\<open>INSERT \<dots> ON CONFLICT (key_id, idem_key) DO NOTHING RETURNING id\<close>\<close>

definition idem_insert ::
  "instant \<Rightarrow> uuid \<Rightarrow> uuid \<Rightarrow> string \<Rightarrow> string \<Rightarrow> idem_row list \<Rightarrow> uuid option \<times> idem_row list" where
  "idem_insert now new_id kid idem_key fp rows =
     (if list_ex (\<lambda>r. ir_key_id r = kid \<and> ir_idem_key r = idem_key) rows then (None, rows)
      else (Some new_id, rows @
        [\<lparr>ir_id = new_id, ir_key_id = kid, ir_idem_key = idem_key, ir_fingerprint = fp,
          ir_status = Processing, ir_response = None, ir_response_status = None, ir_task_id = None,
          ir_expires_at = idem_expiry now\<rparr>]))"

definition idem_complete ::
  "uuid \<Rightarrow> int \<Rightarrow> json \<Rightarrow> uuid option \<Rightarrow> idem_row list \<Rightarrow> idem_row list" where
  "idem_complete rid status response task_id =
     idem_update rid (\<lambda>r. r\<lparr>ir_status := Completed, ir_response := Some response,
       ir_response_status := Some status, ir_task_id := task_id\<rparr>)"

definition idem_fail :: "uuid \<Rightarrow> idem_row list \<Rightarrow> idem_row list" where
  "idem_fail rid = idem_update rid (\<lambda>r. r\<lparr>ir_status := Failed\<rparr>)"

definition idem_cleanup :: "instant \<Rightarrow> idem_row list \<Rightarrow> idem_row list" where
  "idem_cleanup now = filter (\<lambda>r. now < ir_expires_at r)"

section \<open>begin\<close>

datatype idem_begin_result = Proceed uuid | Replay int json | ConflictWith string

text \<open>Where a call of \<open>begin\<close> stands: before a SELECT, an INSERT, the UPDATE, or done.\<close>

datatype idem_pc = AtSelect nat | AtInsert nat | AtTakeOver uuid | Returned idem_begin_result

record idem_request =
  iq_key_id :: uuid
  iq_idem_key :: string
  iq_fp :: string

definition still_processing :: idem_begin_result where
  "still_processing = ConflictWith ''a request with this idempotency key is being processed''"

definition other_request :: idem_begin_result where
  "other_request = ConflictWith ''the idempotency key was used with other parameters''"

text \<open>What a found row means.\<close>

definition idem_found :: "idem_request \<Rightarrow> idem_row \<Rightarrow> idem_pc" where
  "idem_found q r =
     (if ir_fingerprint r \<noteq> iq_fp q then Returned other_request
      else (case ir_status r of
              Completed \<Rightarrow> Returned (Replay (unwrap_or 200 (ir_response_status r)) (unwrap_or JNull (ir_response r)))
            | Processing \<Rightarrow> Returned still_processing
            | Failed \<Rightarrow> AtTakeOver (ir_id r)))"

text \<open>The argument of \<open>AtSelect\<close> and \<open>AtInsert\<close> is the number of rounds that are left after this one.\<close>

fun begin_step ::
  "instant \<Rightarrow> uuid \<Rightarrow> idem_request \<Rightarrow> idem_pc \<Rightarrow> idem_row list \<Rightarrow> idem_pc \<times> idem_row list" where
  "begin_step now new_id q (AtSelect n) rows =
     (case idem_select now (iq_key_id q) (iq_idem_key q) rows of
        Some r \<Rightarrow> (idem_found q r, rows) | None \<Rightarrow> (AtInsert n, rows))"
| "begin_step now new_id q (AtInsert n) rows =
     (case idem_insert now new_id (iq_key_id q) (iq_idem_key q) (iq_fp q) rows of
        (Some rid, rows') \<Rightarrow> (Returned (Proceed rid), rows')
      | (None, rows') \<Rightarrow> ((case n of 0 \<Rightarrow> Returned still_processing | Suc m \<Rightarrow> AtSelect m), rows'))"
| "begin_step now new_id q (AtTakeOver rid) rows = (Returned (Proceed rid), idem_take_over now rid rows)"
| "begin_step now new_id q (Returned r) rows = (Returned r, rows)"

text \<open>
  The statements of one call, each with its instant, the id drawn for it and the table as the
  other requests have left it.
\<close>

fun begin_calls :: "(instant \<times> uuid \<times> idem_row list) list \<Rightarrow> idem_request \<Rightarrow> idem_pc \<Rightarrow> idem_pc" where
  "begin_calls [] q pc = pc"
| "begin_calls ((now, new_id, rows) # env) q pc = begin_calls env q (fst (begin_step now new_id q pc rows))"

text \<open>A call that nothing interrupts.\<close>

definition idem_begin :: "instant \<Rightarrow> uuid \<Rightarrow> idem_request \<Rightarrow> idem_row list \<Rightarrow> idem_pc \<times> idem_row list" where
  "idem_begin now new_id q rows =
     ((\<lambda>(pc, rows). begin_step now new_id q pc rows) ^^ 4) (AtSelect 1, rows)"

section \<open>Requests that interleave\<close>

text \<open>
  A call is its request, where it stands in \<open>begin\<close>, and whether it has reported its outcome. The
  log notes who completed with what; the drawn ids are kept so that no id is drawn twice.
\<close>

record idem_sys =
  is_rows :: "idem_row list"
  is_calls :: "nat \<Rightarrow> (idem_request \<times> idem_pc \<times> bool) option"
  is_log :: "(idem_request \<times> int \<times> json) list"
  is_drawn :: "uuid set"

definition idem_init :: idem_sys where
  "idem_init = \<lparr>is_rows = [], is_calls = (\<lambda>_. None), is_log = [], is_drawn = {}\<rparr>"

datatype idem_event =
  Call nat idem_request | Statement nat instant uuid | Done nat int json "uuid option"
| GaveUp nat | Sweep instant

fun idem_exec :: "idem_event \<Rightarrow> idem_sys \<Rightarrow> idem_sys" where
  "idem_exec (Call c q) s =
     (if is_calls s c = None then s\<lparr>is_calls := (is_calls s)(c \<mapsto> (q, AtSelect 1, False))\<rparr> else s)"
| "idem_exec (Statement c now new_id) s =
     (case is_calls s c of
        Some (q, pc, told) \<Rightarrow>
          (if new_id \<in> is_drawn s then s
           else (let (pc', rows') = begin_step now new_id q pc (is_rows s)
                 in s\<lparr>is_rows := rows', is_calls := (is_calls s)(c \<mapsto> (q, pc', told)),
                      is_drawn := insert new_id (is_drawn s)\<rparr>))
      | None \<Rightarrow> s)"
| "idem_exec (Done c status response task_id) s =
     (case is_calls s c of
        Some (q, Returned (Proceed rid), False) \<Rightarrow>
          s\<lparr>is_rows := idem_complete rid status response task_id (is_rows s),
            is_calls := (is_calls s)(c \<mapsto> (q, Returned (Proceed rid), True)),
            is_log := is_log s @ [(q, status, response)]\<rparr>
      | _ \<Rightarrow> s)"
| "idem_exec (GaveUp c) s =
     (case is_calls s c of
        Some (q, Returned (Proceed rid), False) \<Rightarrow>
          s\<lparr>is_rows := idem_fail rid (is_rows s),
            is_calls := (is_calls s)(c \<mapsto> (q, Returned (Proceed rid), True))\<rparr>
      | _ \<Rightarrow> s)"
| "idem_exec (Sweep now) s = s\<lparr>is_rows := idem_cleanup now (is_rows s)\<rparr>"

section \<open>Invariants\<close>

definition row_key :: "idem_row \<Rightarrow> uuid \<times> string" where
  "row_key r = (ir_key_id r, ir_idem_key r)"

definition row_of :: "idem_request \<Rightarrow> idem_row \<Rightarrow> bool" where
  "row_of q r \<longleftrightarrow> ir_key_id r = iq_key_id q \<and> ir_idem_key r = iq_idem_key q \<and> ir_fingerprint r = iq_fp q"

lemma row_of_unique: "row_of q r \<Longrightarrow> row_of q' r \<Longrightarrow> q = (q' :: idem_request)"
  by (cases q; cases q') (simp add: row_of_def)

definition idem_table_ok :: "idem_row list \<Rightarrow> bool" where
  "idem_table_ok rows \<longleftrightarrow> distinct (map ir_id rows) \<and> distinct (map row_key rows)"

text \<open>The row that a call is about to take over or has.\<close>

fun pc_row :: "idem_pc \<Rightarrow> uuid option" where
  "pc_row (AtTakeOver rid) = Some rid"
| "pc_row (Returned (Proceed rid)) = Some rid"
| "pc_row _ = None"

definition idem_rows_ok :: "idem_sys \<Rightarrow> bool" where
  "idem_rows_ok s \<longleftrightarrow>
     idem_table_ok (is_rows s) \<and> ir_id ` set (is_rows s) \<subseteq> is_drawn s \<and>
     (\<forall>r \<in> set (is_rows s). ir_status r = Completed \<longrightarrow>
        (\<exists>q st v. (q, st, v) \<in> set (is_log s) \<and> row_of q r \<and>
           ir_response r = Some v \<and> ir_response_status r = Some st))"

definition idem_calls_ok :: "idem_sys \<Rightarrow> bool" where
  "idem_calls_ok s \<longleftrightarrow>
     (\<forall>c q pc told rid. is_calls s c = Some (q, pc, told) \<longrightarrow> pc_row pc = Some rid \<longrightarrow>
        rid \<in> is_drawn s \<and> (\<forall>r \<in> set (is_rows s). ir_id r = rid \<longrightarrow> row_of q r)) \<and>
     (\<forall>c q st v told. is_calls s c = Some (q, Returned (Replay st v), told) \<longrightarrow> (q, st, v) \<in> set (is_log s))"

definition idem_inv :: "idem_sys \<Rightarrow> bool" where
  "idem_inv s \<longleftrightarrow> idem_rows_ok s \<and> idem_calls_ok s"

text \<open>An update that keeps who the row is for.\<close>

definition keeps_row :: "(idem_row \<Rightarrow> idem_row) \<Rightarrow> bool" where
  "keeps_row f \<longleftrightarrow> (\<forall>r. ir_id (f r) = ir_id r \<and> row_key (f r) = row_key r \<and> (\<forall>q. row_of q (f r) = row_of q r))"

lemma update_table_ok: "keeps_row f \<Longrightarrow> idem_table_ok (idem_update rid f rows) = idem_table_ok rows"
  by (simp add: idem_table_ok_def idem_update_def keeps_row_def comp_def if_distrib cong: if_cong)

lemma update_ids: "keeps_row f \<Longrightarrow> ir_id ` set (idem_update rid f rows) = ir_id ` set rows"
proof -
  assume "keeps_row f"
  then have "map ir_id (idem_update rid f rows) = map ir_id rows"
    by (simp add: idem_update_def keeps_row_def)
  then show ?thesis by (metis set_map)
qed

lemma update_row:
  assumes "keeps_row f" "r \<in> set (idem_update rid f rows)"
  obtains r' where "r' \<in> set rows" "ir_id r = ir_id r'" "\<And>q. row_of q r = row_of q r'"
    "r = (if ir_id r' = rid then f r' else r')"
  using assms by (auto simp: idem_update_def keeps_row_def)

lemma update_owner:
  "keeps_row f \<Longrightarrow> r \<in> set (idem_update rid f rows) \<Longrightarrow>
   \<exists>r' \<in> set rows. ir_id r' = ir_id r \<and> (\<forall>q. row_of q r' = row_of q r)"
  by (auto simp: idem_update_def keeps_row_def)

lemma take_over_keeps: "keeps_row (\<lambda>r. r\<lparr>ir_status := Processing, ir_response := None,
    ir_response_status := None, ir_task_id := None, ir_expires_at := e\<rparr>)"
  and complete_keeps: "keeps_row (\<lambda>r. r\<lparr>ir_status := Completed, ir_response := Some v,
    ir_response_status := Some st, ir_task_id := t\<rparr>)"
  and fail_keeps: "keeps_row (\<lambda>r. r\<lparr>ir_status := Failed\<rparr>)"
  by (simp_all add: keeps_row_def row_key_def row_of_def)

text \<open>What an update leaves of the invariant, when completed rows are in the log.\<close>

lemma update_rows_ok:
  assumes s: "idem_rows_ok s" and f: "keeps_row f"
    and log: "set (is_log s) \<subseteq> set log" and drawn: "is_drawn s \<subseteq> drawn"
    and new: "\<And>r. r \<in> set (is_rows s) \<Longrightarrow> ir_id r = rid \<Longrightarrow> ir_status (f r) = Completed \<Longrightarrow>
      \<exists>q st v. (q, st, v) \<in> set log \<and> row_of q r \<and> ir_response (f r) = Some v \<and> ir_response_status (f r) = Some st"
  shows "idem_rows_ok (s\<lparr>is_rows := idem_update rid f (is_rows s), is_calls := calls, is_log := log, is_drawn := drawn\<rparr>)"
proof -
  have "\<exists>q st v. (q, st, v) \<in> set log \<and> row_of q r \<and> ir_response r = Some v \<and> ir_response_status r = Some st"
    if r: "r \<in> set (idem_update rid f (is_rows s))" and completed: "ir_status r = Completed" for r
  proof -
    obtain r' where r': "r' \<in> set (is_rows s)" "\<And>q. row_of q r = row_of q r'"
      "r = (if ir_id r' = rid then f r' else r')"
      using update_row [OF f r] by metis
    show ?thesis
    proof (cases "ir_id r' = rid")
      case True
      with new [OF r'(1)] completed r'(2,3) show ?thesis by simp
    next
      case False
      then have "r \<in> set (is_rows s)" using r'(1,3) by simp
      then obtain q st v where "(q, st, v) \<in> set (is_log s)" "row_of q r" "ir_response r = Some v"
        "ir_response_status r = Some st"
        using s completed unfolding idem_rows_ok_def by blast
      with log show ?thesis by blast
    qed
  qed
  moreover have "idem_table_ok (is_rows s)" "ir_id ` set (is_rows s) \<subseteq> drawn"
    using s drawn by (auto simp: idem_rows_ok_def)
  ultimately show ?thesis
    by (simp add: idem_rows_ok_def update_table_ok [OF f] update_ids [OF f])
qed

text \<open>The calls keep what they know when rows keep their owners and nothing is forgotten.\<close>

lemma calls_ok_step:
  assumes s: "idem_calls_ok s"
    and rows: "\<And>r. r \<in> set (is_rows s') \<Longrightarrow> ir_id r \<in> is_drawn s \<Longrightarrow>
      (\<exists>r' \<in> set (is_rows s). ir_id r' = ir_id r \<and> (\<forall>q. row_of q r' = row_of q r))"
    and log: "set (is_log s) \<subseteq> set (is_log s')" and drawn: "is_drawn s \<subseteq> is_drawn s'"
    and others: "\<And>d. d \<noteq> c \<Longrightarrow> is_calls s' d = is_calls s d"
    and own: "\<And>q pc told rid. is_calls s' c = Some (q, pc, told) \<Longrightarrow> pc_row pc = Some rid \<Longrightarrow>
      rid \<in> is_drawn s' \<and> (\<forall>r \<in> set (is_rows s'). ir_id r = rid \<longrightarrow> row_of q r)"
    and own_replay: "\<And>q st v told. is_calls s' c = Some (q, Returned (Replay st v), told) \<Longrightarrow> (q, st, v) \<in> set (is_log s')"
  shows "idem_calls_ok s'"
  unfolding idem_calls_ok_def
proof (intro conjI allI impI)
  fix d q pc told rid
  assume d: "is_calls s' d = Some (q, pc, told)" and row: "pc_row pc = Some rid"
  have "rid \<in> is_drawn s' \<and> (\<forall>r \<in> set (is_rows s'). ir_id r = rid \<longrightarrow> row_of q r)"
  proof (cases "d = c")
    case True
    with own d row show ?thesis by simp
  next
    case False
    with others d s row have old: "rid \<in> is_drawn s" "\<And>r. r \<in> set (is_rows s) \<Longrightarrow> ir_id r = rid \<Longrightarrow> row_of q r"
      unfolding idem_calls_ok_def by metis+
    have "row_of q r" if r: "r \<in> set (is_rows s')" "ir_id r = rid" for r
    proof -
      obtain r' where "r' \<in> set (is_rows s)" "ir_id r' = ir_id r" "\<forall>q. row_of q r' = row_of q r"
        using rows [OF r(1)] r(2) old(1) by auto
      with old(2) [of r'] r(2) show ?thesis by simp
    qed
    with old(1) drawn show ?thesis by blast
  qed
  then show "rid \<in> is_drawn s'" "\<forall>r \<in> set (is_rows s'). ir_id r = rid \<longrightarrow> row_of q r" by blast+
next
  fix d q st v told
  assume d: "is_calls s' d = Some (q, Returned (Replay st v), told)"
  show "(q, st, v) \<in> set (is_log s')"
  proof (cases "d = c")
    case False
    with others d s log show ?thesis unfolding idem_calls_ok_def by (metis subsetD)
  qed (use own_replay d in simp)
qed

lemma select_row:
  assumes "idem_select now (iq_key_id q) (iq_idem_key q) rows = Some r"
  shows "r \<in> set rows" "ir_fingerprint r = iq_fp q \<Longrightarrow> row_of q r"
  using assms by (auto simp: idem_select_def find_Some_iff row_of_def)

lemma insert_none: "idem_insert now new_id kid k fp rows = (None, rows') \<Longrightarrow> rows' = rows"
  by (auto simp: idem_insert_def split: if_splits)

lemma insert_some:
  assumes "idem_insert now new_id (iq_key_id q) (iq_idem_key q) (iq_fp q) rows = (Some rid, rows')"
  obtains r where "rid = new_id" "rows' = rows @ [r]" "ir_id r = new_id" "row_of q r" "ir_status r = Processing"
    "row_key r \<notin> row_key ` set rows"
  using assms that by (fastforce simp: idem_insert_def row_of_def row_key_def list_ex_iff split: if_splits)

text \<open>One statement of \<open>begin\<close> keeps the invariant.\<close>

lemma statement_inv:
  assumes s: "idem_inv s" and c: "is_calls s c = Some (q, pc, told)" and new: "new_id \<notin> is_drawn s"
    and run: "begin_step now new_id q pc (is_rows s) = (pc', rows')"
  shows "idem_inv (s\<lparr>is_rows := rows', is_calls := (is_calls s)(c \<mapsto> (q, pc', told)),
    is_drawn := insert new_id (is_drawn s)\<rparr>)" (is "idem_inv ?s'")
proof -
  have rows_ok: "idem_rows_ok s" and calls_ok: "idem_calls_ok s" using s by (simp_all add: idem_inv_def)
  have drawn: "\<And>r. r \<in> set (is_rows s) \<Longrightarrow> ir_id r \<in> is_drawn s" using rows_ok by (auto simp: idem_rows_ok_def)
  have same: "idem_rows_ok (s\<lparr>is_rows := is_rows s, is_calls := calls, is_drawn := insert new_id (is_drawn s)\<rparr>)" for calls
    using rows_ok by (auto simp: idem_rows_ok_def)
  have known: "idem_calls_ok s \<Longrightarrow> is_calls s c = Some (q, pc, told) \<Longrightarrow> pc_row pc = Some rid \<Longrightarrow>
      rid \<in> is_drawn s \<and> (\<forall>r \<in> set (is_rows s). ir_id r = rid \<longrightarrow> row_of q r)" for rid
    unfolding idem_calls_ok_def by blast
  show ?thesis
  proof (cases pc)
    case (AtSelect n)
    show ?thesis
    proof (cases "idem_select now (iq_key_id q) (iq_idem_key q) (is_rows s)")
      case None
      with run AtSelect have pc': "pc' = AtInsert n" "rows' = is_rows s" by auto
      have "idem_calls_ok ?s'" by (rule calls_ok_step [OF calls_ok, of _ c]) (auto simp: pc')
      with same show ?thesis by (simp add: idem_inv_def pc')
    next
      case (Some r)
      with run AtSelect have pc': "pc' = idem_found q r" "rows' = is_rows s" by auto
      note r = select_row [OF Some]
      have "idem_calls_ok ?s'"
      proof (rule calls_ok_step [OF calls_ok, of _ c], goal_cases)
        case (5 q' pc0 told' rid)
        then have mine: "q' = q" "ir_fingerprint r = iq_fp q" "rid = ir_id r"
          by (auto simp: pc' idem_found_def still_processing_def other_request_def split: if_splits idem_status.splits)
        have "row_of q r''" if "r'' \<in> set (is_rows s)" "ir_id r'' = ir_id r" for r''
          using that r mine(2) rows_ok
          by (auto simp: idem_rows_ok_def idem_table_ok_def distinct_map dest: inj_onD)
        with drawn [OF r(1)] mine show ?case by (auto simp: pc')
      next
        case (6 q' st v told')
        then have mine: "q' = q" "ir_fingerprint r = iq_fp q" "ir_status r = Completed"
          "st = unwrap_or 200 (ir_response_status r)" "v = unwrap_or JNull (ir_response r)"
          by (auto simp: pc' idem_found_def still_processing_def other_request_def split: if_splits idem_status.splits)
        obtain q0 st0 v0 where log: "(q0, st0, v0) \<in> set (is_log s)" "row_of q0 r" "ir_response r = Some v0"
          "ir_response_status r = Some st0"
          using rows_ok r(1) mine(3) unfolding idem_rows_ok_def by blast
        have "q0 = q" using row_of_unique [OF log(2) r(2) [OF mine(2)]] .
        with log mine show ?case by simp
      qed (auto simp: pc')
      with same show ?thesis by (simp add: idem_inv_def pc')
    qed
  next
    case (AtInsert n)
    obtain res rows1 where ins: "idem_insert now new_id (iq_key_id q) (iq_idem_key q) (iq_fp q) (is_rows s) = (res, rows1)"
      by force
    show ?thesis
    proof (cases res)
      case None
      with ins have "rows1 = is_rows s" using insert_none by blast
      with run AtInsert ins None have pc': "rows' = is_rows s" "pc_row pc' = None" "\<And>st v. pc' \<noteq> Returned (Replay st v)"
        by (auto simp: still_processing_def split: nat.splits)
      have "idem_calls_ok ?s'" by (rule calls_ok_step [OF calls_ok, of _ c]) (auto simp: pc')
      with same show ?thesis by (simp add: idem_inv_def pc')
    next
      case (Some rid)
      obtain r where r: "rid = new_id" "rows1 = is_rows s @ [r]" "ir_id r = new_id" "row_of q r"
        "ir_status r = Processing" "row_key r \<notin> row_key ` set (is_rows s)"
        using insert_some [OF ins [unfolded Some]] by blast
      with run AtInsert ins Some have pc': "pc' = Returned (Proceed new_id)" "rows' = is_rows s @ [r]" by auto
      have "idem_calls_ok ?s'"
        using r(3,4) new by (intro calls_ok_step [OF calls_ok, of _ c]) (auto simp: pc' dest: drawn)
      moreover have "ir_id r \<notin> ir_id ` set (is_rows s)" using r(3) new drawn by auto
      then have "idem_rows_ok ?s'"
        using rows_ok r by (auto simp: idem_rows_ok_def idem_table_ok_def pc')
      ultimately show ?thesis by (simp add: idem_inv_def)
    qed
  next
    case (AtTakeOver rid)
    with run have pc': "pc' = Returned (Proceed rid)" "rows' = idem_take_over now rid (is_rows s)" by auto
    have "idem_rows_ok (s\<lparr>is_rows := rows', is_calls := (is_calls s)(c \<mapsto> (q, pc', told)), is_log := is_log s,
        is_drawn := insert new_id (is_drawn s)\<rparr>)"
      unfolding pc'(2) idem_take_over_def by (rule update_rows_ok [OF rows_ok take_over_keeps]) auto
    then have "idem_rows_ok ?s'" by simp
    moreover have "idem_calls_ok ?s'"
    proof (rule calls_ok_step [OF calls_ok, of _ c], goal_cases)
      case (1 r)
      then show ?case using update_owner [OF take_over_keeps] by (simp add: pc'(2) idem_take_over_def)
    next
      case (5 q' pc0 told' rid')
      then have mine: "q' = q" "rid' = rid" by (auto simp: pc')
      have "pc_row pc = Some rid" by (simp add: AtTakeOver)
      note k = known [OF calls_ok c this]
      have "row_of q r" if "r \<in> set rows'" "ir_id r = rid" for r
        using update_owner [OF take_over_keeps that(1) [unfolded pc'(2) idem_take_over_def]] k that(2) by auto
      with k mine show ?case by simp
    qed (auto simp: pc')
    ultimately show ?thesis by (simp add: idem_inv_def)
  next
    case (Returned r)
    with run have pc': "pc' = pc" "rows' = is_rows s" by auto
    have calls: "(is_calls s)(c \<mapsto> (q, pc, told)) = is_calls s" using c by auto
    have "idem_calls_ok (s\<lparr>is_drawn := insert new_id (is_drawn s)\<rparr>)"
      using calls_ok unfolding idem_calls_ok_def by simp
    with same [of "is_calls s"] show ?thesis by (simp add: idem_inv_def pc' calls)
  qed
qed

lemma idem_inv_init: "idem_inv idem_init"
  by (simp add: idem_inv_def idem_rows_ok_def idem_calls_ok_def idem_init_def idem_table_ok_def)

lemma pc_row_proceed: "pc_row pc = Some rid \<Longrightarrow> pc = AtTakeOver rid \<or> pc = Returned (Proceed rid)"
  by (cases pc rule: pc_row.cases) auto

text \<open>Reporting an outcome keeps the invariant; a completion is noted in the log.\<close>

lemma report_inv:
  assumes s: "idem_inv s" and c: "is_calls s c = Some (q, Returned (Proceed rid), told)" and f: "keeps_row f"
    and log: "set (is_log s) \<subseteq> set log"
    and new: "\<And>r. ir_status (f r) = Completed \<Longrightarrow>
      \<exists>st v. (q, st, v) \<in> set log \<and> ir_response (f r) = Some v \<and> ir_response_status (f r) = Some st"
  shows "idem_inv (s\<lparr>is_rows := idem_update rid f (is_rows s),
    is_calls := (is_calls s)(c \<mapsto> (q, Returned (Proceed rid), True)), is_log := log\<rparr>)" (is "idem_inv ?s'")
proof -
  have rows_ok: "idem_rows_ok s" and calls_ok: "idem_calls_ok s" using s by (simp_all add: idem_inv_def)
  have mine: "rid \<in> is_drawn s" "\<And>r. r \<in> set (is_rows s) \<Longrightarrow> ir_id r = rid \<Longrightarrow> row_of q r"
    using calls_ok c unfolding idem_calls_ok_def by (metis pc_row.simps(2))+
  have "idem_rows_ok (s\<lparr>is_rows := idem_update rid f (is_rows s),
      is_calls := (is_calls s)(c \<mapsto> (q, Returned (Proceed rid), True)), is_log := log, is_drawn := is_drawn s\<rparr>)"
  proof (rule update_rows_ok [OF rows_ok f log subset_refl])
    fix r assume r: "r \<in> set (is_rows s)" "ir_id r = rid" "ir_status (f r) = Completed"
    obtain st v where "(q, st, v) \<in> set log" "ir_response (f r) = Some v" "ir_response_status (f r) = Some st"
      using new [OF r(3)] by blast
    with mine(2) [OF r(1,2)]
    show "\<exists>q st v. (q, st, v) \<in> set log \<and> row_of q r \<and> ir_response (f r) = Some v \<and> ir_response_status (f r) = Some st"
      by blast
  qed
  then have "idem_rows_ok ?s'" by simp
  moreover have "idem_calls_ok ?s'"
  proof (rule calls_ok_step [OF calls_ok, of _ c], goal_cases)
    case (1 r)
    then show ?case using update_owner [OF f] by simp
  next
    case (5 q' pc told' rid')
    then have "q' = q" "rid' = rid" by auto
    moreover have "row_of q r" if "r \<in> set (idem_update rid f (is_rows s))" "ir_id r = rid" for r
      using update_owner [OF f that(1)] mine(2) that(2) by auto
    ultimately show ?case using mine(1) by simp
  qed (use log in auto)
  ultimately show ?thesis by (simp add: idem_inv_def)
qed

lemma cleanup_inv:
  assumes "idem_inv s"
  shows "idem_inv (s\<lparr>is_rows := idem_cleanup now (is_rows s)\<rparr>)"
proof -
  have "idem_table_ok (is_rows s) \<Longrightarrow> idem_table_ok (idem_cleanup now (is_rows s))"
    by (simp add: idem_table_ok_def idem_cleanup_def distinct_map_filter)
  then have "idem_rows_ok (s\<lparr>is_rows := idem_cleanup now (is_rows s)\<rparr>)"
    using assms by (auto simp: idem_inv_def idem_rows_ok_def idem_cleanup_def)
  moreover have "idem_calls_ok (s\<lparr>is_rows := idem_cleanup now (is_rows s)\<rparr>)"
    using assms by (simp add: idem_inv_def idem_calls_ok_def idem_cleanup_def)
  ultimately show ?thesis by (simp add: idem_inv_def)
qed

lemma idem_exec_inv: "idem_inv s \<Longrightarrow> idem_inv (idem_exec e s)"
proof (induction e s rule: idem_exec.induct)
  case (1 c q s)
  then have "idem_rows_ok s" "idem_calls_ok s" by (simp_all add: idem_inv_def)
  then have "idem_inv (s\<lparr>is_calls := (is_calls s)(c \<mapsto> (q, AtSelect 1, False))\<rparr>)"
    by (auto simp: idem_inv_def idem_rows_ok_def intro!: calls_ok_step [of s _ c])
  with 1 show ?case by simp
next
  case (2 c now new_id s)
  then show ?case
    using statement_inv [of s c] by (auto split: option.splits prod.splits)
next
  case (3 c status response task_id s)
  have "idem_inv (s\<lparr>is_rows := idem_complete rid status response task_id (is_rows s),
      is_calls := (is_calls s)(c \<mapsto> (q, Returned (Proceed rid), True)), is_log := is_log s @ [(q, status, response)]\<rparr>)"
    if "is_calls s c = Some (q, Returned (Proceed rid), told)" for q rid told
    unfolding idem_complete_def by (rule report_inv [OF 3 that complete_keeps]) auto
  with 3 show ?case by (auto split: option.splits prod.splits idem_pc.splits idem_begin_result.splits bool.splits)
next
  case (4 c s)
  have "idem_inv (s\<lparr>is_rows := idem_fail rid (is_rows s),
      is_calls := (is_calls s)(c \<mapsto> (q, Returned (Proceed rid), True)), is_log := is_log s\<rparr>)"
    if "is_calls s c = Some (q, Returned (Proceed rid), told)" for q rid told
    unfolding idem_fail_def by (rule report_inv [OF 4 that fail_keeps]) auto
  with 4 show ?case by (auto split: option.splits prod.splits idem_pc.splits idem_begin_result.splits bool.splits)
next
  case (5 now s)
  then show ?case by (simp add: cleanup_inv)
qed

interpretation idem: invariant_machine idem_exec idem_inv
  by unfold_locales (rule idem_exec_inv)

section \<open>Runs without failures\<close>

text \<open>Where no request gives up, no row is failed or taken over, and a row has one runner.\<close>

definition idem_calm :: "idem_sys \<Rightarrow> bool" where
  "idem_calm s \<longleftrightarrow>
     (\<forall>r \<in> set (is_rows s). ir_status r \<noteq> Failed) \<and>
     (\<forall>c q pc told rid. is_calls s c = Some (q, pc, told) \<longrightarrow> pc \<noteq> AtTakeOver rid) \<and>
     (\<forall>c d q q' told told' rid. is_calls s c = Some (q, Returned (Proceed rid), told) \<longrightarrow>
        is_calls s d = Some (q', Returned (Proceed rid), told') \<longrightarrow> c = d)"

fun gives_up :: "idem_event \<Rightarrow> bool" where
  "gives_up (GaveUp c) = True" | "gives_up _ = False"

lemma update_calm:
  assumes "idem_calm s" "is_calls s c = Some (q, Returned (Proceed rid), told)"
    and "\<And>r. ir_status (f r) \<noteq> Failed"
  shows "idem_calm (s\<lparr>is_rows := idem_update rid f (is_rows s),
    is_calls := (is_calls s)(c \<mapsto> (q, Returned (Proceed rid), True)), is_log := log\<rparr>)"
proof -
  have "ir_status r \<noteq> Failed" if "r \<in> set (idem_update rid f (is_rows s))" for r
    using that assms(1,3) by (auto simp: idem_update_def idem_calm_def)
  with assms(1,2) show ?thesis unfolding idem_calm_def by (simp split: if_splits) metis
qed

lemma statement_calm:
  assumes s: "idem_inv s" "idem_calm s" and c: "is_calls s c = Some (q, pc, told)" and new: "new_id \<notin> is_drawn s"
    and run: "begin_step now new_id q pc (is_rows s) = (pc', rows')"
  shows "idem_calm (s\<lparr>is_rows := rows', is_calls := (is_calls s)(c \<mapsto> (q, pc', told)),
    is_drawn := insert new_id (is_drawn s)\<rparr>)"
proof -
  have pc: "pc \<noteq> AtTakeOver rid" for rid using s(2) c unfolding idem_calm_def by metis
  have old: "rid \<in> is_drawn s" if "is_calls s d = Some (q', Returned (Proceed rid), told')" for d q' rid told'
    using s(1) that unfolding idem_inv_def idem_calls_ok_def by (metis pc_row.simps(2))
  have same_row: "rows' = is_rows s \<and> (\<forall>rid. pc' \<noteq> AtTakeOver rid) \<and> (\<forall>rid. pc' = Returned (Proceed rid) \<longrightarrow> pc' = pc) \<or>
      (\<exists>r. rows' = is_rows s @ [r] \<and> ir_status r = Processing \<and> pc' = Returned (Proceed new_id))"
  proof (cases pc)
    case (AtSelect n)
    show ?thesis
    proof (cases "idem_select now (iq_key_id q) (iq_idem_key q) (is_rows s)")
      case (Some r)
      with s(2) have "ir_status r \<noteq> Failed" using select_row(1) [OF Some] by (simp add: idem_calm_def)
      with run AtSelect Some show ?thesis
        by (auto simp: idem_found_def other_request_def still_processing_def split: if_splits idem_status.splits)
    qed (use run AtSelect in auto)
  next
    case (AtInsert n)
    with run show ?thesis
      by (auto simp: idem_insert_def still_processing_def split: if_splits nat.splits)
  qed (use run pc in auto)
  then show ?thesis
  proof
    assume "rows' = is_rows s \<and> (\<forall>rid. pc' \<noteq> AtTakeOver rid) \<and> (\<forall>rid. pc' = Returned (Proceed rid) \<longrightarrow> pc' = pc)"
    with s(2) c show ?thesis unfolding idem_calm_def by (simp split: if_splits) metis
  next
    assume "\<exists>r. rows' = is_rows s @ [r] \<and> ir_status r = Processing \<and> pc' = Returned (Proceed new_id)"
    then obtain r where r: "rows' = is_rows s @ [r]" "ir_status r = Processing" "pc' = Returned (Proceed new_id)" by blast
    have "is_calls s d \<noteq> Some (q', Returned (Proceed new_id), told')" for d q' told' using old new by blast
    with s(2) r show ?thesis unfolding idem_calm_def by (simp split: if_splits)
  qed
qed

lemma idem_exec_calm:
  "idem_inv s \<Longrightarrow> idem_calm s \<Longrightarrow> \<not> gives_up e \<Longrightarrow> idem_calm (idem_exec e s)"
proof (induction e s rule: idem_exec.induct)
  case (1 c q s)
  then show ?case unfolding idem_calm_def by (simp split: if_splits)
next
  case (2 c now new_id s)
  then show ?case using statement_calm [of s c] by (auto split: option.splits prod.splits)
next
  case (3 c status response task_id s)
  have "idem_calm (s\<lparr>is_rows := idem_complete rid status response task_id (is_rows s),
      is_calls := (is_calls s)(c \<mapsto> (q, Returned (Proceed rid), True)), is_log := is_log s @ [(q, status, response)]\<rparr>)"
    if "is_calls s c = Some (q, Returned (Proceed rid), told)" for q rid told
    unfolding idem_complete_def by (rule update_calm [OF 3(2) that]) simp
  with 3 show ?case by (auto split: option.splits prod.splits idem_pc.splits idem_begin_result.splits bool.splits)
next
  case (5 now s)
  then show ?case by (simp add: idem_calm_def idem_cleanup_def)
qed simp

lemma idem_run_calm:
  "idem_inv s \<Longrightarrow> idem_calm s \<Longrightarrow> list_all (\<lambda>e. \<not> gives_up e) es \<Longrightarrow> idem_calm (fold idem_exec es s)"
  by (induction es arbitrary: s) (auto simp: idem_exec_inv idem_exec_calm)

lemma idem_calm_init: "idem_calm idem_init"
  by (simp add: idem_calm_def idem_init_def)

section \<open>The length of a call\<close>

fun pc_rank :: "idem_pc \<Rightarrow> nat" where
  "pc_rank (AtSelect n) = 2 * n + 2"
| "pc_rank (AtInsert n) = 2 * n + 1"
| "pc_rank (AtTakeOver rid) = 1"
| "pc_rank (Returned r) = 0"

lemma pc_rank_0: "pc_rank pc = 0 \<Longrightarrow> \<exists>r. pc = Returned r"
  by (cases pc) auto

lemma begin_step_rank: "pc_rank (fst (begin_step now new_id q pc rows)) \<le> pc_rank pc - 1"
  by (cases pc) (auto simp: idem_found_def split: option.splits prod.splits nat.splits idem_status.splits)

lemma begin_calls_rank: "pc_rank (begin_calls env q pc) \<le> pc_rank pc - length env"
proof (induction env arbitrary: pc)
  case (Cons e env)
  obtain now new_id rows where e: "e = (now, new_id, rows)" by (metis prod_cases3)
  from Cons [of "fst (begin_step now new_id q pc rows)"] begin_step_rank [of now new_id q pc rows]
  show ?case by (simp add: e)
qed simp

section \<open>What a call finds, and two races\<close>

text \<open>An uninterrupted call.\<close>

lemma idem_begin_decides:
  "idem_begin now new_id q rows =
     (case idem_select now (iq_key_id q) (iq_idem_key q) rows of
        Some r \<Rightarrow>
          (case idem_found q r of
             AtTakeOver rid \<Rightarrow> (Returned (Proceed rid), idem_take_over now rid rows) | pc \<Rightarrow> (pc, rows))
      | None \<Rightarrow>
          (case idem_insert now new_id (iq_key_id q) (iq_idem_key q) (iq_fp q) rows of
             (Some rid, rows') \<Rightarrow> (Returned (Proceed rid), rows') | (None, _) \<Rightarrow> (Returned still_processing, rows)))"
proof -
  obtain res rows1 where ins: "idem_insert now new_id (iq_key_id q) (iq_idem_key q) (iq_fp q) rows = (res, rows1)"
    by force
  have "rows1 = rows" if "res = None" using insert_none ins that by blast
  with ins show ?thesis
    by (cases res) (auto simp: idem_begin_def eval_nat_numeral idem_found_def split: option.splits idem_status.splits)
qed

text \<open>
  A row that has expired and is not yet swept is not found, but still in the way of the insert: the
  call is told that the request is being processed.
\<close>

lemma expired_row_blocks:
  assumes "idem_select now (iq_key_id q) (iq_idem_key q) rows = None"
    and "r \<in> set rows" "ir_key_id r = iq_key_id q" "ir_idem_key r = iq_idem_key q"
  shows "fst (idem_begin now new_id q rows) = Returned still_processing"
  using assms by (auto simp: idem_begin_decides idem_insert_def list_ex_iff)

definition sample_idem_request :: idem_request where
  "sample_idem_request = \<lparr>iq_key_id = 1, iq_idem_key = ''order-1'', iq_fp = ''f''\<rparr>"

lemmas idem_eval = idem_init_def sample_idem_request_def idem_select_def idem_found_def idem_insert_def
  idem_update_def idem_take_over_def idem_complete_def idem_fail_def idem_expiry_def idem_ttl_hours_def
  seconds_def still_processing_def other_request_def

text \<open>
  The UPDATE that takes over a failed row does not ask whether the row is still failed: two
  requests that have both read it run both.
\<close>

lemma takeover_race:
  "\<exists>es c d q rid.
     is_calls (fold idem_exec es idem_init) c = Some (q, Returned (Proceed rid), False) \<and>
     is_calls (fold idem_exec es idem_init) d = Some (q, Returned (Proceed rid), False) \<and> c \<noteq> d"
  by (rule exI [of _ "[Call 0 sample_idem_request, Statement 0 0 1, Statement 0 0 2, GaveUp 0,
      Call 1 sample_idem_request, Call 2 sample_idem_request, Statement 1 1 3, Statement 2 1 4,
      Statement 1 2 5, Statement 2 2 6]"], rule exI [of _ 1], rule exI [of _ 2],
      rule exI [of _ sample_idem_request], rule exI [of _ 2])
    (simp add: idem_eval)

section \<open>Properties\<close>

text \<open>
  C17: however requests interleave, fail, expire and are swept, a request that is answered by a
  replay gets the status and response with which a request of the same key, idempotency key and
  parameters completed.
\<close>

theorem replay_is_a_completion:
  assumes "is_calls (fold idem_exec es idem_init) c = Some (q, Returned (Replay status response), told)"
  shows "(q, status, response) \<in> set (is_log (fold idem_exec es idem_init))"
proof -
  have "idem_inv (fold idem_exec es idem_init)" by (rule idem.inv_fold [OF idem_inv_init])
  with assms show ?thesis unfolding idem_inv_def idem_calls_ok_def by blast
qed


text \<open>
  C19: a call of \<open>begin\<close> ends after at most four statements, whatever the other requests do to the table
  between any two of them.
\<close>

theorem idem_begin_returns:
  assumes "4 \<le> length env"
  shows "\<exists>r. begin_calls env q (AtSelect 1) = Returned r"
proof -
  have "pc_rank (begin_calls env q (AtSelect 1)) = 0" using begin_calls_rank [of env q "AtSelect 1"] assms by simp
  then show ?thesis by (rule pc_rank_0)
qed

lemma idem_begin_returns_witness:
  "\<exists>r. begin_calls (replicate 4 (0, 1, [])) sample_idem_request (AtSelect 1) = Returned r"
  by (rule idem_begin_returns) simp

text \<open>A request, its completion, and the same request again.\<close>

definition sample_idem_events :: "idem_event list" where
  "sample_idem_events =
     [Call 0 sample_idem_request, Statement 0 0 1, Statement 0 0 2, Done 0 200 JNull None,
      Call 1 sample_idem_request, Statement 1 5 3]"

lemma replay_is_a_completion_witness:
  "(sample_idem_request, 200, JNull) \<in> set (is_log (fold idem_exec sample_idem_events idem_init))"
  by (rule replay_is_a_completion [where c = 1 and told = False]) (simp add: sample_idem_events_def idem_eval)

text \<open>Two requests with one key, the second after the first one's row has expired and been swept.\<close>

definition sample_later_events :: "idem_event list" where
  "sample_later_events =
     [Call 0 sample_idem_request, Statement 0 0 1, Statement 0 0 2, Sweep (idem_expiry 0),
      Call 1 sample_idem_request, Statement 1 0 3, Statement 1 0 4]"


end
