(* ===== verification/Errors.thy ===== *)
theory Errors
  imports Ir
begin

text \<open>
  The translation of error bodies, \<open>src/protocol/errors.rs\<close>: an upstream's error JSON to
  \<open>IrError\<close> and that to the error shape of the protocol the client speaks.
\<close>

record ir_error =
  err_status :: u16
  err_message :: string
  err_type :: "string option"
  err_code :: "string option"

text \<open>\<open>to_string\<close> of an integer: its decimal digits, with a sign.\<close>

fun nat_to_string :: "nat \<Rightarrow> string" where
  "nat_to_string n =
     (if n < 10 then [char_of (48 + n)] else nat_to_string (n div 10) @ [char_of (48 + n mod 10)])"

declare nat_to_string.simps [simp del]

definition i64_to_string :: "i64 \<Rightarrow> string" where
  "i64_to_string n =
     (if sint n < 0 then CHR ''-'' # nat_to_string (nat (- sint n)) else nat_to_string (nat (sint n)))"

definition fallback_body_message :: "json_text \<Rightarrow> json \<Rightarrow> string" where
  "fallback_body_message js body =
     (case body of JStr s \<Rightarrow> s | JNull \<Rightarrow> [] | _ \<Rightarrow> to_text js body)"

definition error_to_ir :: "json_text \<Rightarrow> protocol \<Rightarrow> u16 \<Rightarrow> json \<Rightarrow> ir_error" where
  "error_to_ir js p status body =
     (let e = jidx body ''error''
      in case p of
           Gemini \<Rightarrow>
             \<lparr>err_status = status,
              err_message =
                unwrap_or (fallback_body_message js body) (as_str (jidx e ''message'')),
              err_type = as_str (jidx e ''status''),
              err_code = map_option i64_to_string (as_i64 (jidx e ''code''))\<rparr>
         | Anthropic \<Rightarrow>
             \<lparr>err_status = status,
              err_message =
                unwrap_or (fallback_body_message js body) (as_str (jidx e ''message'')),
              err_type = as_str (jidx e ''type''),
              err_code = None\<rparr>
         | _ \<Rightarrow>
             \<lparr>err_status = status,
              err_message =
                unwrap_or (unwrap_or [] (as_str body)) (as_str (jidx e ''message'')),
              err_type = as_str (jidx e ''type''),
              err_code =
                or_else (as_str (jidx e ''code''))
                  (map_option i64_to_string (as_i64 (jidx e ''code'')))\<rparr>)"

definition status_name :: "string \<Rightarrow> bool" where
  "status_name t \<longleftrightarrow>
     t \<noteq> [] \<and>
     list_all (\<lambda>c. (65 \<le> (of_char c :: nat) \<and> (of_char c :: nat) \<le> 90) \<or> c = CHR ''_'') t"

definition http_status_name :: "u16 \<Rightarrow> string" where
  "http_status_name s =
     (if s = 400 then ''INVALID_ARGUMENT''
      else if s = 401 then ''UNAUTHENTICATED''
      else if s = 403 then ''PERMISSION_DENIED''
      else if s = 404 then ''NOT_FOUND''
      else if s = 408 \<or> s = 504 then ''DEADLINE_EXCEEDED''
      else if s = 409 then ''ABORTED''
      else if s = 413 \<or> s = 429 then ''RESOURCE_EXHAUSTED''
      else if s = 499 then ''CANCELLED''
      else if s = 501 then ''UNIMPLEMENTED''
      else if s = 503 \<or> s = 529 then ''UNAVAILABLE''
      else if 500 \<le> s then ''INTERNAL''
      else ''UNKNOWN'')"

definition gemini_status :: "ir_error \<Rightarrow> string" where
  "gemini_status e =
     (case err_type e of
        Some t \<Rightarrow> if status_name t then t else http_status_name (err_status e)
      | None \<Rightarrow> http_status_name (err_status e))"

definition json_opt_str :: "string option \<Rightarrow> json" where
  "json_opt_str s = (case s of None \<Rightarrow> JNull | Some x \<Rightarrow> JStr x)"

definition error_from_ir :: "protocol \<Rightarrow> ir_error \<Rightarrow> json" where
  "error_from_ir p e =
     (case p of
        Anthropic \<Rightarrow>
          json_obj
            [(''type'', JStr ''error''),
             (''error'', json_obj
                [(''type'', JStr (unwrap_or ''api_error'' (err_type e))),
                 (''message'', JStr (err_message e))])]
      | Gemini \<Rightarrow>
          json_obj
            [(''error'', json_obj
                [(''code'', JNum (PosInt (ucast (err_status e)))), (''message'', JStr (err_message e)),
                 (''status'', JStr (gemini_status e))])]
      | _ \<Rightarrow>
          json_obj
            [(''error'', json_obj
                [(''message'', JStr (err_message e)),
                 (''type'', JStr (unwrap_or ''server_error'' (err_type e))),
                 (''code'', json_opt_str (err_code e))])])"

section \<open>Facts\<close>

lemma error_message_back: "err_message (error_to_ir js p s (error_from_ir p e)) = err_message e"
  by (cases p) (simp_all add: error_to_ir_def error_from_ir_def jidx_def)

text \<open>Every translation along a chain of protocols keeps the message.\<close>

definition retranslate :: "json_text \<Rightarrow> protocol \<Rightarrow> ir_error \<Rightarrow> ir_error" where
  "retranslate js p e = error_to_ir js p (err_status e) (error_from_ir p e)"

lemma retranslate_keeps:
  "err_message (retranslate js p e) = err_message e" "err_status (retranslate js p e) = err_status e"
proof -
  show "err_message (retranslate js p e) = err_message e"
    by (simp add: retranslate_def error_message_back)
  show "err_status (retranslate js p e) = err_status e"
    by (cases p) (simp_all add: retranslate_def error_to_ir_def Let_def)
qed

lemma retranslate_chain:
  "err_message (fold (retranslate js) ps e) = err_message e \<and>
   err_status (fold (retranslate js) ps e) = err_status e"
  by (induction ps arbitrary: e) (simp_all add: retranslate_keeps)

lemma if_both: "P a \<Longrightarrow> P b \<Longrightarrow> P (if c then a else b)"
  by simp

lemma http_status_name_ok: "status_name (http_status_name s)"
  unfolding http_status_name_def by (intro if_both [of status_name]) (simp_all add: status_name_def)

lemma gemini_status_ok: "status_name (gemini_status e)"
  by (auto simp: gemini_status_def http_status_name_ok split: option.splits)

lemma openai_error_back:
  assumes "p = OpenaiChat \<or> p = OpenaiResponses" "err_type e \<noteq> None"
  shows "error_to_ir js p (err_status e) (error_from_ir p e) = e"
proof -
  have "or_else (as_str (json_opt_str c)) (map_option i64_to_string (as_i64 (json_opt_str c))) = c" for c
    by (cases c) (simp_all add: json_opt_str_def)
  with assms show ?thesis
    by (cases e) (auto simp: error_to_ir_def error_from_ir_def jidx_def)
qed

section \<open>Properties\<close>

text \<open>
  C40: however often an error body is written in the form of some protocol and read again, the
  message of the upstream and the status come through unchanged.
\<close>

theorem error_message_survives:
  "err_message (fold (retranslate js) ps e) = err_message e \<and>
   err_status (fold (retranslate js) ps e) = err_status e"
  by (rule retranslate_chain)

text \<open>
  The status of a Gemini error is always of the form of a gRPC status (capitals and
  underscores, not empty), also when the error's own type is of another protocol's vocabulary.
\<close>

theorem gemini_status_legal:
  "as_str (jidx (jidx (error_from_ir Gemini e) ''error'') ''status'') = Some (gemini_status e) \<and>
   status_name (gemini_status e)"
  by (simp add: error_from_ir_def jidx_def gemini_status_ok)

end
