(* ===== verification/Billing.thy ===== *)
theory Billing
  imports Entities
begin

text \<open>
  Exchange rates and pricing, \<open>src/billing/fx.rs\<close> and \<open>src/billing/mod.rs\<close>. Amounts are of a type
  \<open>'d\<close> with the operators of \<open>rust_decimal\<close>, which come as the argument \<open>dec\<close> (they panic when
  a result leaves their range; the model is of the runs in which none does).
\<close>

record 'd decimal_ops =
  dec_zero :: 'd
  dec_one :: 'd
  dec_of_int :: "int \<Rightarrow> 'd"
  dec_add :: "'d \<Rightarrow> 'd \<Rightarrow> 'd"
  dec_mul :: "'d \<Rightarrow> 'd \<Rightarrow> 'd"
  dec_div :: "'d \<Rightarrow> 'd \<Rightarrow> 'd"
  dec_less :: "'d \<Rightarrow> 'd \<Rightarrow> bool"
  dec_trunc :: "'d \<Rightarrow> 'd"
  dec_fract :: "'d \<Rightarrow> 'd"
  dec_of_string :: "string \<Rightarrow> 'd option"

section \<open>Exchange rates\<close>

record 'd fx_rate_row =
  fxr_from :: string
  fxr_to :: string
  fxr_rate :: 'd
  fxr_source :: string
  fxr_fetched_at :: "instant option"

record 'd fx_rate =
  fx_rate_of :: 'd
  fx_source :: string
  fx_at :: "instant option"
  fx_inverse :: bool

type_synonym 'd fx_map = "string \<times> string \<Rightarrow> 'd fx_rate option"

definition fx_allowed :: "instant \<Rightarrow> u64 \<Rightarrow> 'd fx_rate_row \<Rightarrow> bool" where
  "fx_allowed now stale_max row \<longleftrightarrow>
     (if fxr_source row = ''manual'' then True
      else if fxr_source row = ''auto'' then
        (case fxr_fetched_at row of
           Some ts \<Rightarrow> num_minutes (now - ts) \<le> sint stale_max
         | None \<Rightarrow> False)
      else False)"

definition fx_direct_step ::
  "instant \<Rightarrow> u64 \<Rightarrow> 'd fx_rate_row \<Rightarrow> 'd fx_map \<Rightarrow> 'd fx_map" where
  "fx_direct_step now stale_max row direct =
     (if \<not> fx_allowed now stale_max row then direct
      else
        (let pair = (fxr_from row, fxr_to row);
             rate = \<lparr>fx_rate_of = fxr_rate row, fx_source = fxr_source row,
                     fx_at = fxr_fetched_at row, fx_inverse = False\<rparr>
         in (case direct pair of
               Some existing \<Rightarrow>
                 if fxr_source row = ''manual'' \<and> fx_source existing \<noteq> ''manual''
                 then direct(pair \<mapsto> rate) else direct
             | None \<Rightarrow> direct(pair \<mapsto> rate))))"

text \<open>
  The second loop adds the inverse of every direct rate whose reverse pair has none. No two
  iterations write the same pair, so the order of the \<open>HashMap\<close> does not show.
\<close>

definition build_fx_set ::
  "'d decimal_ops \<Rightarrow> 'd fx_rate_row list \<Rightarrow> instant \<Rightarrow> u64 \<Rightarrow> 'd fx_map" where
  "build_fx_set dec rows now stale_max =
     (let direct = fold (fx_direct_step now stale_max) rows (\<lambda>_. None)
      in (\<lambda>(a, b).
            case direct (a, b) of
              Some r \<Rightarrow> Some r
            | None \<Rightarrow>
                (case direct (b, a) of
                   Some v \<Rightarrow>
                     if fx_rate_of v = dec_zero dec then None
                     else Some \<lparr>fx_rate_of = dec_div dec (dec_one dec) (fx_rate_of v),
                                fx_source = fx_source v, fx_at = fx_at v, fx_inverse = True\<rparr>
                 | None \<Rightarrow> None)))"

definition fx_convert ::
  "'d decimal_ops \<Rightarrow> 'd fx_map \<Rightarrow> string \<Rightarrow> string \<Rightarrow> 'd \<Rightarrow> ('d \<times> 'd fx_rate option) option" where
  "fx_convert dec fx a b amount =
     (if a = b then Some (amount, None)
      else (case fx (a, b) of
              Some rate \<Rightarrow> Some (dec_mul dec amount (fx_rate_of rate), Some rate)
            | None \<Rightarrow>
                (case dec_of_string dec ''6.73'' of
                   None \<Rightarrow> None
                 | Some d \<Rightarrow>
                     let builtin = (\<lambda>rate inv.
                           Some (dec_mul dec amount rate,
                                 Some \<lparr>fx_rate_of = rate, fx_source = ''builtin'', fx_at = None,
                                       fx_inverse = inv\<rparr>))
                     in if a = ''USD'' \<and> b = ''CNY'' then builtin d False
                        else if a = ''CNY'' \<and> b = ''USD'' then builtin (dec_div dec (dec_one dec) d) True
                        else None)))"

section \<open>Price rules\<close>

record 'd segment =
  seg_name :: "string option"
  seg_price :: 'd
  seg_weekdays :: "string list option"
  seg_windows :: "(string \<times> string) list option"
  seg_min :: "int option"
  seg_max :: "int option"

record 'd price_rule =
  rule_id :: uuid
  rule_unit :: string
  rule_currency :: string
  rule_base_price :: 'd
  rule_dimension_key :: string
  rule_segments :: "json option"
  rule_context_basis :: string
  rule_effective_from :: "instant option"
  rule_effective_to :: "instant option"
  rule_priority :: int
  rule_sort_order :: int
  rule_enabled :: bool
  rule_created_at :: instant

record 'd pricing_input =
  pi_at :: instant
  pi_prompt_tokens :: "int option"
  pi_completion_tokens :: "int option"
  pi_cache_write_tokens :: "int option"
  pi_cache_read_tokens :: "int option"
  pi_images :: "int option"
  pi_image_size :: "string option"
  pi_video_seconds :: "'d option"
  pi_video_resolution :: "string option"
  pi_video_task_type :: "string option"

record 'd priced_line =
  line_unit :: string
  line_currency :: string
  line_quantity :: 'd
  line_price :: 'd
  line_cost :: 'd
  line_rule_id :: uuid
  line_segment :: "string option"

text \<open>
  What pricing takes from libraries: \<open>serde_json\<close>'s printer, the deserialiser of the segments
  column, and the weekday (three lower-case letters) and minute of the day of an instant in a
  time zone given by name (UTC when the name is not one).
\<close>

record 'd pricing_lib =
  pl_json :: json_text
  pl_segments :: "json \<Rightarrow> 'd segment list option"
  pl_local :: "string \<Rightarrow> instant \<Rightarrow> string \<times> int"

definition normalize_dimension_key :: "json_text \<Rightarrow> json option \<Rightarrow> string" where
  "normalize_dimension_key js dims =
     (case dims of
        None \<Rightarrow> []
      | Some JNull \<Rightarrow> []
      | Some (JObj []) \<Rightarrow> []
      | Some other \<Rightarrow> to_text js other)"

definition input_dimension_key :: "json_text \<Rightarrow> string \<Rightarrow> 'd pricing_input \<Rightarrow> string" where
  "input_dimension_key js unit input =
     (if unit = ''image'' then
        (case pi_image_size input of
           Some sz \<Rightarrow> normalize_dimension_key js (Some (json_obj [(''image_size'', JStr sz)]))
         | None \<Rightarrow> [])
      else if unit = ''video_second'' then
        (let m = obj_insert_opt ''task_type'' (map_option JStr (pi_video_task_type input))
                   (obj_insert_opt ''resolution'' (map_option JStr (pi_video_resolution input)) [])
         in if m = [] then [] else normalize_dimension_key js (Some (JObj m)))
      else [])"

definition positive_measure :: "'d decimal_ops \<Rightarrow> int option \<Rightarrow> 'd option" where
  "positive_measure dec v =
     (case v of None \<Rightarrow> None | Some n \<Rightarrow> if 0 < n then Some (dec_of_int dec n) else None)"

definition ceil_seconds :: "'d decimal_ops \<Rightarrow> 'd \<Rightarrow> 'd" where
  "ceil_seconds dec s0 =
     (let s = (if dec_less dec s0 (dec_zero dec) then dec_zero dec else s0);
          c = dec_trunc dec s;
          c' = (if dec_less dec (dec_zero dec) (dec_fract dec s) then dec_add dec c (dec_one dec) else c)
      in if dec_less dec c' (dec_one dec) then dec_one dec else c')"

definition unit_quantity :: "'d decimal_ops \<Rightarrow> string \<Rightarrow> 'd pricing_input \<Rightarrow> 'd option" where
  "unit_quantity dec unit input =
     (if unit = ''token_in'' then positive_measure dec (pi_prompt_tokens input)
      else if unit = ''token_out'' then positive_measure dec (pi_completion_tokens input)
      else if unit = ''token_cache_write'' then positive_measure dec (pi_cache_write_tokens input)
      else if unit = ''token_cache_read'' then positive_measure dec (pi_cache_read_tokens input)
      else if unit = ''image'' then positive_measure dec (pi_images input)
      else if unit = ''video_second'' then map_option (ceil_seconds dec) (pi_video_seconds input)
      else None)"

definition unit_cost_divisor :: "'d decimal_ops \<Rightarrow> string \<Rightarrow> 'd" where
  "unit_cost_divisor dec unit =
     (if unit \<in> {''token_in'', ''token_out'', ''token_cache_write'', ''token_cache_read''}
      then dec_of_int dec 1000000 else dec_one dec)"

definition in_effect :: "'d price_rule \<Rightarrow> instant \<Rightarrow> bool" where
  "in_effect rule at \<longleftrightarrow>
     (case rule_effective_from rule of None \<Rightarrow> True | Some f \<Rightarrow> f \<le> at) \<and>
     (case rule_effective_to rule of None \<Rightarrow> True | Some t \<Rightarrow> at \<le> t)"

definition better_rule :: "'d price_rule \<Rightarrow> 'd price_rule \<Rightarrow> bool" where
  "better_rule a b =
     (if rule_priority a \<noteq> rule_priority b then rule_priority b < rule_priority a
      else if rule_sort_order a \<noteq> rule_sort_order b then rule_sort_order a < rule_sort_order b
      else if rule_created_at a \<noteq> rule_created_at b then rule_created_at a < rule_created_at b
      else rule_id a < rule_id b)"

section \<open>Segments\<close>

text \<open>\<open>str::parse::<i32>\<close>: an optional sign and at least one digit, in range.\<close>

definition digits_value :: "string \<Rightarrow> nat option" where
  "digits_value s =
     (if s \<noteq> [] \<and> list_all (\<lambda>c. 48 \<le> (of_char c :: nat) \<and> (of_char c :: nat) \<le> 57) s
      then Some (fold (\<lambda>c n. 10 * n + (of_char c - 48)) s 0) else None)"

definition parse_i32 :: "string \<Rightarrow> 32 word option" where
  "parse_i32 s =
     (let in_range = (\<lambda>v. if - (2 ^ 31) \<le> v \<and> v < 2 ^ 31 then Some (of_int v) else None)
      in (case s of
            c # cs \<Rightarrow>
              if c = CHR ''-'' then Option.bind (digits_value cs) (\<lambda>n. in_range (- int n))
              else if c = CHR ''+'' then Option.bind (digits_value cs) (\<lambda>n. in_range (int n))
              else Option.bind (digits_value s) (\<lambda>n. in_range (int n))
          | [] \<Rightarrow> None))"

text \<open>\<open>h * 60 + min\<close> wraps in a release build.\<close>

definition parse_hhmm :: "string \<Rightarrow> int option" where
  "parse_hhmm s =
     (case split_at_char (CHR '':'') s of
        None \<Rightarrow> None
      | Some (h, rest) \<Rightarrow>
          (let m = (case split_at_char (CHR '':'') rest of None \<Rightarrow> rest | Some (m, _) \<Rightarrow> m)
           in Option.bind (parse_i32 (trim h)) (\<lambda>hh.
                map_option (\<lambda>mm. sint (hh * 60 + mm)) (parse_i32 (trim m)))))"

definition window_hit :: "string \<Rightarrow> string \<Rightarrow> int \<Rightarrow> bool" where
  "window_hit from to minutes =
     (case (parse_hhmm from, parse_hhmm to) of
        (Some s, Some e) \<Rightarrow>
          if s \<le> e then s \<le> minutes \<and> minutes \<le> e else s \<le> minutes \<or> minutes < e
      | _ \<Rightarrow> False)"

definition i64_saturate :: "int \<Rightarrow> int" where
  "i64_saturate n = max (- (2 ^ 63)) (min n (2 ^ 63 - 1))"

definition context_value :: "'d price_rule \<Rightarrow> 'd pricing_input \<Rightarrow> int" where
  "context_value rule input =
     (if rule_context_basis rule = ''total_tokens''
      then i64_saturate
             (unwrap_or 0 (pi_prompt_tokens input) + unwrap_or 0 (pi_completion_tokens input))
      else unwrap_or 0 (pi_prompt_tokens input))"

definition segment_matches :: "'d segment \<Rightarrow> int \<Rightarrow> string \<Rightarrow> int \<Rightarrow> bool" where
  "segment_matches seg ctx weekday minutes \<longleftrightarrow>
     (case seg_weekdays seg of
        None \<Rightarrow> True
      | Some wds \<Rightarrow>
          wds = [] \<or> list_ex (\<lambda>w. to_ascii_lowercase w = to_ascii_lowercase weekday) wds) \<and>
     (case seg_windows seg of
        None \<Rightarrow> True
      | Some ws \<Rightarrow> ws = [] \<or> list_ex (\<lambda>(s, e). window_hit s e minutes) ws) \<and>
     (case seg_min seg of None \<Rightarrow> True | Some lo \<Rightarrow> lo \<le> ctx) \<and>
     (case seg_max seg of None \<Rightarrow> True | Some hi \<Rightarrow> ctx \<le> hi)"

definition match_segment ::
  "'d pricing_lib \<Rightarrow> 'd price_rule \<Rightarrow> 'd pricing_input \<Rightarrow> string \<Rightarrow> int \<Rightarrow>
   ('d \<times> string option) option" where
  "match_segment lib rule input weekday minutes =
     Option.bind (Option.bind (rule_segments rule) (pl_segments lib)) (\<lambda>segs.
       map_option (\<lambda>seg. (seg_price seg, seg_name seg))
         (List.find (\<lambda>seg. segment_matches seg (context_value rule input) weekday minutes) segs))"

section \<open>Pricing\<close>

definition candidates ::
  "'d price_rule list \<Rightarrow> string \<Rightarrow> string \<Rightarrow> instant \<Rightarrow> 'd price_rule list" where
  "candidates rules unit dim at =
     (let active = filter (\<lambda>r. rule_unit r = unit \<and> rule_enabled r \<and> in_effect r at) rules;
          exact = filter (\<lambda>r. rule_dimension_key r = dim) active
      in if exact = [] \<and> dim \<noteq> []
         then filter (\<lambda>r. rule_dimension_key r = []) active else exact)"

text \<open>The map from the currency to the best rule so far, in the order of first insertion.\<close>

fun insert_best :: "'d price_rule \<Rightarrow> (string \<times> 'd price_rule) list \<Rightarrow> (string \<times> 'd price_rule) list" where
  "insert_best r [] = [(rule_currency r, r)]"
| "insert_best r ((cur, best) # m) =
     (if cur = rule_currency r then (cur, if better_rule r best then r else best) # m
      else (cur, best) # insert_best r m)"

definition best_by_currency :: "'d price_rule list \<Rightarrow> (string \<times> 'd price_rule) list" where
  "best_by_currency cands = fold insert_best cands []"

definition price_line ::
  "'d decimal_ops \<Rightarrow> 'd pricing_lib \<Rightarrow> 'd pricing_input \<Rightarrow> string \<Rightarrow> int \<Rightarrow> string \<Rightarrow> 'd \<Rightarrow>
   string \<times> 'd price_rule \<Rightarrow> 'd priced_line" where
  "price_line dec lib input weekday minutes unit quantity p =
     (let (cur, rule) = p;
          (price, name) =
            unwrap_or (rule_base_price rule, None) (match_segment lib rule input weekday minutes)
      in \<lparr>line_unit = unit, line_currency = cur, line_quantity = quantity, line_price = price,
          line_cost = dec_div dec (dec_mul dec price quantity) (unit_cost_divisor dec unit),
          line_rule_id = rule_id rule, line_segment = name\<rparr>)"

definition price_units :: "string list" where
  "price_units =
     [''token_in'', ''token_out'', ''token_cache_write'', ''token_cache_read'', ''image'',
      ''video_second'']"

text \<open>\<open>hash_order\<close> is the order in which the \<open>HashMap\<close> of the best rules is walked.\<close>

type_synonym 'd hash_order = "(string \<times> 'd price_rule) list \<Rightarrow> (string \<times> 'd price_rule) list"

definition unit_lines ::
  "'d decimal_ops \<Rightarrow> 'd pricing_lib \<Rightarrow> 'd hash_order \<Rightarrow> 'd price_rule list \<Rightarrow> 'd pricing_input \<Rightarrow>
   string \<Rightarrow> int \<Rightarrow> string \<Rightarrow> 'd priced_line list" where
  "unit_lines dec lib hash_order rules input weekday minutes unit =
     (case unit_quantity dec unit input of
        None \<Rightarrow> []
      | Some quantity \<Rightarrow>
          map (price_line dec lib input weekday minutes unit quantity)
            (hash_order
              (best_by_currency
                (candidates rules unit (input_dimension_key (pl_json lib) unit input) (pi_at input)))))"

definition price_lines ::
  "'d decimal_ops \<Rightarrow> 'd pricing_lib \<Rightarrow> 'd hash_order \<Rightarrow> 'd price_rule list \<Rightarrow> 'd pricing_input \<Rightarrow>
   string \<Rightarrow> 'd priced_line list" where
  "price_lines dec lib hash_order rules input tz =
     (let (weekday, minutes) = pl_local lib tz (pi_at input)
      in concat (map (unit_lines dec lib hash_order rules input weekday minutes) price_units))"

text \<open>
  The sums in one currency: the lines in it, then the other currency's lines converted. The
  first component says whether there was an amount at all, the third collects the rates used.
\<close>

definition sum_direct :: "'d decimal_ops \<Rightarrow> string \<Rightarrow> 'd priced_line list \<Rightarrow> 'd" where
  "sum_direct dec cur lines =
     fold (\<lambda>l s. if line_currency l = cur then dec_add dec s (line_cost l) else s) lines (dec_zero dec)"

definition has_currency :: "string \<Rightarrow> 'd priced_line list \<Rightarrow> bool" where
  "has_currency cur lines \<longleftrightarrow> list_ex (\<lambda>l. line_currency l = cur) lines"

definition add_converted ::
  "'d decimal_ops \<Rightarrow> 'd fx_map \<Rightarrow> string \<Rightarrow> string \<Rightarrow> 'd priced_line \<Rightarrow> bool \<times> 'd \<Rightarrow> bool \<times> 'd" where
  "add_converted dec fx a b l acc =
     (let (got, s) = acc
      in if line_currency l = a then
           (case fx_convert dec fx a b (line_cost l) of
              Some (v, _) \<Rightarrow> (True, dec_add dec s v) | None \<Rightarrow> (got, s))
         else (got, s))"

definition total_cost ::
  "'d decimal_ops \<Rightarrow> 'd fx_map \<Rightarrow> string \<Rightarrow> string \<Rightarrow> 'd priced_line list \<Rightarrow> 'd option" where
  "total_cost dec fx other cur lines =
     (let (got, s) = fold (add_converted dec fx other cur) lines
                       (has_currency cur lines, sum_direct dec cur lines)
      in if got then Some s else None)"

text \<open>The rates used, with their direction.\<close>

definition fx_used_of ::
  "'d decimal_ops \<Rightarrow> 'd fx_map \<Rightarrow> 'd priced_line \<Rightarrow> (string \<times> string \<times> 'd fx_rate) option" where
  "fx_used_of dec fx l =
     (let use = (\<lambda>a b. case fx_convert dec fx a b (line_cost l) of
                         Some (_, Some r) \<Rightarrow> Some (a, b, r) | _ \<Rightarrow> None)
      in if line_currency l = ''USD'' then use ''USD'' ''CNY''
         else if line_currency l = ''CNY'' then use ''CNY'' ''USD''
         else None)"

record 'd pricing_result =
  res_lines :: "'d priced_line list"
  res_cost_cny :: "'d option"
  res_cost_usd :: "'d option"
  res_fx_used :: "(string \<times> string \<times> 'd fx_rate) list"
  res_priced :: bool

definition price_with_rules ::
  "'d decimal_ops \<Rightarrow> 'd pricing_lib \<Rightarrow> 'd hash_order \<Rightarrow> 'd price_rule list \<Rightarrow> 'd fx_map \<Rightarrow>
   'd pricing_input \<Rightarrow> string \<Rightarrow> 'd pricing_result" where
  "price_with_rules dec lib hash_order rules fx input tz =
     (let lines = price_lines dec lib hash_order rules input tz
      in \<lparr>res_lines = lines,
          res_cost_cny = total_cost dec fx ''USD'' ''CNY'' lines,
          res_cost_usd = total_cost dec fx ''CNY'' ''USD'' lines,
          res_fx_used = List.map_filter (fx_used_of dec fx) lines,
          res_priced = (lines \<noteq> [])\<rparr>)"

section \<open>Which rule prices a unit\<close>

lemma better_irrefl: "\<not> better_rule r r"
  by (simp add: better_rule_def)

text \<open>\<open>\<not> better\<close> is transitive: the order is that of a tuple.\<close>

definition rule_key :: "'d price_rule \<Rightarrow> int list" where
  "rule_key r = [- rule_priority r, rule_sort_order r, rule_created_at r, uint (rule_id r)]"

lemma better_key: "better_rule a b \<longleftrightarrow> rule_key a < rule_key b"
  by (auto simp: better_rule_def rule_key_def word_less_def word_uint_eq_iff)

definition best_ok :: "'d price_rule list \<Rightarrow> (string \<times> 'd price_rule) list \<Rightarrow> bool" where
  "best_ok cands m \<longleftrightarrow>
     distinct (map fst m) \<and> fst ` set m = rule_currency ` set cands \<and>
     (\<forall>(cur, r) \<in> set m. r \<in> set cands \<and> rule_currency r = cur \<and>
        (\<forall>c \<in> set cands. rule_currency c = cur \<longrightarrow> \<not> better_rule c r))"

lemma fst_insert_best: "fst ` set (insert_best r m) = insert (rule_currency r) (fst ` set m)"
  by (induction r m rule: insert_best.induct) auto

lemma distinct_insert_best: "distinct (map fst m) \<Longrightarrow> distinct (map fst (insert_best r m))"
proof (induction r m rule: insert_best.induct)
  case (2 r c b m)
  then show ?case
  proof (cases "c = rule_currency r")
    case False
    have "c \<notin> fst ` set (insert_best r m)"
      using False "2.prems" by (simp add: fst_insert_best)
    with False 2 show ?thesis by simp
  qed simp
qed simp

lemma in_insert_best:
  "distinct (map fst m) \<Longrightarrow> (cur, x) \<in> set (insert_best r m) \<Longrightarrow>
   (cur, x) \<in> set m \<and> cur \<noteq> rule_currency r \<or>
   cur = rule_currency r \<and>
     (x = r \<and> (\<forall>b. (cur, b) \<in> set m \<longrightarrow> better_rule r b) \<or>
      (cur, x) \<in> set m \<and> \<not> better_rule r x)"
proof (induction r m rule: insert_best.induct)
  case (2 r c b m)
  show ?case
  proof (cases "c = rule_currency r")
    case True
    have "cur \<noteq> c" if "(cur, y) \<in> set m" for y using "2.prems"(1) that by force
    with "2.prems"(2) True show ?thesis by (cases "better_rule r b") auto
  next
    case False
    then consider "(cur, x) = (c, b)" | "(cur, x) \<in> set (insert_best r m)"
      using "2.prems"(2) by auto
    then show ?thesis using "2.IH" [OF False] "2.prems"(1) False by cases auto
  qed
qed simp

lemma insert_best_ok:
  assumes "best_ok cands m"
  shows "best_ok (r # cands) (insert_best r m)"
proof -
  have dist: "distinct (map fst m)" and keys: "fst ` set m = rule_currency ` set cands"
    and best: "\<And>cur x. (cur, x) \<in> set m \<Longrightarrow> x \<in> set cands \<and> rule_currency x = cur \<and>
      (\<forall>c \<in> set cands. rule_currency c = cur \<longrightarrow> \<not> better_rule c x)"
    using assms by (auto simp: best_ok_def)
  have "x \<in> set (r # cands) \<and> rule_currency x = cur \<and>
      (\<forall>c \<in> set (r # cands). rule_currency c = cur \<longrightarrow> \<not> better_rule c x)"
    if x: "(cur, x) \<in> set (insert_best r m)" for cur x
  proof -
    consider "(cur, x) \<in> set m" "cur \<noteq> rule_currency r"
      | "cur = rule_currency r" "x = r" "\<And>b. (cur, b) \<in> set m \<Longrightarrow> better_rule r b"
      | "cur = rule_currency r" "(cur, x) \<in> set m" "\<not> better_rule r x"
      using in_insert_best [OF dist x] by blast
    then show ?thesis
    proof cases
      case 2
      have "\<not> better_rule c r" if c: "c \<in> set cands" "rule_currency c = cur" for c
      proof -
        have "cur \<in> fst ` set m" using c keys by auto
        then obtain b where b: "(cur, b) \<in> set m" by auto
        have "rule_key r < rule_key b" using 2(3) [OF b] by (simp add: better_key)
        moreover have "\<not> rule_key c < rule_key b" using best [OF b] c by (simp add: better_key)
        ultimately show ?thesis unfolding better_key by order
      qed
      with 2 show ?thesis by (auto simp: better_irrefl)
    qed (use best in auto)
  qed
  then show ?thesis
    using distinct_insert_best [OF dist] keys by (auto simp: best_ok_def fst_insert_best)
qed

lemma best_ok_perm: "set xs = set ys \<Longrightarrow> best_ok xs m = best_ok ys m"
  by (simp add: best_ok_def)

lemma best_by_currency_ok: "best_ok cands (best_by_currency cands)"
proof (induction cands rule: rev_induct)
  case Nil
  then show ?case by (simp add: best_ok_def best_by_currency_def)
next
  case (snoc r cands)
  have "best_ok (r # cands) (insert_best r (best_by_currency cands))"
    by (rule insert_best_ok [OF snoc])
  then show ?case
    using best_ok_perm [of "r # cands" "cands @ [r]"] by (simp add: best_by_currency_def)
qed

text \<open>What a line of a price stands on.\<close>

definition line_from ::
  "'d decimal_ops \<Rightarrow> 'd pricing_lib \<Rightarrow> 'd price_rule list \<Rightarrow> 'd pricing_input \<Rightarrow> string \<Rightarrow>
   'd priced_line \<Rightarrow> 'd price_rule \<Rightarrow> bool" where
  "line_from dec lib rules input tz l r \<longleftrightarrow>
     r \<in> set rules \<and> rule_enabled r \<and> in_effect r (pi_at input) \<and>
     rule_unit r = line_unit l \<and> rule_currency r = line_currency l \<and> rule_id r = line_rule_id l \<and>
     rule_dimension_key r \<in> {input_dimension_key (pl_json lib) (line_unit l) input, []} \<and>
     unit_quantity dec (line_unit l) input = Some (line_quantity l) \<and>
     (let (weekday, minutes) = pl_local lib tz (pi_at input)
      in (line_price l, line_segment l) =
           unwrap_or (rule_base_price r, None) (match_segment lib r input weekday minutes)) \<and>
     line_cost l =
       dec_div dec (dec_mul dec (line_price l) (line_quantity l)) (unit_cost_divisor dec (line_unit l)) \<and>
     (\<forall>c \<in> set (candidates rules (line_unit l) (input_dimension_key (pl_json lib) (line_unit l) input)
                  (pi_at input)).
        rule_currency c = line_currency l \<longrightarrow> \<not> better_rule c r)"

lemma candidate_ok:
  "r \<in> set (candidates rules unit dim at) \<Longrightarrow>
   r \<in> set rules \<and> rule_unit r = unit \<and> rule_enabled r \<and> in_effect r at \<and>
   rule_dimension_key r \<in> {dim, []}"
  by (auto simp: candidates_def Let_def split: if_splits)

definition walks :: "'d hash_order \<Rightarrow> bool" where
  "walks hash_order \<longleftrightarrow> (\<forall>m. mset (hash_order m) = mset m)"

lemma walks_set: "walks h \<Longrightarrow> set (h m) = set m"
  by (metis mset_eq_setD walks_def)

lemma price_lines_from:
  assumes "walks h" "l \<in> set (price_lines dec lib h rules input tz)"
  shows "\<exists>r. line_from dec lib rules input tz l r"
proof -
  obtain weekday minutes where local: "pl_local lib tz (pi_at input) = (weekday, minutes)" by force
  then obtain unit where l: "l \<in> set (unit_lines dec lib h rules input weekday minutes unit)"
    using assms(2) by (auto simp: price_lines_def)
  then obtain q where q: "unit_quantity dec unit input = Some q"
    by (cases "unit_quantity dec unit input") (simp_all add: unit_lines_def)
  let ?cands = "candidates rules unit (input_dimension_key (pl_json lib) unit input) (pi_at input)"
  obtain cur r where r: "(cur, r) \<in> set (best_by_currency ?cands)"
    and line: "l = price_line dec lib input weekday minutes unit q (cur, r)"
    using l q walks_set [OF assms(1)] by (auto simp: unit_lines_def)
  have best: "r \<in> set ?cands" "rule_currency r = cur"
    "\<forall>c \<in> set ?cands. rule_currency c = cur \<longrightarrow> \<not> better_rule c r"
    using best_by_currency_ok [of ?cands] r by (auto simp: best_ok_def)
  have "line_from dec lib rules input tz l r"
    using candidate_ok [OF best(1)] best(2-) q
    by (auto simp: line_from_def line price_line_def local split: prod.splits)
  then show ?thesis ..
qed

section \<open>The order of the hash map does not show\<close>

lemma filter_permuted:
  assumes "mset xs = mset ys" "distinct (map fst xs)"
  shows "filter (\<lambda>p. fst p = k) xs = filter (\<lambda>p. fst p = k) ys"
proof -
  let ?f = "filter (\<lambda>p. fst p = k)"
  have eq: "mset (?f xs) = mset (?f ys)" by (simp add: assms(1))
  have "length (?f xs) \<le> 1"
    using assms(2) by (induction xs) (auto simp: filter_empty_conv image_iff)
  then consider "?f xs = []" | x where "?f xs = [x]"
    by (cases "?f xs"; cases "tl (?f xs)") auto
  then show ?thesis
  proof cases
    case 2
    have "mset (?f ys) = {#x#}" unfolding eq [symmetric] 2 by simp
    then have "?f ys = [x]" by (simp only: mset_single_iff)
    with 2 show ?thesis by simp
  next
    case 1
    have "mset (?f ys) = {#}" unfolding eq [symmetric] 1 by simp
    then have "?f ys = []" by (simp only: mset_zero_iff)
    with 1 show ?thesis by simp
  qed
qed

lemma line_currency_price_line [simp]:
  "line_currency (price_line dec lib input wd mi unit q p) = fst p"
  by (auto simp: price_line_def split: prod.splits)

definition lines_in :: "string \<Rightarrow> 'd priced_line list \<Rightarrow> 'd priced_line list" where
  "lines_in cur = filter (\<lambda>l. line_currency l = cur)"

lemma unit_lines_order:
  assumes "walks h"
  shows "lines_in cur (unit_lines dec lib h rules input wd mi unit) =
    lines_in cur (unit_lines dec lib id rules input wd mi unit)"
proof (cases "unit_quantity dec unit input")
  case (Some q)
  let ?m = "best_by_currency (candidates rules unit (input_dimension_key (pl_json lib) unit input) (pi_at input))"
  have "filter (\<lambda>p. fst p = cur) (h ?m) = filter (\<lambda>p. fst p = cur) ?m"
    using assms best_by_currency_ok by (intro filter_permuted [symmetric]) (auto simp: walks_def best_ok_def)
  then show ?thesis by (simp add: unit_lines_def lines_in_def Some filter_map comp_def)
qed (simp add: unit_lines_def)

lemma price_lines_order:
  assumes "walks h"
  shows "lines_in cur (price_lines dec lib h rules input tz) =
    lines_in cur (price_lines dec lib id rules input tz)"
proof -
  obtain wd mi where "pl_local lib tz (pi_at input) = (wd, mi)" by force
  moreover have "lines_in cur (concat (map (unit_lines dec lib h rules input wd mi) us)) =
      lines_in cur (concat (map (unit_lines dec lib id rules input wd mi) us))" for us
    using unit_lines_order [OF assms] by (induction us) (simp_all add: lines_in_def)
  ultimately show ?thesis by (simp add: price_lines_def)
qed

lemma total_cost_lines:
  "total_cost dec fx a b lines =
     (let (got, s) = fold (add_converted dec fx a b) (lines_in a lines)
                       (lines_in b lines \<noteq> [],
                        fold (\<lambda>l s. dec_add dec s (line_cost l)) (lines_in b lines) (dec_zero dec))
      in if got then Some s else None)"
proof -
  have conv: "fold (add_converted dec fx a b) ls x = fold (add_converted dec fx a b) (lines_in a ls) x" for ls x
    by (induction ls arbitrary: x) (auto simp: lines_in_def add_converted_def split: prod.splits)
  have sum: "fold (\<lambda>l s. if line_currency l = b then dec_add dec s (line_cost l) else s) ls x =
      fold (\<lambda>l s. dec_add dec s (line_cost l)) (lines_in b ls) x" for ls x
    by (induction ls arbitrary: x) (auto simp: lines_in_def)
  have "has_currency b lines \<longleftrightarrow> lines_in b lines \<noteq> []"
    by (auto simp: has_currency_def lines_in_def filter_empty_conv list_ex_iff)
  then show ?thesis
    unfolding total_cost_def sum_direct_def sum by (subst conv) simp
qed

lemma price_order:
  assumes "walks h"
  shows "res_cost_cny (price_with_rules dec lib h rules fx input tz) =
      res_cost_cny (price_with_rules dec lib id rules fx input tz)"
    "res_cost_usd (price_with_rules dec lib h rules fx input tz) =
      res_cost_usd (price_with_rules dec lib id rules fx input tz)"
    "res_priced (price_with_rules dec lib h rules fx input tz) =
      res_priced (price_with_rules dec lib id rules fx input tz)"
proof -
  have "price_lines dec lib h rules input tz = [] \<longleftrightarrow> price_lines dec lib id rules input tz = []"
  proof -
    have "ls = [] \<longleftrightarrow> (\<forall>cur. lines_in cur ls = [])" for ls :: "'a priced_line list"
      by (cases ls) (auto simp: lines_in_def)
    then show ?thesis using price_lines_order [OF assms] by metis
  qed
  then show "res_priced (price_with_rules dec lib h rules fx input tz) =
      res_priced (price_with_rules dec lib id rules fx input tz)"
    by (simp add: price_with_rules_def Let_def)
qed (simp_all add: price_with_rules_def Let_def total_cost_lines price_lines_order [OF assms])

section \<open>Both currencies\<close>

lemma convert_builtin:
  assumes "dec_of_string dec ''6.73'' \<noteq> None"
  shows "fx_convert dec fx ''USD'' ''CNY'' x \<noteq> None" "fx_convert dec fx ''CNY'' ''USD'' x \<noteq> None"
  using assms by (auto simp: fx_convert_def Let_def split: option.splits)

lemma total_cost_some:
  assumes "lines_in a lines \<noteq> [] \<or> lines_in b lines \<noteq> []" "\<And>x. fx_convert dec fx a b x \<noteq> None"
  shows "total_cost dec fx a b lines \<noteq> None"
proof -
  have "fst (fold (add_converted dec fx a b) ls (got, s)) \<longleftrightarrow> got \<or> ls \<noteq> []"
    if "\<forall>l \<in> set ls. line_currency l = a" for ls got s
    using that
  proof (induction ls arbitrary: got s)
    case (Cons l ls)
    obtain v r where "fx_convert dec fx a b (line_cost l) = Some (v, r)"
      using assms(2) [of "line_cost l"] by force
    with Cons show ?case by (simp add: add_converted_def)
  qed simp
  from this [of "lines_in a lines"] assms(1) show ?thesis
    by (auto simp: total_cost_lines lines_in_def split: prod.splits)
      (metis fst_conv)+
qed

lemma both_costs:
  assumes "dec_of_string dec ''6.73'' \<noteq> None"
    and "l \<in> set (res_lines (price_with_rules dec lib h rules fx input tz))"
    and "line_currency l = ''CNY'' \<or> line_currency l = ''USD''"
  shows "res_cost_cny (price_with_rules dec lib h rules fx input tz) \<noteq> None"
    "res_cost_usd (price_with_rules dec lib h rules fx input tz) \<noteq> None"
proof -
  let ?ls = "price_lines dec lib h rules input tz"
  have "lines_in ''CNY'' ?ls \<noteq> [] \<or> lines_in ''USD'' ?ls \<noteq> []"
    using assms(2,3) by (auto simp: price_with_rules_def Let_def lines_in_def filter_empty_conv)
  then show "res_cost_cny (price_with_rules dec lib h rules fx input tz) \<noteq> None"
    "res_cost_usd (price_with_rules dec lib h rules fx input tz) \<noteq> None"
    unfolding price_with_rules_def Let_def pricing_result.simps
    by (intro total_cost_some convert_builtin assms(1); blast)+
qed

section \<open>Which rate applies\<close>

definition row_rate :: "'d fx_rate_row \<Rightarrow> 'd fx_rate" where
  "row_rate row = \<lparr>fx_rate_of = fxr_rate row, fx_source = fxr_source row,
                   fx_at = fxr_fetched_at row, fx_inverse = False\<rparr>"

text \<open>The first manual row of the pair, else the first fresh automatic one.\<close>

definition direct_rate ::
  "instant \<Rightarrow> u64 \<Rightarrow> 'd fx_rate_row list \<Rightarrow> string \<times> string \<Rightarrow> 'd fx_rate option" where
  "direct_rate now stale_max rows pair =
     (let of_pair = filter (\<lambda>r. (fxr_from r, fxr_to r) = pair) rows
      in map_option row_rate
           (or_else (List.find (\<lambda>r. fxr_source r = ''manual'') of_pair)
             (List.find (fx_allowed now stale_max) of_pair)))"

lemma find_append:
  "List.find p (xs @ ys) = or_else (List.find p xs) (List.find p ys)"
  by (induction xs) auto

lemma fx_direct_fold:
  "fold (fx_direct_step now stale_max) rows (\<lambda>_. None) pair = direct_rate now stale_max rows pair"
proof (induction rows rule: rev_induct)
  case Nil
  then show ?case by (simp add: direct_rate_def)
next
  case (snoc row rows)
  let ?of = "filter (\<lambda>r. (fxr_from r, fxr_to r) = pair) rows"
  show ?case
  proof (cases "(fxr_from row, fxr_to row) = pair")
    case False
    then have "fold (fx_direct_step now stale_max) (rows @ [row]) (\<lambda>_. None) pair =
        fold (fx_direct_step now stale_max) rows (\<lambda>_. None) pair"
      by (auto simp: fx_direct_step_def Let_def split: option.splits)
    with snoc False show ?thesis by (simp add: direct_rate_def Let_def)
  next
    case True
    have manual: "fxr_source r = ''manual''" if "List.find (\<lambda>r. fxr_source r = ''manual'') xs = Some r"
      for r :: "'a fx_rate_row" and xs using that by (auto simp: find_Some_iff)
    have auto_only: "fxr_source r \<noteq> ''manual''"
      if "List.find (\<lambda>r. fxr_source r = ''manual'') xs = None" "List.find (fx_allowed now stale_max) xs = Some r"
      for r :: "'a fx_rate_row" and xs
      using that by (auto simp: find_Some_iff find_None_iff)
    have allowed: "fx_allowed now stale_max r" if "fxr_source r = ''manual''" for r :: "'a fx_rate_row"
      using that by (simp add: fx_allowed_def)
    have cur: "fold (fx_direct_step now stale_max) rows (\<lambda>_. None) pair =
        map_option row_rate (or_else (List.find (\<lambda>r. fxr_source r = ''manual'') ?of)
          (List.find (fx_allowed now stale_max) ?of))"
      using snoc by (simp add: direct_rate_def Let_def)
    have step: "fold (fx_direct_step now stale_max) (rows @ [row]) (\<lambda>_. None) pair =
        (let d = fold (fx_direct_step now stale_max) rows (\<lambda>_. None) pair
         in if \<not> fx_allowed now stale_max row then d
            else (case d of
                    Some existing \<Rightarrow>
                      if fxr_source row = ''manual'' \<and> fx_source existing \<noteq> ''manual''
                      then Some (row_rate row) else d
                  | None \<Rightarrow> Some (row_rate row)))"
      using True by (simp add: fx_direct_step_def Let_def row_rate_def split: option.split)
    have new: "direct_rate now stale_max (rows @ [row]) pair =
        map_option row_rate
          (or_else (or_else (List.find (\<lambda>r. fxr_source r = ''manual'') ?of)
                     (if fxr_source row = ''manual'' then Some row else None))
            (or_else (List.find (fx_allowed now stale_max) ?of)
              (if fx_allowed now stale_max row then Some row else None)))"
      using True by (simp add: direct_rate_def Let_def find_append)
    have src: "fx_source (row_rate r) = fxr_source r" for r :: "'a fx_rate_row"
      by (simp add: row_rate_def)
    show ?thesis
    proof (cases "List.find (\<lambda>r. fxr_source r = ''manual'') ?of")
      case (Some m)
      then show ?thesis using manual [OF Some] unfolding step cur new by (simp add: src Let_def)
    next
      case None
      show ?thesis
      proof (cases "List.find (fx_allowed now stale_max) ?of")
        case (Some r)
        then show ?thesis
          using None auto_only [OF None Some] allowed [of row] unfolding step cur new
          by (simp add: src Let_def)
      next
        case none: None
        then show ?thesis using None allowed [of row] unfolding step cur new by (simp add: src Let_def)
      qed
    qed
  qed
qed

lemma build_fx_set_at:
  "build_fx_set dec rows now stale_max (a, b) =
     (case direct_rate now stale_max rows (a, b) of
        Some r \<Rightarrow> Some r
      | None \<Rightarrow>
          (case direct_rate now stale_max rows (b, a) of
             Some v \<Rightarrow>
               if fx_rate_of v = dec_zero dec then None
               else Some \<lparr>fx_rate_of = dec_div dec (dec_one dec) (fx_rate_of v),
                          fx_source = fx_source v, fx_at = fx_at v, fx_inverse = True\<rparr>
           | None \<Rightarrow> None))"
  by (simp add: build_fx_set_def fx_direct_fold Let_def cong: option.case_cong)

section \<open>Windows of the day\<close>

lemma windows_tile:
  assumes "parse_hhmm a = Some s" "parse_hhmm b = Some e" "s < e"
  shows "window_hit a b m \<or> window_hit b a m"
    "window_hit a b m \<and> window_hit b a m \<longleftrightarrow> m = e"
  using assms by (auto simp: window_hit_def)

section \<open>Properties\<close>

text \<open>
  C34: every line of a price is justified: its rule is one of the given, enabled, in effect at the
  time of the request, of the line's unit and currency, with the request's dimension key or
  the general one; no other candidate of that currency ranks before it (priority, sort order,
  age, id); the price is that of the first matching segment or the base price, and the cost is
  price times quantity over the unit's divisor.
\<close>

theorem priced_line_justified:
  assumes "walks h" "l \<in> set (res_lines (price_with_rules dec lib h rules fx input tz))"
  shows "\<exists>r. line_from dec lib rules input tz l r"
  using assms by (intro price_lines_from) (simp_all add: price_with_rules_def Let_def)

definition int_decimal :: "int decimal_ops" where
  "int_decimal =
     \<lparr>dec_zero = 0, dec_one = 1, dec_of_int = id, dec_add = (+), dec_mul = (*), dec_div = (div),
      dec_less = (<), dec_trunc = id, dec_fract = (\<lambda>_. 0), dec_of_string = (\<lambda>_. Some 7)\<rparr>"

definition sample_lib :: "int pricing_lib" where
  "sample_lib =
     \<lparr>pl_json = \<lparr>to_text = (\<lambda>_. []), from_text = (\<lambda>_. Inl [])\<rparr>, pl_segments = (\<lambda>_. None),
      pl_local = (\<lambda>_ _. (''mon'', 600))\<rparr>"

definition sample_rule :: "int price_rule" where
  "sample_rule =
     \<lparr>rule_id = 1, rule_unit = ''token_in'', rule_currency = ''USD'', rule_base_price = 3,
      rule_dimension_key = [], rule_segments = None, rule_context_basis = ''prompt_tokens'',
      rule_effective_from = None, rule_effective_to = None, rule_priority = 0,
      rule_sort_order = 0, rule_enabled = True, rule_created_at = 0\<rparr>"

definition sample_input :: "int pricing_input" where
  "sample_input =
     \<lparr>pi_at = 5, pi_prompt_tokens = Some 2000000, pi_completion_tokens = None,
      pi_cache_write_tokens = None, pi_cache_read_tokens = None, pi_images = None,
      pi_image_size = None, pi_video_seconds = None, pi_video_resolution = None,
      pi_video_task_type = None\<rparr>"

definition sample_line :: "int priced_line" where
  "sample_line =
     \<lparr>line_unit = ''token_in'', line_currency = ''USD'', line_quantity = 2000000, line_price = 3,
      line_cost = 6, line_rule_id = 1, line_segment = None\<rparr>"

lemma sample_lines:
  "res_lines (price_with_rules int_decimal sample_lib id [sample_rule] (\<lambda>_. None) sample_input ''UTC'') =
     [sample_line]"
  by (simp add: price_with_rules_def price_lines_def price_units_def unit_lines_def
      unit_quantity_def positive_measure_def candidates_def best_by_currency_def price_line_def
      match_segment_def unit_cost_divisor_def in_effect_def input_dimension_key_def int_decimal_def
      sample_lib_def sample_rule_def sample_input_def sample_line_def Let_def)

lemma priced_line_justified_witness:
  "\<exists>r. line_from int_decimal sample_lib [sample_rule] sample_input ''UTC'' sample_line r"
  by (rule priced_line_justified [of id sample_line _ _ _ "\<lambda>_. None"])
    (simp_all add: walks_def sample_lines)

text \<open>
  C35: the sums in both currencies and the verdict whether there is a price do not depend on the
  order in which the hash map of the best rules is walked; only the order of the lines may.
\<close>

theorem costs_ignore_hash_order:
  assumes "walks h" "walks h'"
  shows "res_cost_cny (price_with_rules dec lib h rules fx input tz) =
      res_cost_cny (price_with_rules dec lib h' rules fx input tz) \<and>
    res_cost_usd (price_with_rules dec lib h rules fx input tz) =
      res_cost_usd (price_with_rules dec lib h' rules fx input tz) \<and>
    res_priced (price_with_rules dec lib h rules fx input tz) =
      res_priced (price_with_rules dec lib h' rules fx input tz)"
  using price_order [OF assms(1)] price_order [OF assms(2)] by simp_all

lemma costs_ignore_hash_order_witness:
  "res_cost_usd (price_with_rules int_decimal sample_lib rev [sample_rule] (\<lambda>_. None) sample_input ''UTC'') =
   res_cost_usd (price_with_rules int_decimal sample_lib id [sample_rule] (\<lambda>_. None) sample_input ''UTC'')"
  using costs_ignore_hash_order [of rev id int_decimal sample_lib "[sample_rule]" "\<lambda>_. None" sample_input "''UTC''"]
  by (simp add: walks_def)



text \<open>
  The rate in force for a pair is the first manual one, else the first automatic one that is
  not stale, else the inverse of the reverse pair's rate in force (unless that is zero): a
  manual rate is never overridden, and a stale automatic rate is never used.
\<close>

theorem rate_precedence:
  "build_fx_set dec rows now stale_max (a, b) =
     or_else (direct_rate now stale_max rows (a, b))
       (Option.bind (direct_rate now stale_max rows (b, a)) (\<lambda>v.
          if fx_rate_of v = dec_zero dec then None
          else Some \<lparr>fx_rate_of = dec_div dec (dec_one dec) (fx_rate_of v),
                     fx_source = fx_source v, fx_at = fx_at v, fx_inverse = True\<rparr>))"
  by (simp add: build_fx_set_at or_else_def split: option.split)

text \<open>
  A window and the one with its ends exchanged (which crosses midnight) cover every minute of
  the day, and overlap in one minute only: the end of the first, which both include.
\<close>

theorem windows_overlap_at_end:
  assumes "parse_hhmm a = Some s" "parse_hhmm b = Some e" "s < e"
  shows "(window_hit a b m \<or> window_hit b a m) \<and> (window_hit a b m \<and> window_hit b a m \<longleftrightarrow> m = e)"
  using windows_tile [OF assms] by simp

lemma windows_overlap_at_end_witness:
  "window_hit ''09:00'' ''12:00'' 720 \<and> window_hit ''12:00'' ''09:00'' 720"
proof -
  have "parse_hhmm ''09:00'' = Some 540" "parse_hhmm ''12:00'' = Some 720"
    by (simp_all add: parse_hhmm_def parse_i32_def digits_value_def trim_digits)
  from windows_overlap_at_end [OF this, of 720] show ?thesis by simp
qed

end
