(* ===== verification/PriceBatch.thy ===== *)
theory PriceBatch
  imports Billing
begin

text \<open>
  Batch pricing of log events, \<open>price_batch\<close> of \<open>src/billing/mod.rs\<close>. The two reads of the
  database (exchange rates, rules of the distinct pairs) are arguments that may fail. The audit
  columns \<open>price_used\<close> and \<open>fx_snapshot\<close> are kept as the data they serialise.
\<close>

text \<open>The columns of \<open>LogEvent\<close> (\<open>src/logging/mod.rs\<close>) that pricing reads and writes.\<close>

record 'd log_event =
  ev_request_id :: string
  ev_ts :: instant
  ev_model :: string
  ev_upstream_model :: "string option"
  ev_upstream_id :: "uuid option"
  ev_status :: int
  ev_prompt_tokens :: "int option"
  ev_completion_tokens :: "int option"
  ev_cache_write_tokens :: "int option"
  ev_cache_read_tokens :: "int option"
  ev_images :: "int option"
  ev_image_size :: "string option"
  ev_video_seconds :: "'d option"
  ev_video_resolution :: "string option"
  ev_video_task_type :: "string option"
  ev_cost_cny :: "'d option"
  ev_cost_usd :: "'d option"
  ev_pricing_source :: "string option"
  ev_price_used :: "'d priced_line list option"
  ev_fx_snapshot :: "(string \<times> string \<times> 'd fx_rate) list option"

definition effective_price_model :: "'d log_event \<Rightarrow> string" where
  "effective_price_model ev =
     (case ev_upstream_model ev of
        Some s \<Rightarrow> if s \<noteq> [] then s else ev_model ev
      | None \<Rightarrow> ev_model ev)"

definition has_usage :: "'d log_event \<Rightarrow> bool" where
  "has_usage ev \<longleftrightarrow>
     0 < unwrap_or 0 (ev_prompt_tokens ev) \<or> 0 < unwrap_or 0 (ev_completion_tokens ev) \<or>
     0 < unwrap_or 0 (ev_cache_write_tokens ev) \<or> 0 < unwrap_or 0 (ev_cache_read_tokens ev) \<or>
     0 < unwrap_or 0 (ev_images ev) \<or> ev_video_seconds ev \<noteq> None"

definition input_from_event :: "'d log_event \<Rightarrow> 'd pricing_input" where
  "input_from_event ev =
     \<lparr>pi_at = ev_ts ev, pi_prompt_tokens = ev_prompt_tokens ev,
      pi_completion_tokens = ev_completion_tokens ev,
      pi_cache_write_tokens = ev_cache_write_tokens ev,
      pi_cache_read_tokens = ev_cache_read_tokens ev, pi_images = ev_images ev,
      pi_image_size = ev_image_size ev, pi_video_seconds = ev_video_seconds ev,
      pi_video_resolution = ev_video_resolution ev, pi_video_task_type = ev_video_task_type ev\<rparr>"

text \<open>The key of an event that is to be priced; the guards of both loops.\<close>

definition price_key :: "'d log_event \<Rightarrow> (uuid \<times> string) option" where
  "price_key ev =
     (if 400 \<le> ev_status ev \<or> ev_pricing_source ev \<noteq> None \<or> \<not> has_usage ev then None
      else map_option (\<lambda>up. (up, effective_price_model ev)) (ev_upstream_id ev))"

fun collect_pairs :: "'d log_event list \<Rightarrow> (uuid \<times> string) list \<Rightarrow> (uuid \<times> string) list" where
  "collect_pairs [] seen = seen"
| "collect_pairs (ev # evs) seen =
     (case price_key ev of
        None \<Rightarrow> collect_pairs evs seen
      | Some key \<Rightarrow> collect_pairs evs (if key \<in> set seen then seen else seen @ [key]))"

definition price_event ::
  "'d decimal_ops \<Rightarrow> 'd pricing_lib \<Rightarrow> 'd hash_order \<Rightarrow>
   ((uuid \<times> string) \<times> 'd price_rule) list \<Rightarrow> 'd fx_map \<Rightarrow> string \<Rightarrow> 'd log_event \<Rightarrow>
   'd log_event \<times> bool" where
  "price_event dec lib h rows fx tz ev =
     (case price_key ev of
        None \<Rightarrow> (ev, False)
      | Some key \<Rightarrow>
          (let rules = map snd (filter (\<lambda>(k, r). k = key) rows);
               res = price_with_rules dec lib h rules fx (input_from_event ev) tz
           in (ev\<lparr>ev_cost_cny := res_cost_cny res, ev_cost_usd := res_cost_usd res,
                  ev_pricing_source := (if res_priced res then Some ''bound'' else None),
                  ev_price_used := (if res_priced res then Some (res_lines res) else None),
                  ev_fx_snapshot := (if res_priced res then Some (res_fx_used res) else None)\<rparr>,
               \<not> res_priced res)))"

definition price_batch ::
  "'d decimal_ops \<Rightarrow> 'd pricing_lib \<Rightarrow> 'd hash_order \<Rightarrow> (api_error + 'd fx_map) \<Rightarrow>
   ((uuid \<times> string) list \<Rightarrow> api_error + ((uuid \<times> string) \<times> 'd price_rule) list) \<Rightarrow> string \<Rightarrow>
   'd log_event list \<Rightarrow> (api_error + nat) \<times> 'd log_event list" where
  "price_batch dec lib h load_fx load_rules tz events =
     (let pairs = collect_pairs events []
      in if pairs = [] then (Inr 0, events)
         else (case load_fx of
                 Inl e \<Rightarrow> (Inl e, events)
               | Inr fx \<Rightarrow>
                   (case load_rules pairs of
                      Inl e \<Rightarrow> (Inl e, events)
                    | Inr rows \<Rightarrow>
                        (let priced = map (price_event dec lib h rows fx tz) events
                         in (Inr (length (filter snd priced)), map fst priced)))))"

section \<open>Facts\<close>

lemma price_event_skips: "price_key ev = None \<Longrightarrow> price_event dec lib h rows fx tz ev = (ev, False)"
  by (simp add: price_event_def)

lemma collect_pairs_set: "set (collect_pairs evs seen) = set seen \<union> {k. \<exists>ev \<in> set evs. price_key ev = Some k}"
  by (induction evs arbitrary: seen) (auto split: option.splits)

lemma collect_pairs_distinct: "distinct seen \<Longrightarrow> distinct (collect_pairs evs seen)"
  by (induction evs arbitrary: seen) (auto split: option.splits)

text \<open>An event that got a price is not priced again.\<close>

lemma priced_key: "ev_pricing_source (fst (price_event dec lib h rows fx tz ev)) \<noteq> None \<Longrightarrow>
  price_key (fst (price_event dec lib h rows fx tz ev)) = None"
  by (simp add: price_key_def)

lemma effective_model_update:
  "effective_price_model (ev\<lparr>ev_cost_cny := a, ev_cost_usd := b, ev_pricing_source := src,
     ev_price_used := c, ev_fx_snapshot := d\<rparr>) = effective_price_model ev"
  "effective_price_model (ev\<lparr>ev_pricing_source := src\<rparr>) = effective_price_model ev"
  by (cases "ev_upstream_model ev"; simp add: effective_price_model_def)+

lemma price_key_update:
  "price_key (ev\<lparr>ev_cost_cny := a, ev_cost_usd := b, ev_pricing_source := src, ev_price_used := c,
                 ev_fx_snapshot := d\<rparr>) =
     (if src = None then price_key (ev\<lparr>ev_pricing_source := None\<rparr>) else None)"
  by (simp add: price_key_def has_usage_def effective_model_update)

lemma price_event_key:
  "price_key (fst (price_event dec lib h rows fx tz ev)) =
     (if snd (price_event dec lib h rows fx tz ev) then price_key ev else None)"
proof (cases "price_key ev")
  case None
  then show ?thesis by (simp add: price_event_def)
next
  case (Some key)
  then have "ev\<lparr>ev_pricing_source := None\<rparr> = ev" by (simp add: price_key_def split: if_splits)
  then have "price_key (ev\<lparr>ev_pricing_source := None\<rparr>) = Some key" using Some by simp
  then show ?thesis by (simp add: price_event_def Some Let_def price_key_update)
qed

text \<open>Costs come with a price: an unpriced event keeps both columns empty.\<close>

lemma unpriced_costs:
  assumes "price_lines dec lib h rules input tz = []"
  shows "res_cost_cny (price_with_rules dec lib h rules fx input tz) = None"
    "res_cost_usd (price_with_rules dec lib h rules fx input tz) = None"
  using assms by (simp_all add: price_with_rules_def total_cost_def has_currency_def)

definition batch_once ::
  "'d log_event list \<Rightarrow> 'd log_event list \<Rightarrow> bool" where
  "batch_once before after \<longleftrightarrow>
     length after = length before \<and>
     (\<forall>i < length before. price_key (before ! i) = None \<longrightarrow> after ! i = before ! i) \<and>
     (\<forall>i < length before. ev_pricing_source (after ! i) = None \<longrightarrow> price_key (before ! i) \<noteq> None \<longrightarrow>
        ev_cost_cny (after ! i) = None \<and> ev_cost_usd (after ! i) = None)"

lemma price_event_unpriced:
  "price_key ev \<noteq> None \<Longrightarrow> ev_pricing_source (fst (price_event dec lib h rows fx tz ev)) = None \<Longrightarrow>
   ev_cost_cny (fst (price_event dec lib h rows fx tz ev)) = None \<and>
   ev_cost_usd (fst (price_event dec lib h rows fx tz ev)) = None"
proof -
  assume "price_key ev \<noteq> None" "ev_pricing_source (fst (price_event dec lib h rows fx tz ev)) = None"
  then obtain key where key: "price_key ev = Some key"
    and "\<not> res_priced (price_with_rules dec lib h (map snd (filter (\<lambda>(k, r). k = key) rows)) fx
           (input_from_event ev) tz)"
    by (auto simp: price_event_def Let_def split: if_splits)
  then have "price_lines dec lib h (map snd (filter (\<lambda>(k, r). k = key) rows)) (input_from_event ev) tz = []"
    by (simp add: price_with_rules_def Let_def)
  from unpriced_costs [OF this] show ?thesis by (simp add: price_event_def key Let_def)
qed

lemma price_batch_cases:
  obtains "snd (price_batch dec lib h load_fx load_rules tz events) = events"
      "\<And>n. fst (price_batch dec lib h load_fx load_rules tz events) = Inr n \<Longrightarrow>
         n = 0 \<and> (\<forall>ev \<in> set events. price_key ev = None)"
  | rows fx where "load_fx = Inr fx" "load_rules (collect_pairs events []) = Inr rows"
      "price_batch dec lib h load_fx load_rules tz events =
         (Inr (length (filter (snd \<circ> price_event dec lib h rows fx tz) events)),
          map (fst \<circ> price_event dec lib h rows fx tz) events)"
proof (cases "collect_pairs events [] = []")
  case True
  then have "\<forall>ev \<in> set events. price_key ev = None"
    using collect_pairs_set [of events "[]"] by (metis (mono_tags, lifting) Un_empty empty_Collect_eq
        not_None_eq set_empty)
  with that(1) True show ?thesis by (simp add: price_batch_def)
next
  case False
  show ?thesis
    using that False
    by (cases load_fx; cases "load_rules (collect_pairs events [])")
      (auto simp: price_batch_def Let_def filter_map comp_def)
qed

lemma price_batch_error:
  "fst (price_batch dec lib h load_fx load_rules tz events) = Inl e \<Longrightarrow>
   snd (price_batch dec lib h load_fx load_rules tz events) = events"
  by (cases rule: price_batch_cases [of dec lib h load_fx load_rules tz events]) simp_all

lemma price_batch_once:
  assumes "price_batch dec lib h load_fx load_rules tz events = (Inr n, after)"
  shows "batch_once events after" "n = length (filter (\<lambda>ev. price_key ev \<noteq> None) after)"
proof -
  have "batch_once events after \<and> n = length (filter (\<lambda>ev. price_key ev \<noteq> None) after)"
  proof (cases rule: price_batch_cases [of dec lib h load_fx load_rules tz events])
    case 1
    then have "after = events" "n = 0" "\<forall>ev \<in> set events. price_key ev = None"
      using assms by auto
    then show ?thesis by (auto simp: batch_once_def filter_empty_conv)
  next
    case (2 rows fx)
    let ?f = "price_event dec lib h rows fx tz"
    have after: "after = map (fst \<circ> ?f) events" and n: "n = length (filter (snd \<circ> ?f) events)"
      using assms 2 by simp_all
    have "snd (?f ev) \<longleftrightarrow> price_key (fst (?f ev)) \<noteq> None" for ev
      using price_event_key [of dec lib h rows fx tz ev] price_event_skips [of ev dec lib h rows fx tz]
      by (cases "price_key ev") auto
    then have "n = length (filter (\<lambda>ev. price_key ev \<noteq> None) after)"
      by (simp add: n after filter_map comp_def)
    moreover have "batch_once events after"
      using price_event_skips [of _ dec lib h rows fx tz] price_event_unpriced [of _ dec lib h rows fx tz]
      by (simp add: batch_once_def after)
    ultimately show ?thesis by simp
  qed
  then show "batch_once events after" "n = length (filter (\<lambda>ev. price_key ev \<noteq> None) after)"
    by simp_all
qed

section \<open>Properties\<close>

text \<open>
  C37: a batch that succeeds keeps the events in their places and does not touch one that failed,
  has no usage or no upstream, or is priced already (so none is priced twice); an event left
  without a price has no cost in either currency; and the number it returns is that of the
  events that would still have to be priced afterwards.
\<close>

theorem batch_prices_once:
  assumes "price_batch dec lib h load_fx load_rules tz events = (Inr n, after)"
  shows "batch_once events after \<and> n = length (filter (\<lambda>ev. price_key ev \<noteq> None) after)"
  using price_batch_once [OF assms] by simp

definition sample_event :: "int log_event" where
  "sample_event =
     \<lparr>ev_request_id = [], ev_ts = 5, ev_model = ''m'', ev_upstream_model = None,
      ev_upstream_id = Some 1, ev_status = 200, ev_prompt_tokens = Some 1,
      ev_completion_tokens = None, ev_cache_write_tokens = None, ev_cache_read_tokens = None,
      ev_images = None, ev_image_size = None, ev_video_seconds = None, ev_video_resolution = None,
      ev_video_task_type = None, ev_cost_cny = None, ev_cost_usd = None,
      ev_pricing_source = None, ev_price_used = None, ev_fx_snapshot = None\<rparr>"

lemma sample_batch:
  "fst (price_batch int_decimal sample_lib id (Inr (\<lambda>_. None)) (\<lambda>_. Inr []) ''UTC'' [sample_event]) = Inr 1"
  by (simp add: price_batch_def price_key_def has_usage_def sample_event_def price_event_def
      price_with_rules_def price_lines_def price_units_def unit_lines_def candidates_def
      best_by_currency_def sample_lib_def Let_def split: option.split)

lemma batch_prices_once_witness:
  "batch_once [sample_event]
     (snd (price_batch int_decimal sample_lib id (Inr (\<lambda>_. None)) (\<lambda>_. Inr []) ''UTC'' [sample_event]))"
proof -
  obtain after where after:
    "price_batch int_decimal sample_lib id (Inr (\<lambda>_. None)) (\<lambda>_. Inr []) ''UTC'' [sample_event] = (Inr 1, after)"
    using sample_batch
    by (cases "price_batch int_decimal sample_lib id (Inr (\<lambda>_. None)) (\<lambda>_. Inr []) ''UTC'' [sample_event]") simp
  from batch_prices_once [OF after] show ?thesis by (simp add: after)
qed

text \<open>
  A batch whose reads of the database fail returns the error and leaves every event as it
  was, so that it can be priced again.
\<close>

theorem batch_failure_keeps_events:
  assumes "fst (price_batch dec lib h load_fx load_rules tz events) = Inl e"
  shows "snd (price_batch dec lib h load_fx load_rules tz events) = events"
  using assms by (rule price_batch_error)

lemma batch_failure_keeps_events_witness:
  "snd (price_batch int_decimal sample_lib id (Inl (Internal [])) (\<lambda>_. Inr []) ''UTC'' [sample_event]) =
     [sample_event]"
  by (rule batch_failure_keeps_events [of _ _ _ _ _ _ _ "Internal []"])
    (simp add: price_batch_def price_key_def has_usage_def sample_event_def)

end
