(* ===== verification/Spec2Isabelle.thy ===== *)
theory Spec2Isabelle
  imports Routing Breaker Sticky Limit ChatRoundtrip AnthropicRoundtrip ResponsesRoundtrip GeminiRoundtrip Relay Idempotency Errors PriceBatch
begin

text \<open>
  A verification of the core of NextAPI, a gateway in Rust that stands between clients and
  providers of language models. A request comes in one of four protocols, is checked against the
  limits and quotas of its key, routed to an upstream that the circuit breaker admits, rewritten
  into the upstream's protocol by way of an intermediate representation, and answered by the
  translated response or stream; the usage is logged and priced. All paths below are relative to
  \<open>src/\<close>.

  \<^bold>\<open>Theories and what they model\<close>

  \<^item> \<open>Prelude\<close>: machine integers, UTF-8 characters, string operations, instants, maps that thread the
    degradation log, and the locales of the library: \<open>keyed_store\<close> (maps), \<open>invariant_machine\<close> (steps
    that keep an invariant) and \<open>event_source\<close> (a producer whose events a client automaton accepts).
  \<^item> \<open>Json\<close>: \<open>serde_json::Value\<close>. Objects are association lists in ascending order of their keys (a \<open>BTreeMap\<close>),
    numbers are \<open>u64\<close>, \<open>i64\<close> or the bits of a double. Parser and printer are the record
    \<open>json_text\<close>, an argument of the operations that use them.
  \<^item> \<open>Ir\<close>: \<open>protocol/ir.rs\<close> and the errors and the degradation log of \<open>protocol/mod.rs\<close>.
  \<^item> \<open>Chat\<close>, \<open>ChatRoundtrip\<close>: \<open>protocol/chat.rs\<close>, every function of it in both directions, then the
    round trips.
  \<^item> \<open>Anthropic\<close>, \<open>AnthropicStream\<close>, \<open>AnthropicClient\<close>, \<open>AnthropicRoundtrip\<close>: \<open>protocol/anthropic.rs\<close>; requests and
    responses, the two stream state machines, a client automaton for the Messages stream with
    the simulation, and the round trips.
  \<^item> \<open>Channels\<close>: what the outbound side of every protocol is driven with (IR chunks and the upstream's
    failure), the text, thinking and tool channels, and the locale \<open>event_reader\<close> of the inbound sides.
  \<^item> \<open>Responses\<close>, \<open>ResponsesStream\<close>, \<open>ResponsesClient\<close>, \<open>ResponsesReader\<close>, \<open>ResponsesRoundtrip\<close>:
    \<open>protocol/responses.rs\<close>; requests, responses and usage, the two stream state machines, a client
    automaton with the simulation, the inbound side with the content of the terminal event, and
    the round trips.
  \<^item> \<open>Gemini\<close>, \<open>GeminiStream\<close>, \<open>GeminiFrames\<close>, \<open>GeminiPairing\<close>, \<open>GeminiRoundtrip\<close>: \<open>protocol/gemini.rs\<close>;
    requests, responses and usage, the stream, that every call is sent once and every channel
    read back, the pairing of results with calls that have no ids, and the round trips.
  \<^item> \<open>Sse\<close>: \<open>protocol/sse.rs\<close> with lossy UTF-8 decoding written out.
  \<^item> \<open>Errors\<close>: \<open>protocol/errors.rs\<close>.
  \<^item> \<open>Entities\<close>: the rows of \<open>entities.rs\<close>, \<open>error.rs\<close>, the switch of \<open>state.rs\<close>.
  \<^item> \<open>Glob\<close>, \<open>Routing\<close>, \<open>Breaker\<close>, \<open>Sticky\<close>: \<open>routing/mod.rs\<close>. The breaker's step is a function of the
    row, the instant and the state; it returns the database update that the code then runs.
  \<^item> \<open>Limit\<close>: \<open>limit/mod.rs\<close>.
  \<^item> \<open>Billing\<close>, \<open>PriceBatch\<close>: \<open>billing/mod.rs\<close> and the rate set of \<open>billing/fx.rs\<close>.

  \<^bold>\<open>Conventions\<close>

  Integers of the wire (tokens, indices) are words of their width; integers of database columns are
  \<open>int\<close> with the width's saturation written out where it matters. A handler that reads the clock or
  draws a random number takes it as an argument. A lock makes each operation of the breaker,
  the limiter and the sticky table atomic, so an interleaving of requests is a list of
  operations; the half-open clock has a lock of its own in the code, but is only taken inside an
  operation. Answers of the database are arguments. Errors are \<open>Inl\<close> of a sum. The reasons
  noted in the degradation log are short ASCII texts in place of the Chinese ones; the fields are the
  code's. Decimal arithmetic is the record \<open>decimal_ops\<close>, no law of which is assumed; time
  zones are the record \<open>tz_lib\<close>. A panic of the code (overflow of a decimal) is outside the model.

  \<^bold>\<open>Loops and bounds\<close>

  No definition uses fuel. The glob loop ends by a lexicographic measure (star position, eaten
  length, text position), the SSE line loop and the UTF-8 decoder by the length of the input,
  all other loops are structural. Block indices and tool indices are 32-bit and wrap, as in a release
  build; the properties hold under wrap-around.

  \<^bold>\<open>What the lemmas show\<close>

  The streams of the Anthropic and the Responses protocol are simulated by a client automaton each
  (\<open>keeps_up\<close>, \<open>rclient_of\<close>), from which the ordering and the discipline of blocks and items follow for
  every stream; further groups show that the content of each channel is preserved and read back,
  and that the terminal event of a Responses stream carries all of it. The round trip groups show for each
  protocol that writing and then reading is the identity on the values that fit it, with the
  conditions collected in predicates such as \<open>chat_request_ok\<close>. The SSE groups show independence of
  the transport's cuts and the decoding of encoded events. The routing groups show that the
  greedy loop decides the declarative wildcard language, that selection is stable and drawing
  proportional. The breaker, limiter and sticky groups are invariants over arbitrary runs, each
  with its refinement to an abstract history. The billing groups show that the selected rule is
  the best one and that hash order does not show.

  \<^bold>\<open>Not modelled\<close>

  Next in the plan are the decisions of \<open>gateway.rs\<close> and \<open>idempotency.rs\<close>. HTTP clients and servers, SQL, files, the vendors' account
  clients under \<open>upstream/\<close>, media endpoints and the administration API are I/O around
  libraries. The aggregator of tool calls in \<open>protocol/ir.rs\<close> is used by tests only.
\<close>

end
